(* ===== verification/Kubenyx_Prelude.thy ===== *)
theory Kubenyx_Prelude
  imports Main "HOL-Library.Word" "HOL-Library.List_Lexorder"
begin

text \<open>
  Shared vocabulary of the development: byte strings, the signed 64-bit counters of the Rust code,
  the outcome of an operation that may panic, and the generic list lemmas the components use.

  A Rust \<open>Vec<u8>\<close> is a list of bytes ordered lexicographically (\<open>HOL-Library.List_Lexorder\<close>), as
  Rust orders it. An \<open>i64\<close> is an \<^typ>\<open>int\<close> whose increment wraps at the end of the range
  (\<open>i64_succ\<close>): the shipped profile is \<open>release\<close>, in which overflow wraps.
\<close>

type_synonym byte = "8 word"
type_synonym bytes = "8 word list"

named_theorems store_simps \<open>field updates and reads of the store operations\<close>
named_theorems inv_intros \<open>invariant preservation by the operations\<close>

section \<open>Signed 64-bit integers\<close>

definition i64_max :: int where
  "i64_max = 9223372036854775807"

definition i64_min :: int where
  "i64_min = - 9223372036854775808"

definition usize_max :: nat where
  "usize_max = 18446744073709551615"

text \<open>\<open>x + 1\<close> on \<open>i64\<close> in the release profile.\<close>

definition i64_succ :: "int \<Rightarrow> int" where
  "i64_succ x = (if x = i64_max then i64_min else x + 1)"

text \<open>Any \<open>i64\<close> result reduced into the range, two's complement.\<close>

definition wrap_i64 :: "int \<Rightarrow> int" where
  "wrap_i64 x = (x + 9223372036854775808) mod 18446744073709551616 - 9223372036854775808"

lemma i64_succ_below [simp]: "x < i64_max \<Longrightarrow> i64_succ x = x + 1"
  by (simp add: i64_succ_def)

lemma wrap_i64_id [simp]: "i64_min \<le> x \<Longrightarrow> x \<le> i64_max \<Longrightarrow> wrap_i64 x = x"
  by (simp add: wrap_i64_def i64_min_def i64_max_def)

lemma wrap_i64_range: "i64_min \<le> wrap_i64 x \<and> wrap_i64 x \<le> i64_max"
  by (simp add: wrap_i64_def i64_min_def i64_max_def)

lemma i64_succ_wrap:
  assumes "i64_min \<le> x" "x \<le> i64_max"
  shows "i64_succ x = wrap_i64 (x + 1)"
proof (cases "x = i64_max")
  case True
  then show ?thesis by (simp add: i64_succ_def wrap_i64_def i64_max_def i64_min_def)
next
  case False
  with assms have "i64_min \<le> x + 1" "x + 1 \<le> i64_max" by linarith+
  with False show ?thesis by (simp add: i64_succ_def)
qed

section \<open>Outcomes\<close>

text \<open>
  The panics of the modelled code. A panic unwinds the task that raised it; the state reached so
  far stays (the async mutex of the store is released, not poisoned), so an operation that may
  panic returns its state next to its outcome.
\<close>

datatype panic = RangeStartAfterEnd | InstantOverflow

section \<open>Lists\<close>

lemma filter_le_last:
  assumes "sorted_wrt (<) (map f (xs @ [y]))"
  shows "filter (\<lambda>x. f x \<le> (f y::'b::linorder)) (xs @ [y]) = xs @ [y]"
  using assms by (auto simp: sorted_wrt_append intro!: filter_True less_imp_le)

lemma sorted_wrt_filter_map:
  "sorted_wrt R (map f xs) \<Longrightarrow> sorted_wrt R (map f (filter P xs))"
  by (induction xs) auto

lemma filter_above_above:
  "a \<le> (b::int) \<Longrightarrow> filter (\<lambda>x. b < f x) (filter (\<lambda>x. a < f x) xs) = filter (\<lambda>x. b < f x) xs"
  by (induction xs) auto

end
