(* ===== verification/BTree_Map.thy ===== *)
theory BTree_Map
  imports Kubenyx_Prelude
begin

text \<open>
  The part of \<open>std::collections::BTreeMap\<close> the store uses. The map is its in-order entry list:
  strictly ascending keys, each with its value. The locale \<open>ordered_map\<close> is the contract the
  clients rely on (what a lookup returns after an insert or a removal, and which entries a range
  yields, in which order); the interpretation at the end discharges it for the entry list.
\<close>

section \<open>The contract\<close>

locale ordered_map =
  fixes get :: "'m \<Rightarrow> 'k::linorder \<Rightarrow> 'v option"
    and insert :: "'k \<Rightarrow> 'v \<Rightarrow> 'm \<Rightarrow> 'm"
    and remove :: "'k \<Rightarrow> 'm \<Rightarrow> 'm"
    and entries :: "'m \<Rightarrow> ('k \<times> 'v) list"
    and invar :: "'m \<Rightarrow> bool"
  assumes get_insert: "invar m \<Longrightarrow> get (insert k v m) = (get m)(k \<mapsto> v)"
    and get_remove: "invar m \<Longrightarrow> get (remove k m) = (get m)(k := None)"
    and entries_get: "invar m \<Longrightarrow> (k, v) \<in> set (entries m) \<longleftrightarrow> get m k = Some v"
    and entries_sorted: "invar m \<Longrightarrow> sorted_wrt (<) (map fst (entries m))"
    and invar_insert: "invar m \<Longrightarrow> invar (insert k v m)"
    and invar_remove: "invar m \<Longrightarrow> invar (remove k m)"
begin

lemma keys_distinct: "invar m \<Longrightarrow> distinct (map fst (entries m))"
  using entries_sorted strict_sorted_iff by blast

lemma keys_dom: "invar m \<Longrightarrow> set (map fst (entries m)) = dom (get m)"
  by (auto simp: dom_def image_iff entries_get) (metis entries_get fst_conv)

lemma get_map_of: "invar m \<Longrightarrow> get m = map_of (entries m)"
proof (rule ext)
  fix k
  assume inv: "invar m"
  show "get m k = map_of (entries m) k"
  proof (cases "get m k")
    case None
    with inv show ?thesis
      by (metis keys_dom domIff map_of_eq_None_iff list.set_map)
  next
    case (Some v)
    with inv have "(k, v) \<in> set (entries m)" by (simp add: entries_get)
    with inv Some show ?thesis by (simp add: keys_distinct)
  qed
qed

text \<open>Two maps with the same lookups have the same entries in the same order.\<close>

lemma entries_ext:
  assumes "invar m" "invar n" "get m = get n"
  shows "entries m = entries n"
proof -
  have "set (entries m) = set (entries n)"
    using assms by (auto simp: entries_get)
  moreover have "inj_on fst (set (entries m))"
    using keys_distinct [OF assms(1)] by (simp add: distinct_map)
  ultimately show ?thesis
    using assms entries_sorted keys_distinct strict_sorted_imp_sorted
    by (intro map_sorted_distinct_set_unique [where f = fst]) auto
qed

lemma entries_filter_mem:
  "invar m \<Longrightarrow> (k, v) \<in> set (filter P (entries m)) \<longleftrightarrow> get m k = Some v \<and> P (k, v)"
  by (auto simp: entries_get)

end

section \<open>The entry list\<close>

type_synonym ('k, 'v) btree = "('k \<times> 'v) list"

definition bt_empty :: "('k, 'v) btree" where
  "bt_empty = []"

fun bt_get :: "('k, 'v) btree \<Rightarrow> 'k \<Rightarrow> 'v option" where
  "bt_get [] k = None"
| "bt_get ((a, b) # m) k = (if a = k then Some b else bt_get m k)"

fun bt_insert :: "'k::linorder \<Rightarrow> 'v \<Rightarrow> ('k, 'v) btree \<Rightarrow> ('k, 'v) btree" where
  "bt_insert k v [] = [(k, v)]"
| "bt_insert k v ((a, b) # m) =
     (if k < a then (k, v) # (a, b) # m
      else if k = a then (k, v) # m
      else (a, b) # bt_insert k v m)"

fun bt_remove :: "'k \<Rightarrow> ('k, 'v) btree \<Rightarrow> ('k, 'v) btree" where
  "bt_remove k [] = []"
| "bt_remove k ((a, b) # m) = (if a = k then m else (a, b) # bt_remove k m)"

text \<open>\<open>get_mut\<close> followed by an assignment through the reference.\<close>

definition bt_modify :: "'k::linorder \<Rightarrow> ('v \<Rightarrow> 'v) \<Rightarrow> ('k, 'v) btree \<Rightarrow> ('k, 'v) btree" where
  "bt_modify k f m = (case bt_get m k of None \<Rightarrow> m | Some v \<Rightarrow> bt_insert k (f v) m)"

text \<open>
  \<open>range(lo..)\<close>, and \<open>range(lo..hi)\<close>. The latter panics when its start is after its end, but only if the map
  has a root node: a map gets one with its first entry and keeps it when the last entry goes.
\<close>

definition bt_range_from :: "'k::linorder \<Rightarrow> ('k, 'v) btree \<Rightarrow> ('k \<times> 'v) list" where
  "bt_range_from lo m = filter (\<lambda>e. lo \<le> fst e) m"

definition bt_range :: "bool \<Rightarrow> 'k::linorder \<Rightarrow> 'k \<Rightarrow> ('k, 'v) btree \<Rightarrow> panic + ('k \<times> 'v) list" where
  "bt_range root lo hi m =
     (if root \<and> hi < lo then Inl RangeStartAfterEnd
      else Inr (filter (\<lambda>e. lo \<le> fst e \<and> fst e < hi) m))"

definition bt_inv :: "('k::linorder, 'v) btree \<Rightarrow> bool" where
  "bt_inv m \<longleftrightarrow> sorted_wrt (<) (map fst m)"

section \<open>The entry list meets the contract\<close>

lemma bt_get_map_of: "bt_get m = map_of m"
  by (induction m) (auto simp: fun_eq_iff)

lemma bt_get_None_below:
  "bt_inv m \<Longrightarrow> \<forall>a \<in> set (map fst m). k < a \<Longrightarrow> bt_get m k = None"
  by (induction m) (auto simp: bt_inv_def)

lemma bt_get_insert: "bt_get (bt_insert k v m) = (bt_get m)(k \<mapsto> v)"
  by (induction m) (auto simp: fun_eq_iff)

lemma set_keys_insert: "fst ` set (bt_insert k v m) = insert k (fst ` set m)"
  by (induction k v m rule: bt_insert.induct) auto

lemma set_keys_remove: "fst ` set (bt_remove k m) \<subseteq> fst ` set m"
  by (induction k m rule: bt_remove.induct) auto

lemma bt_inv_insert: "bt_inv m \<Longrightarrow> bt_inv (bt_insert k v m)"
proof (induction m)
  case (Cons e m)
  obtain a b where e: "e = (a, b)" by fastforce
  with Cons have "bt_inv (bt_insert k v m)" by (simp add: bt_inv_def)
  with Cons.prems e show ?case
    using set_keys_insert [of k v m] by (auto simp: bt_inv_def)
qed (simp add: bt_inv_def)

lemma bt_inv_remove: "bt_inv m \<Longrightarrow> bt_inv (bt_remove k m)"
proof (induction m)
  case (Cons e m)
  obtain a b where e: "e = (a, b)" by fastforce
  with Cons have "bt_inv (bt_remove k m)" by (simp add: bt_inv_def)
  with Cons.prems e show ?case
    using set_keys_remove [of k m] by (fastforce simp: bt_inv_def)
qed (simp add: bt_inv_def)

lemma bt_get_remove: "bt_inv m \<Longrightarrow> bt_get (bt_remove k m) = (bt_get m)(k := None)"
proof (induction m)
  case (Cons e m)
  obtain a b where e: "e = (a, b)" by fastforce
  with Cons have IH: "bt_get (bt_remove k m) = (bt_get m)(k := None)" and inv: "bt_inv m"
    by (auto simp: bt_inv_def)
  from Cons.prems e have "bt_get m a = None"
    by (intro bt_get_None_below [OF inv]) (auto simp: bt_inv_def)
  with IH e show ?case by (auto simp: fun_eq_iff)
qed (simp add: fun_eq_iff)

lemma bt_distinct: "bt_inv m \<Longrightarrow> distinct (map fst m)"
  by (simp add: bt_inv_def strict_sorted_iff)

lemma bt_mem_get: "bt_inv m \<Longrightarrow> (k, v) \<in> set m \<longleftrightarrow> bt_get m k = Some v"
  by (simp add: bt_get_map_of bt_distinct)

interpretation bt: ordered_map bt_get bt_insert bt_remove "\<lambda>m. m" bt_inv
  by unfold_locales
     (auto simp: bt_get_insert bt_get_remove bt_mem_get bt_inv_insert bt_inv_remove,
      auto simp: bt_inv_def)

lemma bt_inv_empty [simp]: "bt_inv bt_empty" and bt_get_empty [simp]: "bt_get bt_empty k = None"
  by (simp_all add: bt_inv_def bt_empty_def)

lemma bt_inv_modify: "bt_inv m \<Longrightarrow> bt_inv (bt_modify k f m)"
  by (auto simp: bt_modify_def bt_inv_insert split: option.split)

lemma bt_get_modify:
  "bt_get (bt_modify k f m) a = (if a = k then map_option f (bt_get m k) else bt_get m a)"
  by (auto simp: bt_modify_def bt_get_insert split: option.split)

lemma bt_ext: "bt_inv m \<Longrightarrow> bt_inv n \<Longrightarrow> bt_get m = bt_get n \<Longrightarrow> m = n"
  by (rule bt.entries_ext)

lemma bt_range_from_mem:
  "bt_inv m \<Longrightarrow> (k, v) \<in> set (bt_range_from lo m) \<longleftrightarrow> bt_get m k = Some v \<and> lo \<le> k"
  by (auto simp: bt_range_from_def bt_mem_get)

lemma bt_range_mem:
  "bt_inv m \<Longrightarrow> bt_range root lo hi m = Inr es \<Longrightarrow>
     (k, v) \<in> set es \<longleftrightarrow> bt_get m k = Some v \<and> lo \<le> k \<and> k < hi"
  by (auto simp: bt_range_def bt_mem_get split: if_splits)

end
