(* ===== verification/Etcd_Types.thy ===== *)
theory Etcd_Types
  imports Kubenyx_Prelude
begin

text \<open>
  The messages of \<open>etcd-mem/proto/rpc.proto\<close> as the generated Rust structs have them: an absent
  message field is \<^term>\<open>None\<close>, an enum field is its \<open>i32\<close> value (an \<^typ>\<open>int\<close>), a \<open>oneof\<close> is a
  datatype whose unset case is the last constructor. Field names carry a prefix per message.
\<close>

section \<open>Shared messages\<close>

record ResponseHeader =
  cluster_id :: "64 word"
  member_id :: "64 word"
  hdr_revision :: int
  raft_term :: "64 word"

record KeyValue =
  pk_key :: bytes
  pk_create_revision :: int
  pk_mod_revision :: int
  pk_version :: int
  pk_value :: bytes
  pk_lease :: int

record Event =
  pe_type :: int
  pe_kv :: "KeyValue option"
  pe_prev_kv :: "KeyValue option"

section \<open>KV\<close>

record RangeRequest =
  rr_key :: bytes
  rr_range_end :: bytes
  rr_limit :: int
  rr_revision :: int
  rr_sort_order :: int
  rr_sort_target :: int
  rr_serializable :: bool
  rr_keys_only :: bool
  rr_count_only :: bool
  rr_min_mod_revision :: int
  rr_max_mod_revision :: int
  rr_min_create_revision :: int
  rr_max_create_revision :: int

record RangeResponse =
  ra_header :: "ResponseHeader option"
  ra_kvs :: "KeyValue list"
  ra_more :: bool
  ra_count :: int

record PutRequest =
  pr_key :: bytes
  pr_value :: bytes
  pr_lease :: int
  pr_prev_kv :: bool
  pr_ignore_value :: bool
  pr_ignore_lease :: bool

record PutResponse =
  pa_header :: "ResponseHeader option"
  pa_prev_kv :: "KeyValue option"

record DeleteRangeRequest =
  dr_key :: bytes
  dr_range_end :: bytes
  dr_prev_kv :: bool

record DeleteRangeResponse =
  da_header :: "ResponseHeader option"
  da_deleted :: int
  da_prev_kvs :: "KeyValue list"

datatype TargetUnion =
    TVersion int | TCreateRevision int | TModRevision int | TLease int | TValue bytes | TNone

record Compare =
  c_result :: int
  c_target :: int
  c_key :: bytes
  c_target_union :: TargetUnion
  c_range_end :: bytes

datatype RequestOp =
    RequestRange RangeRequest
  | RequestPut PutRequest
  | RequestDeleteRange DeleteRangeRequest
  | RequestTxn TxnRequest
  | RequestNone
and TxnRequest =
    TxnRequest (tx_compare: "Compare list") (tx_success: "RequestOp list")
      (tx_failure: "RequestOp list")

datatype ResponseOp =
    ResponseRange RangeResponse
  | ResponsePut PutResponse
  | ResponseDeleteRange DeleteRangeResponse
  | ResponseTxn TxnResponse
  | ResponseNone
and TxnResponse =
    TxnResponse (ta_header: "ResponseHeader option") (ta_succeeded: bool)
      (ta_responses: "ResponseOp list")

section \<open>Watch\<close>

record WatchCreateRequest =
  wc_key :: bytes
  wc_range_end :: bytes
  wc_start_revision :: int
  wc_progress_notify :: bool
  wc_filters :: "int list"
  wc_prev_kv :: bool
  wc_watch_id :: int
  wc_fragment :: bool

datatype WatchRequest =
    CreateRequest WatchCreateRequest | CancelRequest int | ProgressRequest | WatchRequestNone

record WatchResponse =
  wa_header :: "ResponseHeader option"
  wa_watch_id :: int
  wa_created :: bool
  wa_canceled :: bool
  wa_compact_revision :: int
  wa_cancel_reason :: string
  wa_fragment :: bool
  wa_events :: "Event list"

definition WatchResponse_default :: WatchResponse where
  "WatchResponse_default =
     \<lparr>wa_header = None, wa_watch_id = 0, wa_created = False, wa_canceled = False,
      wa_compact_revision = 0, wa_cancel_reason = [], wa_fragment = False, wa_events = []\<rparr>"

section \<open>Lease\<close>

record LeaseGrantRequest =
  lg_ttl :: int
  lg_id :: int

record LeaseGrantResponse =
  lga_header :: "ResponseHeader option"
  lga_id :: int
  lga_ttl :: int
  lga_error :: string

record LeaseKeepAliveResponse =
  lka_header :: "ResponseHeader option"
  lka_id :: int
  lka_ttl :: int

record LeaseTimeToLiveRequest =
  lt_id :: int
  lt_keys :: bool

record LeaseTimeToLiveResponse =
  lta_header :: "ResponseHeader option"
  lta_id :: int
  lta_ttl :: int
  lta_granted_ttl :: int
  lta_keys :: "bytes list"

record LeaseLeasesResponse =
  lla_header :: "ResponseHeader option"
  lla_leases :: "int list"

section \<open>Cluster and maintenance\<close>

record Member =
  mb_id :: "64 word"
  mb_name :: string
  mb_peer_urls :: "string list"
  mb_client_urls :: "string list"
  mb_is_learner :: bool

record MemberListResponse =
  mla_header :: "ResponseHeader option"
  mla_members :: "Member list"

record StatusResponse =
  sa_header :: "ResponseHeader option"
  sa_version :: string
  sa_db_size :: "64 word"
  sa_leader :: "64 word"
  sa_raft_index :: "64 word"
  sa_raft_term :: "64 word"
  sa_raft_applied_index :: "64 word"
  sa_errors :: "string list"
  sa_db_size_in_use :: "64 word"
  sa_is_learner :: bool

record HashResponse =
  ha_header :: "ResponseHeader option"
  ha_hash :: "32 word"

record HashKvResponse =
  hka_header :: "ResponseHeader option"
  hka_hash :: "32 word"
  hka_compact_revision :: int

end
