(* ===== verification/Etcd_Store.thy ===== *)
theory Etcd_Store
  imports BTree_Map Etcd_Types
begin

text \<open>
  The in-memory store, \<open>etcd-mem/src/store.rs\<close>, operation by operation. \<open>&mut self\<close> is state
  passing: an operation takes its arguments and the store and returns its result with the new
  store. \<open>Instant::now()\<close> is the argument \<open>now\<close>, in nanoseconds of the monotonic clock. The
  broadcast sender \<open>tx\<close> (a tokio channel) is the list \<open>sent\<close> of the batches handed to it, in
  order. Operations that can panic return the panic next to the store they leave behind. The field
  \<open>kvs_root\<close> is the part of the map \<open>kvs\<close> that its entries do not show: whether it has a root node.
\<close>

section \<open>Data\<close>

definition CLUSTER_ID :: "64 word" where
  "CLUSTER_ID = 0xCAFEDEADBEEF0001"

definition MEMBER_ID :: "64 word" where
  "MEMBER_ID = 1"

record Kv =
  key :: bytes
  val :: bytes
  create_revision :: int
  mod_revision :: int
  version :: int
  lease :: int

record StoredEvent =
  ev_type :: int
  ev_kv :: Kv
  ev_prev_kv :: "Kv option"

record BroadcastBatch =
  b_revision :: int
  b_events :: "StoredEvent list"

record LeaseEntry =
  le_id :: int
  le_granted_ttl :: int
  le_deadline :: int
  le_keys :: "bytes list"

record Store =
  kvs :: "(bytes, Kv) btree"
  revision :: int
  compact_revision :: int
  log :: "(int \<times> StoredEvent list) list"
  leases :: "(int, LeaseEntry) btree"
  next_lease_id :: int
  sent :: "BroadcastBatch list"
  kvs_root :: bool

definition Store_new :: Store where
  "Store_new =
     \<lparr>kvs = bt_empty, revision = 1, compact_revision = 0, log = [], leases = bt_empty,
      next_lease_id = 1, sent = [], kvs_root = False\<rparr>"

definition header_rev :: "int \<Rightarrow> ResponseHeader" where
  "header_rev rv =
     \<lparr>cluster_id = CLUSTER_ID, member_id = MEMBER_ID, hdr_revision = rv, raft_term = 1\<rparr>"

definition header :: "Store \<Rightarrow> ResponseHeader" where
  "header self = header_rev (revision self)"

section \<open>Conversions to the wire\<close>

definition kv_to_proto :: "Kv \<Rightarrow> bool \<Rightarrow> KeyValue" where
  "kv_to_proto k keys_only =
     \<lparr>pk_key = key k, pk_create_revision = create_revision k, pk_mod_revision = mod_revision k,
      pk_version = version k, pk_value = (if keys_only then [] else val k),
      pk_lease = lease k\<rparr>"

definition kv_to_event :: "StoredEvent \<Rightarrow> Event" where
  "kv_to_event ev =
     \<lparr>pe_type = ev_type ev, pe_kv = Some (kv_to_proto (ev_kv ev) False),
      pe_prev_kv = map_option (\<lambda>k. kv_to_proto k False) (ev_prev_kv ev)\<rparr>"

section \<open>Range\<close>

text \<open>Lines 117-126: the entries a request's key and range end select, in key order.\<close>

definition range_select :: "Store \<Rightarrow> bytes \<Rightarrow> bytes \<Rightarrow> panic + Kv list" where
  "range_select self k range_end =
     (if range_end = [] then Inr (case bt_get (kvs self) k of None \<Rightarrow> [] | Some v \<Rightarrow> [v])
      else if range_end = [0] then Inr (map snd (bt_range_from k (kvs self)))
      else map_sum id (map snd) (bt_range (kvs_root self) k range_end (kvs self)))"

definition range_keep :: "int \<Rightarrow> RangeRequest \<Rightarrow> Kv \<Rightarrow> bool" where
  "range_keep at_rev r kv \<longleftrightarrow>
     mod_revision kv \<le> at_rev
     \<and> (rr_min_mod_revision r = 0 \<or> rr_min_mod_revision r \<le> mod_revision kv)
     \<and> (rr_max_mod_revision r = 0 \<or> mod_revision kv \<le> rr_max_mod_revision r)
     \<and> (rr_min_create_revision r = 0 \<or> rr_min_create_revision r \<le> create_revision kv)
     \<and> (rr_max_create_revision r = 0 \<or> create_revision kv \<le> rr_max_create_revision r)"

definition range_kvs :: "RangeRequest \<Rightarrow> Store \<Rightarrow> panic + (Kv list \<times> bool \<times> int)" where
  "range_kvs r self =
     (let at_rev = (if rr_revision r = 0 then revision self
                    else min (rr_revision r) (revision self))
      in case range_select self (rr_key r) (rr_range_end r) of
           Inl p \<Rightarrow> Inl p
         | Inr all \<Rightarrow>
             (let filtered = filter (range_keep at_rev r) all;
                  total = int (length filtered);
                  lim = (if rr_limit r \<le> 0 then usize_max else nat (rr_limit r));
                  more = lim < length filtered
              in Inr (take lim filtered, more, total)))"

section \<open>Mutations\<close>

definition emit :: "int \<Rightarrow> StoredEvent list \<Rightarrow> Store \<Rightarrow> Store" where
  "emit rv events self =
     self\<lparr>log := log self @ [(rv, events)],
          sent := sent self @ [\<lparr>b_revision = rv, b_events = events\<rparr>]\<rparr>"

text \<open>\<open>le.keys.retain(|k| k != key)\<close> and the push of a key that is not there yet.\<close>

definition lease_drop_key :: "bytes \<Rightarrow> LeaseEntry \<Rightarrow> LeaseEntry" where
  "lease_drop_key k le = le\<lparr>le_keys := filter (\<lambda>x. x \<noteq> k) (le_keys le)\<rparr>"

definition lease_add_key :: "bytes \<Rightarrow> LeaseEntry \<Rightarrow> LeaseEntry" where
  "lease_add_key k le = (if k \<in> set (le_keys le) then le else le\<lparr>le_keys := le_keys le @ [k]\<rparr>)"

definition put ::
  "bytes \<Rightarrow> bytes \<Rightarrow> int \<Rightarrow> bool \<Rightarrow> bool \<Rightarrow> bool \<Rightarrow> Store \<Rightarrow> (ResponseHeader \<times> Kv option) \<times> Store" where
  "put k v lid want_prev_kv ignore_value ignore_lease self0 =
     (let self = self0\<lparr>revision := i64_succ (revision self0)\<rparr>;
          rev = revision self;
          prev = bt_get (kvs self) k;
          use_value = (if ignore_value then (case prev of None \<Rightarrow> [] | Some p \<Rightarrow> val p) else v);
          use_lease = (if ignore_lease then (case prev of None \<Rightarrow> 0 | Some p \<Rightarrow> lease p) else lid);
          leases1 = (case prev of
              None \<Rightarrow> leases self
            | Some p \<Rightarrow> if lease p \<noteq> 0 then bt_modify (lease p) (lease_drop_key k) (leases self)
                        else leases self);
          leases2 = (if use_lease \<noteq> 0 then bt_modify use_lease (lease_add_key k) leases1
                     else leases1);
          entry = \<lparr>key = k, val = use_value,
                   create_revision = (case prev of None \<Rightarrow> rev | Some p \<Rightarrow> create_revision p),
                   mod_revision = rev,
                   version = (case prev of None \<Rightarrow> 1 | Some p \<Rightarrow> i64_succ (version p)),
                   lease = use_lease\<rparr>;
          ev = \<lparr>ev_type = 0, ev_kv = entry, ev_prev_kv = prev\<rparr>;
          self' = emit rev [ev] (self\<lparr>leases := leases2, kvs := bt_insert k entry (kvs self), kvs_root := True\<rparr>)
      in ((header self', if want_prev_kv then prev else None), self'))"

text \<open>Lines 220-236: the keys a deletion covers.\<close>

definition delete_keys :: "Store \<Rightarrow> bytes \<Rightarrow> bytes \<Rightarrow> panic + bytes list" where
  "delete_keys self req_key range_end =
     (if range_end = [] then
        Inr (if bt_get (kvs self) req_key \<noteq> None then [req_key] else [])
      else if range_end = [0] then Inr (map fst (bt_range_from req_key (kvs self)))
      else map_sum id (map fst) (bt_range (kvs_root self) req_key range_end (kvs self)))"

definition tombstone :: "int \<Rightarrow> bytes \<Rightarrow> Kv \<Rightarrow> StoredEvent" where
  "tombstone rv k old =
     \<lparr>ev_type = 1,
      ev_kv = \<lparr>key = k, val = [], create_revision = create_revision old, mod_revision = rv,
               version = 0, lease = 0\<rparr>,
      ev_prev_kv = Some old\<rparr>"

text \<open>The loop of lines 247-272, with its two accumulators.\<close>

fun delete_loop ::
  "int \<Rightarrow> bool \<Rightarrow> bytes list \<Rightarrow> Kv list \<Rightarrow> StoredEvent list \<Rightarrow> Store
    \<Rightarrow> Kv list \<times> StoredEvent list \<times> Store" where
  "delete_loop rv want_prev_kv [] prev_kvs events self = (prev_kvs, events, self)"
| "delete_loop rv want_prev_kv (k # ks) prev_kvs events self =
     (case bt_get (kvs self) k of
        None \<Rightarrow> delete_loop rv want_prev_kv ks prev_kvs events self
      | Some old \<Rightarrow>
          (let self1 = self\<lparr>kvs := bt_remove k (kvs self)\<rparr>;
               self2 = (if lease old \<noteq> 0
                        then self1\<lparr>leases := bt_modify (lease old) (lease_drop_key k) (leases self1)\<rparr>
                        else self1)
           in delete_loop rv want_prev_kv ks
                (if want_prev_kv then prev_kvs @ [old] else prev_kvs)
                (events @ [tombstone rv k old]) self2))"

definition delete_range ::
  "bytes \<Rightarrow> bytes \<Rightarrow> bool \<Rightarrow> Store \<Rightarrow> (panic + (ResponseHeader \<times> int \<times> Kv list)) \<times> Store" where
  "delete_range req_key range_end want_prev_kv self =
     (case delete_keys self req_key range_end of
        Inl p \<Rightarrow> (Inl p, self)
      | Inr ks \<Rightarrow>
          if ks = [] then (Inr (header self, 0, []), self)
          else (let self1 = self\<lparr>revision := i64_succ (revision self)\<rparr>;
                    rev = revision self1
                in case delete_loop rev want_prev_kv ks [] [] self1 of
                     (prev_kvs, events, self2) \<Rightarrow>
                       (let self3 = emit rev events self2
                        in (Inr (header self3, int (length events), prev_kvs), self3))))"

section \<open>Transactions\<close>

datatype ordering = Less | Equal | Greater

definition cmp :: "'a::linorder \<Rightarrow> 'a \<Rightarrow> ordering" where
  "cmp a b = (if a < b then Less else if a = b then Equal else Greater)"

text \<open>Lines 302-308 and the five equal tails: the wanted ordering, or its negation.\<close>

definition compare_wanted :: "int \<Rightarrow> ordering" where
  "compare_wanted r =
     (if r = 0 then Equal else if r = 1 then Greater else if r = 2 then Less else Equal)"

definition compare_result :: "int \<Rightarrow> ordering \<Rightarrow> bool" where
  "compare_result r ord = (if r = 3 then ord \<noteq> Equal else ord = compare_wanted r)"

definition eval_compare :: "Store \<Rightarrow> Compare \<Rightarrow> bool" where
  "eval_compare self c =
     (let kv = bt_get (kvs self) (c_key c);
          num = (\<lambda>f. case kv of None \<Rightarrow> 0 | Some k \<Rightarrow> f k)
      in if c_target c = 0 then
           compare_result (c_result c)
             (cmp (num version) (case c_target_union c of TVersion x \<Rightarrow> x | _ \<Rightarrow> 0))
         else if c_target c = 1 then
           compare_result (c_result c)
             (cmp (num create_revision) (case c_target_union c of TCreateRevision x \<Rightarrow> x | _ \<Rightarrow> 0))
         else if c_target c = 2 then
           compare_result (c_result c)
             (cmp (num mod_revision) (case c_target_union c of TModRevision x \<Rightarrow> x | _ \<Rightarrow> 0))
         else if c_target c = 3 then
           compare_result (c_result c)
             (cmp (case kv of None \<Rightarrow> [] | Some k \<Rightarrow> val k)
                  (case c_target_union c of TValue x \<Rightarrow> x | _ \<Rightarrow> []))
         else if c_target c = 4 then
           compare_result (c_result c)
             (cmp (num lease) (case c_target_union c of TLease x \<Rightarrow> x | _ \<Rightarrow> 0))
         else True)"

text \<open>
  The range branch of \<open>exec_op\<close> (and of the Range RPC): conversion of the selected entries.
\<close>

definition range_response :: "RangeRequest \<Rightarrow> Store \<Rightarrow> panic + RangeResponse" where
  "range_response r self =
     map_sum id (\<lambda>(ks, more, count).
       \<lparr>ra_header = Some (header self),
        ra_kvs = (if rr_count_only r then [] else map (\<lambda>k. kv_to_proto k (rr_keys_only r)) ks),
        ra_more = more, ra_count = count\<rparr>) (range_kvs r self)"

definition put_response :: "PutRequest \<Rightarrow> Store \<Rightarrow> PutResponse \<times> Store" where
  "put_response r self =
     (case put (pr_key r) (pr_value r) (pr_lease r) (pr_prev_kv r) (pr_ignore_value r)
             (pr_ignore_lease r) self of
        ((hdr, prev), self') \<Rightarrow>
          (\<lparr>pa_header = Some hdr, pa_prev_kv = map_option (\<lambda>k. kv_to_proto k False) prev\<rparr>, self'))"

definition delete_response ::
  "DeleteRangeRequest \<Rightarrow> Store \<Rightarrow> (panic + DeleteRangeResponse) \<times> Store" where
  "delete_response r self =
     (case delete_range (dr_key r) (dr_range_end r) (dr_prev_kv r) self of
        (res, self') \<Rightarrow>
          (map_sum id (\<lambda>(hdr, deleted, prev_kvs).
             \<lparr>da_header = Some hdr, da_deleted = deleted,
              da_prev_kvs = map (\<lambda>k. kv_to_proto k False) prev_kvs\<rparr>) res, self'))"

text \<open>
  \<open>exec_ops\<close> is the \<open>iter().map(exec_op).collect()\<close> of \<open>txn\<close>: left to right, stopping where an
  operation panics, with the effects of the operations before it kept.
\<close>

function (sequential)
  exec_op :: "RequestOp \<Rightarrow> Store \<Rightarrow> (panic + ResponseOp) \<times> Store"
and exec_ops :: "RequestOp list \<Rightarrow> Store \<Rightarrow> (panic + ResponseOp list) \<times> Store"
and txn :: "TxnRequest \<Rightarrow> Store \<Rightarrow> (panic + (ResponseHeader \<times> bool \<times> ResponseOp list)) \<times> Store"
where
  "exec_op (RequestRange r) self = (map_sum id ResponseRange (range_response r self), self)"
| "exec_op (RequestPut r) self =
     (case put_response r self of (a, self') \<Rightarrow> (Inr (ResponsePut a), self'))"
| "exec_op (RequestDeleteRange r) self =
     (case delete_response r self of
        (a, self') \<Rightarrow> (map_sum id ResponseDeleteRange a, self'))"
| "exec_op (RequestTxn r) self =
     (case txn r self of
        (Inl p, self') \<Rightarrow> (Inl p, self')
      | (Inr (hdr, ok, resp), self') \<Rightarrow>
          (Inr (ResponseTxn (TxnResponse (Some hdr) ok resp)), self'))"
| "exec_op RequestNone self = (Inr ResponseNone, self)"
| "exec_ops [] self = (Inr [], self)"
| "exec_ops (op # ops) self =
     (case exec_op op self of
        (Inl p, self1) \<Rightarrow> (Inl p, self1)
      | (Inr a, self1) \<Rightarrow>
          (case exec_ops ops self1 of
             (Inl p, self2) \<Rightarrow> (Inl p, self2)
           | (Inr as, self2) \<Rightarrow> (Inr (a # as), self2)))"
| "txn (TxnRequest compare success failure) self =
     (let ok = list_all (eval_compare self) compare;
          ops = (if ok then success else failure)
      in case exec_ops ops self of
           (Inl p, self') \<Rightarrow> (Inl p, self')
         | (Inr responses, self') \<Rightarrow> (Inr (header self', ok, responses), self'))"
  by pat_completeness auto
termination
  by (relation "measure (\<lambda>x. case x of
        Inl y \<Rightarrow> size (fst y)
      | Inr (Inl y) \<Rightarrow> size_list size (fst y)
      | Inr (Inr y) \<Rightarrow> size (fst y))") auto

section \<open>Compaction\<close>

definition compact :: "int \<Rightarrow> Store \<Rightarrow> ResponseHeader \<times> Store" where
  "compact compact_rev self =
     (let self' = (if compact_revision self < compact_rev
                   then self\<lparr>compact_revision := compact_rev,
                             log := filter (\<lambda>e. compact_rev < fst e) (log self)\<rparr>
                   else self)
      in (header self', self'))"

section \<open>Leases\<close>

definition nanos_per_sec :: int where
  "nanos_per_sec = 1000000000"

text \<open>
  \<open>Instant + Duration::from_secs(secs)\<close>: an instant holds its seconds in an \<open>i64\<close>, and the
  addition panics when they do not fit.
\<close>

definition instant_add_secs :: "int \<Rightarrow> int \<Rightarrow> panic + int" where
  "instant_add_secs now secs =
     (if i64_max < now div nanos_per_sec + secs then Inl InstantOverflow
      else Inr (now + secs * nanos_per_sec))"

definition lease_grant ::
  "int \<Rightarrow> int \<Rightarrow> int \<Rightarrow> Store \<Rightarrow> (panic + (ResponseHeader \<times> int \<times> int)) \<times> Store" where
  "lease_grant now ttl lid self0 =
     (let (actual_id, self) =
            (if lid = 0
             then (next_lease_id self0,
                   self0\<lparr>next_lease_id := i64_succ (next_lease_id self0)\<rparr>)
             else (lid, self0));
          actual_ttl = max ttl 1
      in case instant_add_secs now actual_ttl of
           Inl p \<Rightarrow> (Inl p, self)
         | Inr deadline \<Rightarrow>
             (let self' = self\<lparr>leases := bt_insert actual_id
                    \<lparr>le_id = actual_id, le_granted_ttl = actual_ttl, le_deadline = deadline,
                     le_keys = []\<rparr> (leases self)\<rparr>
              in (Inr (header self', actual_id, actual_ttl), self')))"

text \<open>The loop of \<open>lease_revoke\<close>: one single-key deletion per attached key.\<close>

fun revoke_loop :: "bytes list \<Rightarrow> Store \<Rightarrow> Store" where
  "revoke_loop [] self = self"
| "revoke_loop (k # ks) self = revoke_loop ks (snd (delete_range k [] False self))"

definition lease_revoke :: "int \<Rightarrow> Store \<Rightarrow> ResponseHeader \<times> Store" where
  "lease_revoke lid self =
     (let self' = (case bt_get (leases self) lid of
                     None \<Rightarrow> self
                   | Some le \<Rightarrow>
                       revoke_loop (le_keys le) (self\<lparr>leases := bt_remove lid (leases self)\<rparr>))
      in (header self', self'))"

definition lease_keepalive ::
  "int \<Rightarrow> int \<Rightarrow> Store \<Rightarrow> (panic + (ResponseHeader \<times> int \<times> int) option) \<times> Store" where
  "lease_keepalive now lid self =
     (case bt_get (leases self) lid of
        None \<Rightarrow> (Inr None, self)
      | Some le \<Rightarrow>
          (case instant_add_secs now (le_granted_ttl le) of
             Inl p \<Rightarrow> (Inl p, self)
           | Inr deadline \<Rightarrow>
               (let self' = self\<lparr>leases :=
                      bt_modify lid (\<lambda>e. e\<lparr>le_deadline := deadline\<rparr>) (leases self)\<rparr>
                in (Inr (Some (header self', lid, le_granted_ttl le)), self'))))"

definition lease_ttl ::
  "int \<Rightarrow> int \<Rightarrow> bool \<Rightarrow> Store \<Rightarrow> (ResponseHeader \<times> int \<times> int \<times> bytes list) option" where
  "lease_ttl now lid want_keys self =
     (case bt_get (leases self) lid of
        None \<Rightarrow> None
      | Some le \<Rightarrow>
          Some (header self, lid, max 0 (le_deadline le - now) div nanos_per_sec,
                if want_keys then le_keys le else []))"

definition lease_list :: "Store \<Rightarrow> int list" where
  "lease_list self = map fst (leases self)"

definition expired_leases :: "int \<Rightarrow> Store \<Rightarrow> int list" where
  "expired_leases now self =
     map le_id (filter (\<lambda>le. le_deadline le \<le> now) (map snd (leases self)))"

section \<open>Watch log\<close>

definition events_since :: "int \<Rightarrow> Store \<Rightarrow> (int \<times> StoredEvent list) list" where
  "events_since start_rev self = filter (\<lambda>e. start_rev < fst e) (log self)"

end
