(* ===== verification/Etcd_Store_Facts.thy ===== *)
theory Etcd_Store_Facts
  imports Etcd_Store
begin

text \<open>
  What each operation of the store does to each field: the functional lemmas every later theory
  rests on. Most are collected in \<open>store_simps\<close>.
\<close>

section \<open>Headers and emission\<close>

lemma header_revision [simp]: "hdr_revision (header s) = revision s"
  by (simp add: header_def header_rev_def)

lemma emit_fields [store_simps, simp]:
  "kvs (emit rv es s) = kvs s" "revision (emit rv es s) = revision s"
  "compact_revision (emit rv es s) = compact_revision s" "leases (emit rv es s) = leases s"
  "next_lease_id (emit rv es s) = next_lease_id s" "kvs_root (emit rv es s) = kvs_root s"
  "log (emit rv es s) = log s @ [(rv, es)]"
  "sent (emit rv es s) = sent s @ [\<lparr>b_revision = rv, b_events = es\<rparr>]"
  by (simp_all add: emit_def)

section \<open>Put\<close>

text \<open>The entry a put stores, and the lease table it leaves.\<close>

definition put_entry :: "bytes \<Rightarrow> bytes \<Rightarrow> int \<Rightarrow> bool \<Rightarrow> bool \<Rightarrow> int \<Rightarrow> Kv option \<Rightarrow> Kv" where
  "put_entry k v lid ignore_value ignore_lease rv prev =
     (case prev of
        None \<Rightarrow> \<lparr>key = k, val = (if ignore_value then [] else v), create_revision = rv,
                 mod_revision = rv, version = 1, lease = (if ignore_lease then 0 else lid)\<rparr>
      | Some p \<Rightarrow> \<lparr>key = k, val = (if ignore_value then val p else v),
                   create_revision = create_revision p, mod_revision = rv,
                   version = i64_succ (version p),
                   lease = (if ignore_lease then lease p else lid)\<rparr>)"

definition put_leases :: "bytes \<Rightarrow> Kv option \<Rightarrow> int \<Rightarrow> (int, LeaseEntry) btree \<Rightarrow> (int, LeaseEntry) btree" where
  "put_leases k prev use_lease ls =
     (let ls1 = (case prev of None \<Rightarrow> ls
                 | Some p \<Rightarrow> if lease p \<noteq> 0 then bt_modify (lease p) (lease_drop_key k) ls else ls)
      in if use_lease \<noteq> 0 then bt_modify use_lease (lease_add_key k) ls1 else ls1)"

definition put_kv :: "bytes \<Rightarrow> bytes \<Rightarrow> int \<Rightarrow> bool \<Rightarrow> bool \<Rightarrow> Store \<Rightarrow> Kv" where
  "put_kv k v lid iv il s = put_entry k v lid iv il (i64_succ (revision s)) (bt_get (kvs s) k)"

definition put_event :: "bytes \<Rightarrow> bytes \<Rightarrow> int \<Rightarrow> bool \<Rightarrow> bool \<Rightarrow> Store \<Rightarrow> StoredEvent" where
  "put_event k v lid iv il s =
     \<lparr>ev_type = 0, ev_kv = put_kv k v lid iv il s, ev_prev_kv = bt_get (kvs s) k\<rparr>"

lemma put_store:
  "snd (put k v lid w iv il s) =
     emit (i64_succ (revision s)) [put_event k v lid iv il s]
       (s\<lparr>revision := i64_succ (revision s),
          leases := put_leases k (bt_get (kvs s) k) (lease (put_kv k v lid iv il s)) (leases s),
          kvs := bt_insert k (put_kv k v lid iv il s) (kvs s), kvs_root := True\<rparr>)"
  by (simp add: put_def put_event_def put_kv_def put_entry_def put_leases_def Let_def
      split: option.split)

lemma put_fields [store_simps]:
  "kvs (snd (put k v lid w iv il s)) = bt_insert k (put_kv k v lid iv il s) (kvs s)"
  "revision (snd (put k v lid w iv il s)) = i64_succ (revision s)"
  "compact_revision (snd (put k v lid w iv il s)) = compact_revision s"
  "next_lease_id (snd (put k v lid w iv il s)) = next_lease_id s"
  "kvs_root (snd (put k v lid w iv il s))"
  "leases (snd (put k v lid w iv il s)) =
     put_leases k (bt_get (kvs s) k) (lease (put_kv k v lid iv il s)) (leases s)"
  "log (snd (put k v lid w iv il s)) =
     log s @ [(i64_succ (revision s), [put_event k v lid iv il s])]"
  "sent (snd (put k v lid w iv il s)) =
     sent s @ [\<lparr>b_revision = i64_succ (revision s), b_events = [put_event k v lid iv il s]\<rparr>]"
  by (simp_all add: put_store)

lemma put_kv_fields [simp]:
  "key (put_kv k v lid iv il s) = k"
  "mod_revision (put_kv k v lid iv il s) = i64_succ (revision s)"
  by (simp_all add: put_kv_def put_entry_def split: option.split)

lemma put_result:
  "fst (put k v lid w iv il s) =
     (header (snd (put k v lid w iv il s)), if w then bt_get (kvs s) k else None)"
  by (simp add: put_def Let_def)

section \<open>Deletion\<close>

text \<open>The keys a deletion covers, as a predicate on keys.\<close>

definition in_range :: "bytes \<Rightarrow> bytes \<Rightarrow> bytes \<Rightarrow> bool" where
  "in_range lo hi k = (if hi = [] then k = lo else if hi = [0] then lo \<le> k else lo \<le> k \<and> k < hi)"

text \<open>An interval the wrong way round panics once the store has held an entry.\<close>

definition inverted :: "bytes \<Rightarrow> bytes \<Rightarrow> bool" where
  "inverted lo hi \<longleftrightarrow> hi \<noteq> [] \<and> hi \<noteq> [0] \<and> hi < lo"

definition range_panics :: "bytes \<Rightarrow> bytes \<Rightarrow> Store \<Rightarrow> bool" where
  "range_panics lo hi s \<longleftrightarrow> kvs_root s \<and> inverted lo hi"

lemma bt_filter_single:
  assumes "bt_inv m"
  shows "filter (\<lambda>e. fst e = k) m = (case bt_get m k of None \<Rightarrow> [] | Some v \<Rightarrow> [(k, v)])"
  using assms
proof (induction m)
  case (Cons e m)
  obtain a b where e: "e = (a, b)" by fastforce
  with Cons.prems have inv: "bt_inv m" and gt: "\<forall>x \<in> set m. a < fst x"
    by (auto simp: bt_inv_def)
  have "filter (\<lambda>x. fst x = a) m = []"
    using gt by (auto intro!: filter_False)
  with e Cons.IH [OF inv] show ?case by auto
qed simp

lemma delete_keys_eq:
  assumes "bt_inv (kvs s)"
  shows "delete_keys s lo hi =
    (if range_panics lo hi s then Inl RangeStartAfterEnd
     else Inr (map fst (filter (\<lambda>e. in_range lo hi (fst e)) (kvs s))))"
  using bt_filter_single [OF assms, of lo]
  by (auto simp: delete_keys_def range_panics_def inverted_def in_range_def bt_range_def bt_range_from_def
      split: option.splits)

lemma range_select_eq:
  assumes "bt_inv (kvs s)"
  shows "range_select s lo hi =
    (if range_panics lo hi s then Inl RangeStartAfterEnd
     else Inr (map snd (filter (\<lambda>e. in_range lo hi (fst e)) (kvs s))))"
  using bt_filter_single [OF assms, of lo]
  by (auto simp: range_select_def range_panics_def inverted_def in_range_def bt_range_def bt_range_from_def
      split: option.splits)

text \<open>One round of the deletion loop: the entry goes, its lease forgets the key.\<close>

definition delete_one :: "bytes \<Rightarrow> Store \<Rightarrow> Store" where
  "delete_one k s =
     (case bt_get (kvs s) k of None \<Rightarrow> s
      | Some old \<Rightarrow> s\<lparr>kvs := bt_remove k (kvs s),
          leases := (if lease old \<noteq> 0 then bt_modify (lease old) (lease_drop_key k) (leases s)
                     else leases s)\<rparr>)"

lemma delete_one_fields [simp]:
  "revision (delete_one k s) = revision s" "compact_revision (delete_one k s) = compact_revision s"
  "log (delete_one k s) = log s" "next_lease_id (delete_one k s) = next_lease_id s"
  "sent (delete_one k s) = sent s" "kvs_root (delete_one k s) = kvs_root s"
  by (simp_all add: delete_one_def split: option.split)

lemma delete_one_get:
  "bt_inv (kvs s) \<Longrightarrow> bt_get (kvs (delete_one k s)) = (bt_get (kvs s))(k := None)"
  by (auto simp: delete_one_def bt_get_remove fun_eq_iff split: option.split)

lemma delete_one_inv: "bt_inv (kvs s) \<Longrightarrow> bt_inv (kvs (delete_one k s))"
  by (auto simp: delete_one_def bt_inv_remove split: option.split)

lemma delete_loop_store:
  "snd (snd (delete_loop rv w ks ps es s)) = fold delete_one ks s"
proof (induction ks arbitrary: ps es s)
  case (Cons k ks)
  have "s\<lparr>kvs := bt_remove k (kvs s)\<rparr> =
      s\<lparr>kvs := bt_remove k (kvs s), leases := leases s\<rparr>" for k by simp
  then show ?case by (simp add: Cons.IH delete_one_def Let_def split: option.split)
qed simp

lemma fold_delete_one_fields [simp]:
  "revision (fold delete_one ks s) = revision s"
  "compact_revision (fold delete_one ks s) = compact_revision s"
  "log (fold delete_one ks s) = log s" "next_lease_id (fold delete_one ks s) = next_lease_id s"
  "sent (fold delete_one ks s) = sent s" "kvs_root (fold delete_one ks s) = kvs_root s"
  by (induction ks arbitrary: s) simp_all

lemma fold_delete_one_inv: "bt_inv (kvs s) \<Longrightarrow> bt_inv (kvs (fold delete_one ks s))"
  by (induction ks arbitrary: s) (simp_all add: delete_one_inv)

lemma fold_delete_one_get:
  "bt_inv (kvs s) \<Longrightarrow>
     bt_get (kvs (fold delete_one ks s)) k = (if k \<in> set ks then None else bt_get (kvs s) k)"
  by (induction ks arbitrary: s) (auto simp: delete_one_inv delete_one_get)

text \<open>The accumulators: one tombstone and one previous entry per key, in order.\<close>

lemma delete_loop_acc:
  assumes "distinct ks" "bt_inv (kvs s)" "\<forall>k \<in> set ks. bt_get (kvs s) k = Some (old k)"
  shows "delete_loop rv w ks ps es s =
    (ps @ (if w then map old ks else []), es @ map (\<lambda>k. tombstone rv k (old k)) ks,
     fold delete_one ks s)"
  using assms
proof (induction ks arbitrary: ps es s)
  case (Cons k ks)
  have st: "s\<lparr>kvs := bt_remove k (kvs s)\<rparr> =
      s\<lparr>kvs := bt_remove k (kvs s), leases := leases s\<rparr>" by simp
  from Cons.prems have "bt_get (kvs s) k = Some (old k)" by simp
  then have "delete_loop rv w (k # ks) ps es s =
      delete_loop rv w ks (if w then ps @ [old k] else ps) (es @ [tombstone rv k (old k)])
        (delete_one k s)"
    using st by (simp add: delete_one_def Let_def)
  also have "\<dots> = (ps @ (if w then map old (k # ks) else []),
      es @ map (\<lambda>k. tombstone rv k (old k)) (k # ks), fold delete_one (k # ks) s)"
    using Cons.prems by (subst Cons.IH) (auto simp: delete_one_inv delete_one_get)
  finally show ?case .
qed simp

text \<open>What a deletion removes, with the entries it removes.\<close>

definition doomed :: "bytes \<Rightarrow> bytes \<Rightarrow> Store \<Rightarrow> (bytes \<times> Kv) list" where
  "doomed lo hi s = filter (\<lambda>e. in_range lo hi (fst e)) (kvs s)"

lemma doomed_get:
  "bt_inv (kvs s) \<Longrightarrow> (k, v) \<in> set (doomed lo hi s) \<longleftrightarrow> bt_get (kvs s) k = Some v \<and> in_range lo hi k"
  by (auto simp: doomed_def bt_mem_get)

lemma doomed_keys:
  assumes "bt_inv (kvs s)"
  shows "distinct (map fst (doomed lo hi s))"
    and "\<forall>k \<in> set (map fst (doomed lo hi s)). bt_get (kvs s) k = Some (the (bt_get (kvs s) k))"
    and "map (\<lambda>k. the (bt_get (kvs s) k)) (map fst (doomed lo hi s)) = map snd (doomed lo hi s)"
proof -
  show "distinct (map fst (doomed lo hi s))"
    using bt_distinct [OF assms] by (simp add: doomed_def distinct_map_filter)
  have get: "bt_get (kvs s) k = Some v" if "(k, v) \<in> set (doomed lo hi s)" for k v
    using that by (simp add: doomed_get assms)
  then show "\<forall>k \<in> set (map fst (doomed lo hi s)). bt_get (kvs s) k = Some (the (bt_get (kvs s) k))"
    by fastforce
  show "map (\<lambda>k. the (bt_get (kvs s) k)) (map fst (doomed lo hi s)) = map snd (doomed lo hi s)"
    using get by (auto simp: o_def)
qed

lemma delete_range_panic:
  "bt_inv (kvs s) \<Longrightarrow> range_panics lo hi s \<Longrightarrow>
     delete_range lo hi w s = (Inl RangeStartAfterEnd, s)"
  by (simp add: delete_range_def delete_keys_eq)

lemma delete_range_none:
  "bt_inv (kvs s) \<Longrightarrow> \<not> range_panics lo hi s \<Longrightarrow> doomed lo hi s = [] \<Longrightarrow>
     delete_range lo hi w s = (Inr (header s, 0, []), s)"
  by (simp add: delete_range_def delete_keys_eq doomed_def)

definition doomed_events :: "bytes \<Rightarrow> bytes \<Rightarrow> Store \<Rightarrow> StoredEvent list" where
  "doomed_events lo hi s =
     map (\<lambda>e. tombstone (i64_succ (revision s)) (fst e) (snd e)) (doomed lo hi s)"

lemma delete_range_some:
  assumes inv: "bt_inv (kvs s)" and ok: "\<not> range_panics lo hi s" and some: "doomed lo hi s \<noteq> []"
  shows "delete_range lo hi w s =
    (Inr (header_rev (i64_succ (revision s)), int (length (doomed lo hi s)),
          if w then map snd (doomed lo hi s) else []),
     emit (i64_succ (revision s)) (doomed_events lo hi s)
       (fold delete_one (map fst (doomed lo hi s)) (s\<lparr>revision := i64_succ (revision s)\<rparr>)))"
proof -
  let ?rv = "i64_succ (revision s)"
  let ?s = "s\<lparr>revision := ?rv\<rparr>"
  let ?ks = "map fst (doomed lo hi s)"
  let ?old = "\<lambda>k. the (bt_get (kvs s) k)"
  have keys: "delete_keys s lo hi = Inr ?ks"
    using inv ok by (simp add: delete_keys_eq doomed_def)
  have "delete_loop ?rv w ?ks [] [] ?s =
      ((if w then map ?old ?ks else []), map (\<lambda>k. tombstone ?rv k (?old k)) ?ks,
       fold delete_one ?ks ?s)"
    using doomed_keys [OF inv, of lo hi] inv by (subst delete_loop_acc [where old = ?old]) simp_all
  moreover have "map (\<lambda>k. tombstone ?rv k (?old k)) ?ks = doomed_events lo hi s"
    using inv by (auto simp: doomed_events_def doomed_get)
  ultimately have loop: "delete_loop ?rv w ?ks [] [] ?s =
      ((if w then map snd (doomed lo hi s) else []), doomed_events lo hi s, fold delete_one ?ks ?s)"
    using doomed_keys(3) [OF inv, of lo hi] by metis
  have "length (doomed_events lo hi s) = length (doomed lo hi s)"
    by (simp add: doomed_events_def)
  with keys some loop show ?thesis
    by (simp add: delete_range_def header_def Let_def)
qed

lemma delete_range_cases:
  obtains (same) "snd (delete_range lo hi w s) = s"
  | (bump) ks evs where "snd (delete_range lo hi w s) =
      emit (i64_succ (revision s)) evs
        (fold delete_one ks (s\<lparr>revision := i64_succ (revision s)\<rparr>))"
proof (cases "delete_keys s lo hi")
  case (Inl p)
  then show ?thesis using same by (simp add: delete_range_def)
next
  case (Inr ks)
  let ?s = "s\<lparr>revision := i64_succ (revision s)\<rparr>"
  obtain ps evs where "delete_loop (i64_succ (revision s)) w ks [] [] ?s = (ps, evs, fold delete_one ks ?s)"
    using delete_loop_store [of "i64_succ (revision s)" w ks "[]" "[]" ?s] by (metis prod.collapse)
  with Inr show ?thesis
    using same bump by (cases "ks = []") (auto simp: delete_range_def Let_def)
qed

section \<open>Transactions\<close>

text \<open>The store a transaction leaves, apart from its responses.\<close>

lemma put_response_store:
  "snd (put_response r s) = snd (put (pr_key r) (pr_value r) (pr_lease r) (pr_prev_kv r)
     (pr_ignore_value r) (pr_ignore_lease r) s)"
  by (simp add: put_response_def split: prod.split)

lemma delete_response_store:
  "snd (delete_response r s) = snd (delete_range (dr_key r) (dr_range_end r) (dr_prev_kv r) s)"
  by (simp add: delete_response_def split: prod.split)

lemma exec_store:
  "snd (exec_op (RequestRange rr) s) = s"
  "snd (exec_op (RequestPut pr) s) = snd (put (pr_key pr) (pr_value pr) (pr_lease pr)
     (pr_prev_kv pr) (pr_ignore_value pr) (pr_ignore_lease pr) s)"
  "snd (exec_op (RequestDeleteRange dr) s) =
     snd (delete_range (dr_key dr) (dr_range_end dr) (dr_prev_kv dr) s)"
  "snd (exec_op (RequestTxn t) s) = snd (txn t s)"
  "snd (exec_op RequestNone s) = s"
  "snd (exec_ops [] s) = s"
  "snd (exec_ops (op # ops) s) =
     (if isl (fst (exec_op op s)) then snd (exec_op op s)
      else snd (exec_ops ops (snd (exec_op op s))))"
  "snd (txn (TxnRequest c a b) s) =
     snd (exec_ops (if list_all (eval_compare s) c then a else b) s)"
  by (auto simp: put_response_store [symmetric] delete_response_store [symmetric] Let_def
      split: prod.split sum.split)

declare exec_op.simps [simp del] exec_ops.simps [simp del] txn.simps [simp del]

section \<open>Revisions\<close>

lemma delete_range_revision:
  "revision (snd (delete_range lo hi w s)) \<in> {revision s, i64_succ (revision s)}"
  by (cases rule: delete_range_cases [of lo hi w s]) simp_all

text \<open>An upper bound on the revisions an operation of a transaction spends.\<close>

function op_cost :: "RequestOp \<Rightarrow> nat" and txn_cost :: "TxnRequest \<Rightarrow> nat" where
  "op_cost (RequestRange r) = 0"
| "op_cost (RequestPut r) = 1"
| "op_cost (RequestDeleteRange r) = 1"
| "op_cost (RequestTxn t) = txn_cost t"
| "op_cost RequestNone = 0"
| "txn_cost (TxnRequest c a b) = max (sum_list (map op_cost a)) (sum_list (map op_cost b))"
  by pat_completeness auto
termination
  by (relation "measure (case_sum size size)")
     (auto simp: less_Suc_eq_le intro: size_list_estimation' trans_le_add1 trans_le_add2)

lemma exec_revision:
  "revision s + int (op_cost op) \<le> i64_max \<longrightarrow>
     revision s \<le> revision (snd (exec_op op s)) \<and>
     revision (snd (exec_op op s)) \<le> revision s + int (op_cost op)"
  "revision s + int (sum_list (map op_cost ops)) \<le> i64_max \<longrightarrow>
     revision s \<le> revision (snd (exec_ops ops s)) \<and>
     revision (snd (exec_ops ops s)) \<le> revision s + int (sum_list (map op_cost ops))"
  "revision s + int (txn_cost t) \<le> i64_max \<longrightarrow>
     revision s \<le> revision (snd (txn t s)) \<and>
     revision (snd (txn t s)) \<le> revision s + int (txn_cost t)"
proof (induction op s and ops s and t s rule: exec_op_exec_ops_txn.induct)
  case (3 r s)
  then show ?case
    using delete_range_revision [of "dr_key r" "dr_range_end r" "dr_prev_kv r" s]
    by (auto simp: exec_store)
next
  case (7 op ops s)
  obtain res s1 where "exec_op op s = (res, s1)" by fastforce
  with 7 show ?case by (cases res) (auto simp: exec_store)
next
  case (8 c a b s)
  from 8 [OF refl refl] show ?case
    by (cases "list_all (eval_compare s) c") (auto simp: exec_store of_nat_max)
qed (auto simp: exec_store store_simps)

end
