(* ===== verification/Etcd_Store_Inv.thy ===== *)
theory Etcd_Store_Inv
  imports Etcd_Store_Facts
begin

text \<open>
  The store's invariant and that every operation keeps it. The history part is the contract the
  watch service depends on: the batches sent are numbered by consecutive revisions, replaying
  them from the empty map gives the current map, and the part of the log above the compaction
  point is the part of the history above it.
\<close>

section \<open>The abstract view: replaying events\<close>

definition apply_event :: "StoredEvent \<Rightarrow> (bytes \<rightharpoonup> Kv) \<Rightarrow> (bytes \<rightharpoonup> Kv)" where
  "apply_event e m =
     (if ev_type e = 0 then m(key (ev_kv e) \<mapsto> ev_kv e) else m(key (ev_kv e) := None))"

definition apply_batch :: "BroadcastBatch \<Rightarrow> (bytes \<rightharpoonup> Kv) \<Rightarrow> (bytes \<rightharpoonup> Kv)" where
  "apply_batch b = fold apply_event (b_events b)"

definition replay :: "BroadcastBatch list \<Rightarrow> (bytes \<rightharpoonup> Kv)" where
  "replay bs = fold apply_batch bs Map.empty"

definition batch_pair :: "BroadcastBatch \<Rightarrow> int \<times> StoredEvent list" where
  "batch_pair b = (b_revision b, b_events b)"

lemma replay_snoc: "replay (bs @ [b]) = apply_batch b (replay bs)"
  by (simp add: replay_def)

lemma apply_tombstone: "apply_event (tombstone rv k old) m = m(k := None)"
  by (simp add: apply_event_def tombstone_def)

lemma apply_tombstones:
  "fold apply_event (map (\<lambda>e. tombstone rv (fst e) (snd e)) es) m k =
     (if k \<in> fst ` set es then None else m k)"
  by (induction es arbitrary: m) (auto simp: apply_tombstone)

section \<open>The invariant\<close>

definition kv_ok :: "Store \<Rightarrow> bool" where
  "kv_ok s \<longleftrightarrow> bt_inv (kvs s) \<and>
     (\<forall>k v. bt_get (kvs s) k = Some v \<longrightarrow>
        key v = k \<and> 2 \<le> create_revision v \<and> create_revision v \<le> mod_revision v
        \<and> mod_revision v \<le> revision s \<and> 1 \<le> version v
        \<and> version v \<le> mod_revision v - create_revision v + 1)"

definition hist_ok :: "Store \<Rightarrow> bool" where
  "hist_ok s \<longleftrightarrow> 1 \<le> revision s \<and> revision s \<le> i64_max
     \<and> map b_revision (sent s) = [2..revision s]
     \<and> (\<forall>b \<in> set (sent s). b_events b \<noteq> []
          \<and> (\<forall>e \<in> set (b_events b). mod_revision (ev_kv e) = b_revision b))
     \<and> filter (\<lambda>e. compact_revision s < fst e) (log s)
         = map batch_pair (filter (\<lambda>b. compact_revision s < b_revision b) (sent s))
     \<and> replay (sent s) = bt_get (kvs s)"

definition lease_ok :: "(bytes, Kv) btree \<Rightarrow> (int, LeaseEntry) btree \<Rightarrow> bool" where
  "lease_ok m ls \<longleftrightarrow> bt_inv ls \<and>
     (\<forall>lid le. bt_get ls lid = Some le \<longrightarrow>
        le_id le = lid \<and> distinct (le_keys le) \<and> 1 \<le> le_granted_ttl le
        \<and> (\<forall>k \<in> set (le_keys le). lid \<noteq> 0 \<and> (\<exists>v. bt_get m k = Some v \<and> lease v = lid)))"

definition store_inv :: "Store \<Rightarrow> bool" where
  "store_inv s \<longleftrightarrow> kv_ok s \<and> hist_ok s \<and> lease_ok (kvs s) (leases s)"

lemma store_inv_bt [simp]: "store_inv s \<Longrightarrow> bt_inv (kvs s)"
  by (simp add: store_inv_def kv_ok_def)

lemma store_inv_new: "store_inv Store_new"
  by (simp add: store_inv_def kv_ok_def hist_ok_def lease_ok_def Store_new_def replay_def
      i64_max_def fun_eq_iff)

lemma kv_ok_mono:
  assumes "kv_ok s" "bt_inv (kvs s')" "revision s \<le> revision s'"
    and "\<And>k v. bt_get (kvs s') k = Some v \<Longrightarrow> bt_get (kvs s) k = Some v"
  shows "kv_ok s'"
  unfolding kv_ok_def
proof (intro conjI allI impI)
  show "bt_inv (kvs s')" by (rule assms(2))
  fix k v
  assume "bt_get (kvs s') k = Some v"
  then have "bt_get (kvs s) k = Some v" by (rule assms(4))
  with assms(1,3) show "key v = k" "2 \<le> create_revision v" "create_revision v \<le> mod_revision v"
    "mod_revision v \<le> revision s'" "1 \<le> version v"
    "version v \<le> mod_revision v - create_revision v + 1"
    unfolding kv_ok_def by (fastforce intro: order_trans)+
qed

section \<open>Put keeps it\<close>

lemma hist_ok_emit:
  assumes "hist_ok s" "revision s < i64_max"
    and fields: "log s' = log s" "sent s' = sent s" "compact_revision s' = compact_revision s"
      "revision s' = i64_succ (revision s)"
    and evs: "evs \<noteq> []" "\<forall>e \<in> set evs. mod_revision (ev_kv e) = i64_succ (revision s)"
    and map: "bt_get (kvs s') = fold apply_event evs (bt_get (kvs s))"
  shows "hist_ok (emit (i64_succ (revision s)) evs s')"
proof -
  have "[2..revision s + 1] = [2..revision s] @ [revision s + 1]"
    using assms(1) by (simp add: hist_ok_def upto_rec2)
  with assms show ?thesis
    by (auto simp: hist_ok_def replay_snoc apply_batch_def batch_pair_def)
qed

lemma put_kv_ok:
  assumes "kv_ok s" "hist_ok s" "revision s < i64_max"
  shows "kv_ok (snd (put k v lid w iv il s))"
proof -
  let ?e = "put_kv k v lid iv il s"
  have new: "2 \<le> create_revision ?e \<and> create_revision ?e \<le> mod_revision ?e \<and>
      mod_revision ?e = revision s + 1 \<and> 1 \<le> version ?e \<and>
      version ?e \<le> mod_revision ?e - create_revision ?e + 1"
  proof (cases "bt_get (kvs s) k")
    case None
    with assms show ?thesis by (simp add: put_kv_def put_entry_def hist_ok_def)
  next
    case (Some p)
    with assms(1) have p: "2 \<le> create_revision p" "create_revision p \<le> mod_revision p"
        "mod_revision p \<le> revision s" "1 \<le> version p"
        "version p \<le> mod_revision p - create_revision p + 1"
      by (auto simp: kv_ok_def)
    with assms(3) have "version p < i64_max" by linarith
    with Some p assms(3) show ?thesis by (simp add: put_kv_def put_entry_def)
  qed
  with assms(1,3) show ?thesis
    by (fastforce simp: kv_ok_def store_simps bt_inv_insert bt_get_insert)
qed

lemma put_hist_ok:
  assumes "hist_ok s" "revision s < i64_max"
  shows "hist_ok (snd (put k v lid w iv il s))"
  unfolding put_store
  by (rule hist_ok_emit [OF assms])
     (simp_all add: put_event_def apply_event_def bt_get_insert)

lemma put_leases_get:
  "bt_get (put_leases k prev ul ls) lid =
     map_option (\<lambda>le. (if lid \<noteq> 0 \<and> ul = lid then lease_add_key k else id)
                  ((if \<exists>p. prev = Some p \<and> lease p = lid \<and> lid \<noteq> 0
                    then lease_drop_key k else id) le)) (bt_get ls lid)"
  by (auto simp: put_leases_def bt_get_modify Let_def option.map_comp o_def
      option.map_ident option.map_id0 split: option.split)

lemma put_lease_ok:
  assumes "lease_ok m ls"
  shows "lease_ok (bt_insert k e m) (put_leases k (bt_get m k) (lease e) ls)"
proof -
  have inv: "bt_inv (put_leases k (bt_get m k) (lease e) ls)"
    using assms by (auto simp: lease_ok_def put_leases_def bt_inv_modify Let_def split: option.split)
  show ?thesis
    unfolding lease_ok_def
  proof (intro conjI allI impI inv)
    fix lid le'
    assume "bt_get (put_leases k (bt_get m k) (lease e) ls) lid = Some le'"
    then obtain le where le: "bt_get ls lid = Some le" and le': "le' =
        (if lid \<noteq> 0 \<and> lease e = lid then lease_add_key k else id)
          ((if \<exists>p. bt_get m k = Some p \<and> lease p = lid \<and> lid \<noteq> 0 then lease_drop_key k else id) le)"
      by (auto simp: put_leases_get)
    with assms have ok: "le_id le = lid" "distinct (le_keys le)" "1 \<le> le_granted_ttl le"
        "\<forall>x \<in> set (le_keys le). lid \<noteq> 0 \<and> (\<exists>v. bt_get m x = Some v \<and> lease v = lid)"
      by (auto simp: lease_ok_def)
    show "le_id le' = lid" "distinct (le_keys le')" "1 \<le> le_granted_ttl le'"
      using ok by (auto simp: le' lease_add_key_def lease_drop_key_def)
    show "\<forall>x \<in> set (le_keys le'). lid \<noteq> 0 \<and> (\<exists>v. bt_get (bt_insert k e m) x = Some v \<and> lease v = lid)"
    proof
      fix x
      assume x: "x \<in> set (le_keys le')"
      show "lid \<noteq> 0 \<and> (\<exists>v. bt_get (bt_insert k e m) x = Some v \<and> lease v = lid)"
        using x ok(4)
        by (cases "x = k")
           (auto simp: le' bt_get_insert lease_add_key_def lease_drop_key_def split: if_splits)
    qed
  qed
qed

lemma put_store_inv [inv_intros]:
  assumes "store_inv s" "revision s < i64_max"
  shows "store_inv (snd (put k v lid w iv il s))"
  using assms put_kv_ok put_hist_ok put_lease_ok
  by (simp add: store_inv_def put_fields(1,6))

section \<open>Deletion keeps it\<close>

lemma delete_one_lease_ok:
  assumes "bt_inv (kvs s)" "lease_ok (kvs s) (leases s)"
  shows "lease_ok (kvs (delete_one k s)) (leases (delete_one k s))"
proof (cases "bt_get (kvs s) k")
  case None
  with assms show ?thesis by (simp add: delete_one_def)
next
  case (Some old)
  let ?ls = "leases (delete_one k s)"
  have inv: "bt_inv ?ls"
    using assms Some by (auto simp: delete_one_def lease_ok_def bt_inv_modify)
  have get: "bt_get ?ls lid = map_option (if lid = lease old \<and> lid \<noteq> 0 then lease_drop_key k else id)
      (bt_get (leases s) lid)" for lid
    using Some by (auto simp: delete_one_def bt_get_modify option.map_id0)
  show ?thesis
    unfolding lease_ok_def delete_one_get [OF assms(1)]
  proof (intro conjI allI impI inv)
    fix lid le'
    assume "bt_get ?ls lid = Some le'"
    then obtain le where le: "bt_get (leases s) lid = Some le"
      and le': "le' = (if lid = lease old \<and> lid \<noteq> 0 then lease_drop_key k else id) le"
      by (auto simp: get)
    with assms have ok: "le_id le = lid" "distinct (le_keys le)" "1 \<le> le_granted_ttl le"
        "\<forall>x \<in> set (le_keys le). lid \<noteq> 0 \<and> (\<exists>v. bt_get (kvs s) x = Some v \<and> lease v = lid)"
      by (auto simp: lease_ok_def)
    then show "le_id le' = lid" "distinct (le_keys le')" "1 \<le> le_granted_ttl le'"
      by (auto simp: le' lease_drop_key_def)
    show "\<forall>x \<in> set (le_keys le'). lid \<noteq> 0 \<and>
        (\<exists>v. ((bt_get (kvs s))(k := None)) x = Some v \<and> lease v = lid)"
      using ok(4) Some by (auto simp: le' lease_drop_key_def split: if_splits)
  qed
qed

lemma fold_delete_one_lease_ok:
  "bt_inv (kvs s) \<Longrightarrow> lease_ok (kvs s) (leases s) \<Longrightarrow>
     lease_ok (kvs (fold delete_one ks s)) (leases (fold delete_one ks s))"
  by (induction ks arbitrary: s) (simp_all add: delete_one_lease_ok delete_one_inv)

lemma doomed_events_apply:
  assumes "bt_inv (kvs s)" "kvs s' = kvs s"
  shows "fold apply_event (doomed_events lo hi s) (bt_get (kvs s)) =
    bt_get (kvs (fold delete_one (map fst (doomed lo hi s)) s'))"
  using assms
  by (auto simp: fun_eq_iff doomed_events_def apply_tombstones fold_delete_one_get)

lemma delete_store_inv [inv_intros]:
  assumes inv: "store_inv s" and room: "revision s < i64_max"
  shows "store_inv (snd (delete_range lo hi w s))"
proof (cases "range_panics lo hi s \<or> doomed lo hi s = []")
  case True
  then have "snd (delete_range lo hi w s) = s"
    using inv by (cases "range_panics lo hi s") (simp_all add: delete_range_panic delete_range_none)
  with inv show ?thesis by simp
next
  case False
  let ?rv = "i64_succ (revision s)"
  let ?s = "fold delete_one (map fst (doomed lo hi s)) (s\<lparr>revision := ?rv\<rparr>)"
  have eq: "snd (delete_range lo hi w s) = emit ?rv (doomed_events lo hi s) ?s"
    using False inv by (simp add: delete_range_some)
  have "kv_ok ?s"
  proof (rule kv_ok_mono [of s])
    show "kv_ok s" using inv by (simp add: store_inv_def)
    show "bt_inv (kvs ?s)" using inv by (simp add: fold_delete_one_inv)
    show "revision s \<le> revision ?s" using room by simp
    show "bt_get (kvs s) k = Some v" if "bt_get (kvs ?s) k = Some v" for k v
      using that inv by (simp add: fold_delete_one_get split: if_splits)
  qed
  moreover have "lease_ok (kvs ?s) (leases ?s)"
    using inv by (intro fold_delete_one_lease_ok) (simp_all add: store_inv_def)
  moreover have "hist_ok (emit ?rv (doomed_events lo hi s) ?s)"
  proof (rule hist_ok_emit)
    show "bt_get (kvs ?s) = fold apply_event (doomed_events lo hi s) (bt_get (kvs s))"
      using inv doomed_events_apply [of s "s\<lparr>revision := ?rv\<rparr>" lo hi] by simp
  qed (use inv room False in \<open>auto simp: store_inv_def doomed_events_def tombstone_def\<close>)
  ultimately show ?thesis
    by (simp add: store_inv_def eq kv_ok_def)
qed

section \<open>Transactions, compaction and leases keep it\<close>

text \<open>
  Every other mutating operation is composed of puts and deletions. What both keep, they keep:
  the contract is a locale, interpreted for the invariant here and for other predicates below.
\<close>

locale mutation_invariant =
  fixes I :: "Store \<Rightarrow> bool"
  assumes put_keeps: "I s \<Longrightarrow> revision s < i64_max \<Longrightarrow> I (snd (put k v lid w iv il s))"
    and delete_keeps: "I s \<Longrightarrow> revision s < i64_max \<Longrightarrow> I (snd (delete_range lo hi w s))"
begin

lemma exec_keeps_all:
  "I s \<longrightarrow> revision s + int (op_cost op) \<le> i64_max \<longrightarrow> I (snd (exec_op op s))"
  "I s \<longrightarrow> revision s + int (sum_list (map op_cost ops)) \<le> i64_max \<longrightarrow> I (snd (exec_ops ops s))"
  "I s \<longrightarrow> revision s + int (txn_cost t) \<le> i64_max \<longrightarrow> I (snd (txn t s))"
proof (induction op s and ops s and t s rule: exec_op_exec_ops_txn.induct)
  case (7 op ops s)
  obtain res s1 where "exec_op op s = (res, s1)" by fastforce
  with 7 exec_revision(1) [of s op] show ?case by (cases res) (auto simp: exec_store)
next
  case (8 c a b s)
  from 8 [OF refl refl] show ?case
    by (cases "list_all (eval_compare s) c") (auto simp: exec_store of_nat_max)
qed (auto simp: exec_store put_keeps delete_keeps)

lemma exec_op_keeps:
  "I s \<Longrightarrow> revision s + int (op_cost op) \<le> i64_max \<Longrightarrow> I (snd (exec_op op s))"
  using exec_keeps_all(1) by blast

lemma txn_keeps: "I s \<Longrightarrow> revision s + int (txn_cost t) \<le> i64_max \<Longrightarrow> I (snd (txn t s))"
  using exec_keeps_all(3) by blast

lemma revoke_loop_keeps:
  "I s \<Longrightarrow> revision s + int (length ks) \<le> i64_max \<Longrightarrow> I (revoke_loop ks s)"
proof (induction ks arbitrary: s)
  case (Cons k ks)
  then show ?case
    using delete_range_revision [of k "[]" False s] by (auto intro!: delete_keeps Cons.IH)
qed simp

end

interpretation inv: mutation_invariant store_inv
  by unfold_locales (rule put_store_inv delete_store_inv, assumption+)+

lemma filter_batch_pair:
  "filter (\<lambda>e. c < fst e) (map batch_pair bs) = map batch_pair (filter (\<lambda>b. c < b_revision b) bs)"
  by (simp add: filter_map o_def batch_pair_def)

text \<open>Above any later point too, the log agrees with the history.\<close>

lemma hist_log_above:
  assumes "hist_ok s" "compact_revision s \<le> c"
  shows "filter (\<lambda>e. c < fst e) (log s) = map batch_pair (filter (\<lambda>b. c < b_revision b) (sent s))"
proof -
  have "filter (\<lambda>e. c < fst e) (log s) =
      filter (\<lambda>e. c < fst e) (filter (\<lambda>e. compact_revision s < fst e) (log s))"
    using assms(2) by (simp add: filter_above_above del: filter_filter)
  also have "\<dots> = map batch_pair (filter (\<lambda>b. c < b_revision b)
      (filter (\<lambda>b. compact_revision s < b_revision b) (sent s)))"
    using assms(1) by (simp add: hist_ok_def filter_batch_pair del: filter_filter)
  finally show ?thesis using assms(2) by (simp add: filter_above_above del: filter_filter)
qed

lemma compact_store_inv [inv_intros]:
  assumes "store_inv s"
  shows "store_inv (snd (compact rv s))"
proof (cases "compact_revision s < rv")
  case True
  with assms have "filter (\<lambda>e. rv < fst e) (log s) =
      map batch_pair (filter (\<lambda>b. rv < b_revision b) (sent s))"
    by (intro hist_log_above) (simp_all add: store_inv_def)
  with assms True show ?thesis
    by (simp add: compact_def Let_def store_inv_def kv_ok_def hist_ok_def filter_batch_pair)
qed (use assms in \<open>simp add: compact_def\<close>)

text \<open>The lease operations change nothing but the lease table and the next lease number.\<close>

lemma store_inv_frame:
  assumes "store_inv s" "lease_ok (kvs s) ls"
  shows "store_inv (s\<lparr>leases := ls\<rparr>)" and "store_inv (s\<lparr>next_lease_id := n\<rparr>)"
  using assms by (simp_all add: store_inv_def kv_ok_def hist_ok_def)

lemma lease_ok_insert:
  "lease_ok m ls \<Longrightarrow> le_id le = lid \<Longrightarrow> 1 \<le> le_granted_ttl le \<Longrightarrow> le_keys le = [] \<Longrightarrow>
     lease_ok m (bt_insert lid le ls)"
  by (auto simp: lease_ok_def bt_inv_insert bt_get_insert)

lemma lease_ok_modify:
  "lease_ok m ls \<Longrightarrow> lease_ok m (bt_modify lid (\<lambda>e. e\<lparr>le_deadline := d\<rparr>) ls)"
  by (fastforce simp: lease_ok_def bt_inv_modify bt_get_modify split: if_splits)

lemma lease_ok_remove: "lease_ok m ls \<Longrightarrow> lease_ok m (bt_remove lid ls)"
  by (auto simp: lease_ok_def bt_inv_remove bt_get_remove split: if_splits)

lemma store_inv_lease_ok: "store_inv s \<Longrightarrow> lease_ok (kvs s) (leases s)"
  by (simp add: store_inv_def)

lemma grant_store_inv [inv_intros]:
  assumes "store_inv s"
  shows "store_inv (snd (lease_grant now ttl lid s))"
proof -
  have "store_inv (s\<lparr>next_lease_id := n\<rparr>)" for n
    using store_inv_frame(2) [OF assms store_inv_lease_ok [OF assms]] .
  then show ?thesis
    using assms
    by (auto simp: lease_grant_def Let_def store_inv_lease_ok
        intro!: store_inv_frame(1) lease_ok_insert split: sum.split dest: store_inv_lease_ok)
qed

lemma keepalive_store_inv [inv_intros]:
  assumes "store_inv s"
  shows "store_inv (snd (lease_keepalive now lid s))"
  using assms
  by (auto simp: lease_keepalive_def Let_def store_inv_lease_ok
      intro!: store_inv_frame(1) lease_ok_modify split: sum.split option.split)

text \<open>Removing a lease from the table, the first step of a revocation.\<close>

lemma drop_lease_store_inv:
  "store_inv s \<Longrightarrow> store_inv (s\<lparr>leases := bt_remove lid (leases s)\<rparr>)"
  by (simp add: store_inv_frame store_inv_lease_ok lease_ok_remove)

definition lease_cost :: "int \<Rightarrow> Store \<Rightarrow> nat" where
  "lease_cost lid s = (case bt_get (leases s) lid of None \<Rightarrow> 0 | Some le \<Rightarrow> length (le_keys le))"

lemma revoke_store_inv [inv_intros]:
  assumes "store_inv s" "revision s + int (lease_cost lid s) \<le> i64_max"
  shows "store_inv (snd (lease_revoke lid s))"
  using assms drop_lease_store_inv
  by (auto simp: lease_revoke_def lease_cost_def Let_def intro!: inv.revoke_loop_keeps
      split: option.split)

end
