(* ===== verification/Etcd_Store_Spec.thy ===== *)
theory Etcd_Store_Spec
  imports Etcd_Store_Inv
begin

text \<open>
  The abstract store: a partial map from keys to entries and a revision counter. The concrete
  operations implement the abstract ones (\<open>store_abs\<close> commutes with each). The reachable states
  of the service and the properties of the store that hold in all of them come after.
\<close>

section \<open>Abstract specification and refinement\<close>

record kv_spec =
  sp_map :: "bytes \<rightharpoonup> Kv"
  sp_rev :: int

definition store_abs :: "Store \<Rightarrow> kv_spec" where
  "store_abs s = \<lparr>sp_map = bt_get (kvs s), sp_rev = revision s\<rparr>"

definition spec_put :: "bytes \<Rightarrow> bytes \<Rightarrow> int \<Rightarrow> kv_spec \<Rightarrow> kv_spec" where
  "spec_put k v lid a =
     (let r = sp_rev a + 1
      in \<lparr>sp_map = (sp_map a)(k \<mapsto>
            (case sp_map a k of
               None \<Rightarrow> \<lparr>key = k, val = v, create_revision = r, mod_revision = r, version = 1,
                        lease = lid\<rparr>
             | Some p \<Rightarrow> p\<lparr>val := v, mod_revision := r, version := version p + 1, lease := lid\<rparr>)),
          sp_rev = r\<rparr>)"

definition spec_delete :: "(bytes \<Rightarrow> bool) \<Rightarrow> kv_spec \<Rightarrow> kv_spec" where
  "spec_delete P a =
     (if \<exists>k \<in> dom (sp_map a). P k
      then \<lparr>sp_map = (\<lambda>k. if P k then None else sp_map a k), sp_rev = sp_rev a + 1\<rparr>
      else a)"

lemma kv_version_room:
  assumes "store_inv s" "bt_get (kvs s) k = Some p"
  shows "version p < i64_max" "key p = k"
proof -
  from assms have "version p \<le> mod_revision p - create_revision p + 1" "2 \<le> create_revision p"
    "mod_revision p \<le> revision s" "revision s \<le> i64_max" "key p = k"
    by (auto simp: store_inv_def kv_ok_def hist_ok_def)
  then show "version p < i64_max" "key p = k" by linarith+
qed

lemma put_abs:
  assumes "store_inv s" "revision s < i64_max"
  shows "store_abs (snd (put k v lid w False False s)) = spec_put k v lid (store_abs s)"
proof (cases "bt_get (kvs s) k")
  case None
  with assms(2) show ?thesis
    by (simp add: store_abs_def spec_put_def store_simps bt_get_insert put_kv_def put_entry_def Let_def)
next
  case (Some p)
  with kv_version_room [OF assms(1) Some] assms(2) show ?thesis
    by (cases p) (simp add: store_abs_def spec_put_def store_simps bt_get_insert put_kv_def put_entry_def Let_def)
qed

lemma doomed_empty_iff:
  assumes "store_inv s"
  shows "doomed lo hi s = [] \<longleftrightarrow> (\<forall>k. in_range lo hi k \<longrightarrow> bt_get (kvs s) k = None)"
proof
  assume empty: "doomed lo hi s = []"
  show "\<forall>k. in_range lo hi k \<longrightarrow> bt_get (kvs s) k = None"
  proof (intro allI impI)
    fix k
    assume "in_range lo hi k"
    then show "bt_get (kvs s) k = None"
      using doomed_get [of s k _ lo hi] assms empty by (cases "bt_get (kvs s) k") auto
  qed
next
  assume none: "\<forall>k. in_range lo hi k \<longrightarrow> bt_get (kvs s) k = None"
  show "doomed lo hi s = []"
  proof (rule ccontr)
    assume "doomed lo hi s \<noteq> []"
    then obtain k v where "(k, v) \<in> set (doomed lo hi s)" by (cases "doomed lo hi s") auto
    with none doomed_get [of s k v lo hi] assms show False by auto
  qed
qed

lemma delete_range_map:
  assumes "store_inv s" "\<not> range_panics lo hi s"
  shows "bt_get (kvs (snd (delete_range lo hi w s))) k =
    (if in_range lo hi k then None else bt_get (kvs s) k)"
proof (cases "doomed lo hi s = []")
  case True
  with assms show ?thesis by (auto simp: delete_range_none doomed_empty_iff)
next
  case False
  have "k \<in> fst ` set (doomed lo hi s) \<longleftrightarrow> in_range lo hi k \<and> bt_get (kvs s) k \<noteq> None"
    using doomed_get [of s k _ lo hi] assms(1) by (force simp: image_iff)
  with False assms show ?thesis by (auto simp: delete_range_some fold_delete_one_get)
qed

lemma delete_abs:
  assumes "store_inv s" "revision s < i64_max" "\<not> range_panics lo hi s"
  shows "store_abs (snd (delete_range lo hi w s)) = spec_delete (in_range lo hi) (store_abs s)"
proof -
  have "revision (snd (delete_range lo hi w s)) =
      (if doomed lo hi s = [] then revision s else revision s + 1)"
    using assms by (auto simp: delete_range_none delete_range_some)
  moreover have "bt_get (kvs (snd (delete_range lo hi w s))) =
      (\<lambda>k. if in_range lo hi k then None else bt_get (kvs s) k)"
    using assms by (simp add: fun_eq_iff delete_range_map)
  moreover have "(\<lambda>k. if in_range lo hi k then None else bt_get (kvs s) k) = bt_get (kvs s)"
    if "doomed lo hi s = []"
    using that assms(1) by (auto simp: fun_eq_iff doomed_empty_iff)
  moreover have "(\<exists>k \<in> dom (bt_get (kvs s)). in_range lo hi k) \<longleftrightarrow> doomed lo hi s \<noteq> []"
    using assms(1) by (auto simp: doomed_empty_iff)
  ultimately show ?thesis
    by (auto simp: store_abs_def spec_delete_def)
qed

section \<open>Reachable stores\<close>

text \<open>
  One rule per mutating RPC, over any arguments and any clock reading. The side condition of each
  rule says that the signed 64-bit revision counter does not run past its last value during the
  operation; every other state is reachable.
\<close>

inductive store_step :: "Store \<Rightarrow> Store \<Rightarrow> bool" where
  step_put: "revision s < i64_max \<Longrightarrow> store_step s (snd (put k v lid w iv il s))"
| step_delete: "revision s < i64_max \<Longrightarrow> store_step s (snd (delete_range lo hi w s))"
| step_txn: "revision s + int (txn_cost t) \<le> i64_max \<Longrightarrow> store_step s (snd (txn t s))"
| step_compact: "store_step s (snd (compact rv s))"
| step_grant: "store_step s (snd (lease_grant now ttl lid s))"
| step_revoke: "revision s + int (lease_cost lid s) \<le> i64_max \<Longrightarrow>
     store_step s (snd (lease_revoke lid s))"
| step_keepalive: "store_step s (snd (lease_keepalive now lid s))"

inductive store_reachable :: "Store \<Rightarrow> bool" where
  reach_new: "store_reachable Store_new"
| reach_step: "store_reachable s \<Longrightarrow> store_step s s' \<Longrightarrow> store_reachable s'"

lemma store_step_inv: "store_step s s' \<Longrightarrow> store_inv s \<Longrightarrow> store_inv s'"
  by (induction rule: store_step.induct)
     (auto intro: inv_intros inv.txn_keeps)

lemma store_reachable_inv: "store_reachable s \<Longrightarrow> store_inv s"
  by (induction rule: store_reachable.induct) (auto intro: store_inv_new store_step_inv)

text \<open>History only grows: every step appends to what was sent.\<close>

definition sent_extends :: "Store \<Rightarrow> Store \<Rightarrow> bool" where
  "sent_extends s s' \<longleftrightarrow> (\<exists>bs. sent s' = sent s @ bs)"

lemma sent_extends_refl [simp]: "sent_extends s s"
  by (simp add: sent_extends_def)

lemma delete_range_sent: "sent_extends s0 s \<Longrightarrow> sent_extends s0 (snd (delete_range lo hi w s))"
  by (cases rule: delete_range_cases [of lo hi w s]) (auto simp: sent_extends_def)

interpretation ext: mutation_invariant "sent_extends s0" for s0
  by unfold_locales (auto simp: sent_extends_def store_simps delete_range_sent
      [unfolded sent_extends_def])

lemma revoke_loop_sent: "sent_extends s0 s \<Longrightarrow> sent_extends s0 (revoke_loop ks s)"
  by (induction ks arbitrary: s) (simp_all add: delete_range_sent)

lemma store_step_sent: "store_step s s' \<Longrightarrow> sent_extends s s'"
proof (induction rule: store_step.induct)
  case (step_put s k v lid w iv il)
  then show ?case by (intro ext.put_keeps) simp_all
next
  case (step_delete s lo hi w)
  then show ?case by (intro ext.delete_keeps) simp_all
next
  case (step_txn s t)
  then show ?case by (intro ext.txn_keeps) simp_all
next
  case (step_revoke s lid)
  have "sent_extends s (revoke_loop ks (s\<lparr>leases := ls\<rparr>))" for ks ls
    by (rule revoke_loop_sent) (simp add: sent_extends_def)
  then show ?case by (simp add: lease_revoke_def Let_def split: option.split)
qed (auto simp: compact_def lease_grant_def lease_keepalive_def Let_def sent_extends_def
      split: sum.split option.split)

section \<open>The history by position\<close>

lemma hist_nth:
  assumes "map b_revision bs = [2..r]" "i < length bs"
  shows "b_revision (bs ! i) = int i + 2"
proof -
  have "length bs = nat (r - 1)" using arg_cong [OF assms(1), of length] by simp
  with assms(2) have "2 + int i \<le> r" by linarith
  have "b_revision (bs ! i) = map b_revision bs ! i" using assms(2) by simp
  also have "\<dots> = 2 + int i" unfolding assms(1) using \<open>2 + int i \<le> r\<close> by (rule nth_upto)
  finally show ?thesis by simp
qed

lemma hist_length:
  assumes "hist_ok s"
  shows "int (length (sent s)) = revision s - 1"
proof -
  from assms have "length (map b_revision (sent s)) = length [2..revision s]" "1 \<le> revision s"
    by (simp_all only: hist_ok_def)
  then show ?thesis by simp
qed

lemma hist_take:
  assumes "map b_revision bs = [2..r]" "b \<in> set (take n bs)"
  shows "b_revision b \<le> int n + 1"
  using assms(2) hist_nth [OF assms(1)] by (auto simp: in_set_conv_nth)

lemma hist_drop:
  assumes "map b_revision bs = [2..r]" "b \<in> set (drop n bs)"
  shows "int n + 2 \<le> b_revision b"
  using assms(2) hist_nth [OF assms(1)] by (auto simp: in_set_conv_nth)

section \<open>Runs\<close>

abbreviation store_steps :: "Store \<Rightarrow> Store \<Rightarrow> bool" where
  "store_steps \<equiv> store_step\<^sup>*\<^sup>*"

lemma store_steps_inv: "store_steps s s' \<Longrightarrow> store_inv s \<Longrightarrow> store_inv s'"
  by (induction rule: rtranclp_induct) (auto intro: store_step_inv)

lemma store_steps_sent: "store_steps s s' \<Longrightarrow> sent_extends s s'"
  by (induction rule: rtranclp_induct) (auto simp: sent_extends_def dest!: store_step_sent)

text \<open>What a run appends to the history lies above the revision it started from.\<close>

lemma store_steps_history:
  assumes "store_inv s" "store_steps s s'"
  obtains bs where "sent s' = sent s @ bs" "\<forall>b \<in> set bs. revision s < b_revision b"
    "\<forall>b \<in> set (sent s). b_revision b \<le> revision s" "replay (sent s') = bt_get (kvs s')"
proof -
  from store_steps_sent [OF assms(2)] obtain bs where bs: "sent s' = sent s @ bs"
    by (auto simp: sent_extends_def)
  have inv': "store_inv s'" using assms by (rule store_steps_inv [rotated])
  from assms(1) have len: "int (length (sent s)) = revision s - 1"
    and hist: "map b_revision (sent s) = [2..revision s]"
    by (auto simp: store_inv_def hist_length hist_ok_def)
  from inv' have hist': "map b_revision (sent s') = [2..revision s']"
    and rep: "replay (sent s') = bt_get (kvs s')"
    by (auto simp: store_inv_def hist_ok_def)
  have "\<forall>b \<in> set bs. revision s < b_revision b"
    using hist_drop [OF hist', of _ "length (sent s)"] len by (fastforce simp: bs)
  moreover have "\<forall>b \<in> set (sent s). b_revision b \<le> revision s"
    using hist_take [OF hist, of _ "length (sent s)"] len by fastforce
  ultimately show thesis using that bs rep by blast
qed

text \<open>An entry of the later map is an entry of the earlier one, or was written in between.\<close>

lemma apply_events_origin:
  "fold apply_event es m k = Some v \<Longrightarrow> m k = Some v \<or> (\<exists>e \<in> set es. ev_kv e = v)"
proof (induction es arbitrary: m)
  case (Cons e es)
  then have "apply_event e m k = Some v \<or> (\<exists>e \<in> set es. ev_kv e = v)" by simp
  then show ?case by (auto simp: apply_event_def split: if_splits)
qed simp

lemma apply_batches_origin:
  "fold apply_batch bs m k = Some v \<Longrightarrow>
     m k = Some v \<or> (\<exists>b \<in> set bs. \<exists>e \<in> set (b_events b). ev_kv e = v)"
proof (induction bs arbitrary: m)
  case (Cons b bs)
  then have "apply_batch b m k = Some v \<or> (\<exists>b \<in> set bs. \<exists>e \<in> set (b_events b). ev_kv e = v)"
    by simp
  then show ?case using apply_events_origin [of "b_events b" m k v] by (auto simp: apply_batch_def)
qed simp

lemma entry_origin:
  assumes "store_inv s" "store_steps s s'" "bt_get (kvs s') k = Some v"
  shows "bt_get (kvs s) k = Some v \<or> revision s < mod_revision v"
proof -
  obtain bs where bs: "sent s' = sent s @ bs" "\<forall>b \<in> set bs. revision s < b_revision b"
    and rep: "replay (sent s') = bt_get (kvs s')"
    using store_steps_history [OF assms(1,2)] by metis
  have base: "replay (sent s) = bt_get (kvs s)" using assms(1) by (simp add: store_inv_def hist_ok_def)
  have "bt_get (kvs s') = fold apply_batch bs (bt_get (kvs s))"
    using base rep bs(1) by (simp add: replay_def)
  with assms(3) have "bt_get (kvs s) k = Some v \<or> (\<exists>b \<in> set bs. \<exists>e \<in> set (b_events b). ev_kv e = v)"
    using apply_batches_origin by metis
  moreover have "mod_revision (ev_kv e) = b_revision b" if "b \<in> set bs" "e \<in> set (b_events b)" for b e
  proof -
    have "store_inv s'" using assms(1,2) by (rule store_steps_inv [rotated])
    with that bs(1) show ?thesis by (auto simp: store_inv_def hist_ok_def)
  qed
  ultimately show ?thesis using bs(2) by auto
qed

end
