(* ===== verification/Etcd_Lease.thy ===== *)
theory Etcd_Lease
  imports Etcd_Store_Spec
begin

text \<open>
  Leases: which keys a revocation deletes, how a deadline is read back, and the background task of
  \<open>etcd-mem/src/lib.rs\<close> that revokes expired leases. The invariant of the store says that every
  key a lease lists carries that lease; \<open>lease_attached\<close> is the converse, which grants can break.
\<close>

section \<open>The expiry task\<close>

text \<open>
  One tick (lines 88-97 of \<open>lib.rs\<close>) takes the lock twice: once to collect the expired leases and
  once to revoke them. Other tasks may run in between, so the two halves are separate operations.
\<close>

definition gc_collect :: "int \<Rightarrow> Store \<Rightarrow> int list" where
  "gc_collect now s = expired_leases now s"

definition gc_revoke :: "int list \<Rightarrow> Store \<Rightarrow> Store" where
  "gc_revoke ids s = fold (\<lambda>lid s. snd (lease_revoke lid s)) ids s"

section \<open>Every key with a live lease is listed by it\<close>

definition lease_attached :: "Store \<Rightarrow> bool" where
  "lease_attached s \<longleftrightarrow>
     (\<forall>k v le. bt_get (kvs s) k = Some v \<and> lease v \<noteq> 0 \<and> bt_get (leases s) (lease v) = Some le
        \<longrightarrow> k \<in> set (le_keys le))"

lemma put_attached:
  assumes "lease_attached s"
  shows "lease_attached (snd (put k v lid w iv il s))"
  unfolding lease_attached_def
proof (intro allI impI)
  fix x e le'
  assume a: "bt_get (kvs (snd (put k v lid w iv il s))) x = Some e \<and> lease e \<noteq> 0 \<and>
    bt_get (leases (snd (put k v lid w iv il s))) (lease e) = Some le'"
  then obtain le where le: "bt_get (leases s) (lease e) = Some le"
    by (auto simp: store_simps put_leases_get)
  show "x \<in> set (le_keys le')"
  proof (cases "x = k")
    case True
    with a show ?thesis
      by (auto simp: store_simps put_leases_get bt_get_insert lease_add_key_def)
  next
    case False
    with a le assms have "x \<in> set (le_keys le)"
      by (auto simp: lease_attached_def store_simps bt_get_insert)
    with False a le show ?thesis
      by (auto simp: store_simps put_leases_get lease_add_key_def lease_drop_key_def)
  qed
qed

lemma delete_one_attached:
  assumes "bt_inv (kvs s)" "lease_attached s"
  shows "lease_attached (delete_one k s)"
proof (cases "bt_get (kvs s) k")
  case (Some old)
  show ?thesis
    unfolding lease_attached_def
  proof (intro allI impI)
    fix x e le'
    assume a: "bt_get (kvs (delete_one k s)) x = Some e \<and> lease e \<noteq> 0 \<and>
      bt_get (leases (delete_one k s)) (lease e) = Some le'"
    with assms(1) have x: "x \<noteq> k" "bt_get (kvs s) x = Some e"
      by (auto simp: delete_one_get split: if_splits)
    from a Some obtain le where le: "bt_get (leases s) (lease e) = Some le"
      and le': "le' = le \<or> le' = lease_drop_key k le"
      by (auto simp: delete_one_def bt_get_modify split: if_splits)
    from x le a assms(2) have "x \<in> set (le_keys le)" by (auto simp: lease_attached_def)
    with x le' show "x \<in> set (le_keys le')" by (auto simp: lease_drop_key_def)
  qed
qed (use assms in \<open>simp add: delete_one_def\<close>)

lemma fold_delete_one_attached:
  "bt_inv (kvs s) \<Longrightarrow> lease_attached s \<Longrightarrow> lease_attached (fold delete_one ks s)"
  by (induction ks arbitrary: s) (simp_all add: delete_one_attached delete_one_inv)

lemma lease_attached_cong:
  "kvs s' = kvs s \<Longrightarrow> leases s' = leases s \<Longrightarrow> lease_attached s' = lease_attached s"
  by (simp add: lease_attached_def)

lemma delete_attached:
  assumes "store_inv s" "lease_attached s"
  shows "lease_attached (snd (delete_range lo hi w s))"
proof (cases rule: delete_range_cases [of lo hi w s])
  case same
  with assms show ?thesis by simp
next
  case (bump ks evs)
  let ?s = "s\<lparr>revision := i64_succ (revision s)\<rparr>"
  have "lease_attached ?s" using assms(2) lease_attached_cong [of ?s s] by simp
  then have "lease_attached (fold delete_one ks ?s)"
    using assms(1) by (intro fold_delete_one_attached) simp_all
  with bump show ?thesis by (simp add: lease_attached_def)
qed

interpretation att: mutation_invariant "\<lambda>s. store_inv s \<and> lease_attached s"
  by unfold_locales (auto intro: inv_intros put_attached delete_attached)

section \<open>Revocation\<close>

lemma delete_key_map:
  assumes "store_inv s"
  shows "bt_get (kvs (snd (delete_range k [] w s))) = (bt_get (kvs s))(k := None)"
proof -
  have "\<not> range_panics k [] s" by (simp add: range_panics_def inverted_def)
  with assms show ?thesis by (auto simp: fun_eq_iff delete_range_map in_range_def)
qed

text \<open>A deletion of keys whose leases are not in the table leaves the table alone.\<close>

lemma delete_key_leases:
  assumes "store_inv s" "\<And>v. bt_get (kvs s) k = Some v \<Longrightarrow> bt_get (leases s) (lease v) = None"
  shows "leases (snd (delete_range k [] w s)) = leases s"
proof (cases "doomed k [] s = []")
  case True
  with assms(1) show ?thesis by (simp add: delete_range_none range_panics_def inverted_def)
next
  case False
  have "doomed k [] s = (case bt_get (kvs s) k of None \<Rightarrow> [] | Some v \<Rightarrow> [(k, v)])"
    using assms(1) by (simp add: doomed_def in_range_def bt_filter_single)
  with False obtain v where v: "bt_get (kvs s) k = Some v" "doomed k [] s = [(k, v)]"
    by (auto split: option.splits)
  with assms False show ?thesis
    by (simp add: delete_range_some range_panics_def inverted_def delete_one_def bt_modify_def)
qed

lemma revoke_loop_map:
  assumes "store_inv s" "revision s + int (length ks) \<le> i64_max"
    and "\<And>k v. k \<in> set ks \<Longrightarrow> bt_get (kvs s) k = Some v \<Longrightarrow> bt_get (leases s) (lease v) = None"
  shows "bt_get (kvs (revoke_loop ks s)) = (\<lambda>k. if k \<in> set ks then None else bt_get (kvs s) k)
    \<and> leases (revoke_loop ks s) = leases s"
  using assms
proof (induction ks arbitrary: s)
  case (Cons k ks)
  let ?s = "snd (delete_range k [] False s)"
  have ls: "leases ?s = leases s" using Cons.prems(1,3) by (intro delete_key_leases) auto
  have map: "bt_get (kvs ?s) = (bt_get (kvs s))(k := None)" using Cons.prems by (simp add: delete_key_map)
  have "bt_get (kvs (revoke_loop ks ?s)) = (\<lambda>k. if k \<in> set ks then None else bt_get (kvs ?s) k)
    \<and> leases (revoke_loop ks ?s) = leases ?s"
  proof (rule Cons.IH)
    show "store_inv ?s" using Cons.prems by (intro delete_store_inv) simp_all
    show "revision ?s + int (length ks) \<le> i64_max"
      using Cons.prems delete_range_revision [of k "[]" False s] by auto
  qed (use Cons.prems ls map in \<open>auto split: if_splits\<close>)
  with ls map show ?case by (auto simp: fun_eq_iff)
qed (simp add: fun_eq_iff)

lemma lease_revoke_map:
  assumes "store_inv s" "revision s + int (lease_cost lid s) \<le> i64_max"
    and le: "bt_get (leases s) lid = Some le"
  shows "bt_get (kvs (snd (lease_revoke lid s))) =
      (\<lambda>k. if k \<in> set (le_keys le) then None else bt_get (kvs s) k)"
    and "leases (snd (lease_revoke lid s)) = bt_remove lid (leases s)"
proof -
  let ?s = "s\<lparr>leases := bt_remove lid (leases s)\<rparr>"
  have ok: "bt_inv (leases s)" "\<forall>k \<in> set (le_keys le). \<exists>v. bt_get (kvs s) k = Some v \<and> lease v = lid"
    using assms by (auto simp: store_inv_def lease_ok_def)
  have "bt_get (kvs (revoke_loop (le_keys le) ?s)) =
      (\<lambda>k. if k \<in> set (le_keys le) then None else bt_get (kvs ?s) k)
    \<and> leases (revoke_loop (le_keys le) ?s) = leases ?s"
    using assms ok
    by (intro revoke_loop_map) (auto simp: drop_lease_store_inv lease_cost_def bt_get_remove)
  with le show "bt_get (kvs (snd (lease_revoke lid s))) =
      (\<lambda>k. if k \<in> set (le_keys le) then None else bt_get (kvs s) k)"
    and "leases (snd (lease_revoke lid s)) = bt_remove lid (leases s)"
    by (simp_all add: lease_revoke_def Let_def fun_eq_iff)
qed

lemma lease_revoke_absent:
  "bt_get (leases s) lid = None \<Longrightarrow> snd (lease_revoke lid s) = s"
  by (simp add: lease_revoke_def)

section \<open>Which steps keep the attachment\<close>

lemma grant_attached:
  assumes "lease_attached s"
    and fresh: "\<forall>k v. bt_get (kvs s) k = Some v \<longrightarrow>
      lease v \<noteq> (if lid = 0 then next_lease_id s else lid)"
  shows "lease_attached (snd (lease_grant now ttl lid s))"
  using assms
  by (auto simp: lease_attached_def lease_grant_def bt_get_insert Let_def
      split: sum.splits if_splits)

lemma keepalive_attached:
  "lease_attached s \<Longrightarrow> lease_attached (snd (lease_keepalive now lid s))"
  by (fastforce simp: lease_attached_def lease_keepalive_def bt_get_modify Let_def
      split: sum.splits option.splits if_splits)

lemma compact_attached: "lease_attached s \<Longrightarrow> lease_attached (snd (compact rv s))"
  by (simp add: lease_attached_def compact_def Let_def)

lemma revoke_attached:
  assumes "store_inv s" "lease_attached s" "revision s + int (lease_cost lid s) \<le> i64_max"
  shows "lease_attached (snd (lease_revoke lid s))"
proof (cases "bt_get (leases s) lid")
  case None
  with assms show ?thesis by (simp add: lease_revoke_absent)
next
  case (Some le)
  have "bt_inv (leases s)" using assms(1) by (simp add: store_inv_def lease_ok_def)
  with assms(2) show ?thesis
    unfolding lease_attached_def lease_revoke_map [OF assms(1,3) Some]
    by (auto simp: bt_get_remove split: if_splits)
qed

section \<open>The expiry task revokes what it collected\<close>

lemma lease_revoke_leases:
  assumes "store_inv s" "revision s + int (lease_cost lid s) \<le> i64_max"
  shows "bt_get (leases (snd (lease_revoke lid s))) x = (if x = lid then None else bt_get (leases s) x)"
proof (cases "bt_get (leases s) lid")
  case None
  then show ?thesis by (simp add: lease_revoke_absent)
next
  case (Some le)
  have "bt_inv (leases s)" using assms(1) by (simp add: store_inv_def lease_ok_def)
  with lease_revoke_map(2) [OF assms Some] show ?thesis by (simp add: bt_get_remove)
qed

lemma expired_leases_mem:
  assumes "store_inv s"
  shows "lid \<in> set (expired_leases now s) \<longleftrightarrow>
    (\<exists>le. bt_get (leases s) lid = Some le \<and> le_deadline le \<le> now)"
proof -
  have inv: "bt_inv (leases s)" and ids: "\<And>x le. bt_get (leases s) x = Some le \<Longrightarrow> le_id le = x"
    using assms by (auto simp: store_inv_def lease_ok_def)
  have mem: "(x, le) \<in> set (leases s) \<longleftrightarrow> bt_get (leases s) x = Some le" for x le
    by (rule bt_mem_get [OF inv])
  show ?thesis
  proof
    assume "lid \<in> set (expired_leases now s)"
    then obtain x le where "(x, le) \<in> set (leases s)" "le_id le = lid" "le_deadline le \<le> now"
      by (auto simp: expired_leases_def)
    with ids mem show "\<exists>le. bt_get (leases s) lid = Some le \<and> le_deadline le \<le> now" by metis
  next
    assume "\<exists>le. bt_get (leases s) lid = Some le \<and> le_deadline le \<le> now"
    then obtain le where "(lid, le) \<in> set (leases s)" "le_id le = lid" "le_deadline le \<le> now"
      using ids mem by metis
    then show "lid \<in> set (expired_leases now s)"
      by (force simp: expired_leases_def)
  qed
qed

end
