(* ===== verification/Etcd_Store_Props.thy ===== *)
theory Etcd_Store_Props
  imports Etcd_Store_Spec
begin

text \<open>
  The properties of the store: what a client of the KV service may rely on in every reachable
  state. The first section holds the lemmas they share.
\<close>

section \<open>Listing\<close>

definition range_at :: "RangeRequest \<Rightarrow> Store \<Rightarrow> int" where
  "range_at r s = (if rr_revision r = 0 then revision s else min (rr_revision r) (revision s))"

definition listed :: "RangeRequest \<Rightarrow> Store \<Rightarrow> (bytes \<times> Kv) list" where
  "listed r s = filter (\<lambda>e. in_range (rr_key r) (rr_range_end r) (fst e)
     \<and> range_keep (range_at r s) r (snd e)) (kvs s)"

lemma range_kvs_listed:
  assumes "bt_inv (kvs s)" "\<not> range_panics (rr_key r) (rr_range_end r) s"
  shows "range_kvs r s =
    (let ks = map snd (listed r s); lim = (if rr_limit r \<le> 0 then usize_max else nat (rr_limit r))
     in Inr (take lim ks, lim < length ks, int (length ks)))"
  using assms
  by (simp add: range_kvs_def range_select_eq listed_def range_at_def Let_def filter_map o_def
      conj_commute)

lemma range_kvs_panic:
  "bt_inv (kvs s) \<Longrightarrow> range_panics (rr_key r) (rr_range_end r) s \<Longrightarrow>
     range_kvs r s = Inl RangeStartAfterEnd"
  by (simp add: range_kvs_def range_select_eq)

lemma listed_sorted: "bt_inv (kvs s) \<Longrightarrow> sorted_wrt (<) (map fst (listed r s))"
  by (simp add: listed_def bt_inv_def sorted_wrt_filter_map)

lemma listed_key:
  "store_inv s \<Longrightarrow> e \<in> set (listed r s) \<Longrightarrow> key (snd e) = fst e"
  by (cases e) (auto simp: listed_def bt_mem_get store_inv_def kv_ok_def)

lemma listed_keys: "store_inv s \<Longrightarrow> map key (map snd (listed r s)) = map fst (listed r s)"
  by (auto simp: listed_key)

lemma listed_length: "length (listed r s) \<le> length (kvs s)"
  by (simp add: listed_def)

text \<open>The least byte string above another one appends a zero byte.\<close>

lemma next_key: "(x @ [0] \<le> y) = (x < (y :: bytes))"
proof (induction x arbitrary: y)
  case Nil
  then show ?case by (cases y) (auto simp: word_gt_0)
next
  case (Cons a x)
  then show ?case by (cases y) auto
qed

lemma sorted_drop_filter:
  assumes "sorted_wrt (<) (map f xs)" "n < length xs"
  shows "drop (Suc n) xs = filter (\<lambda>x. f (xs ! n) < (f x :: 'b::linorder)) xs"
proof -
  have lt: "f (xs ! i) < f (xs ! j)" if "i < j" "j < length xs" for i j
    using assms(1) that by (simp add: sorted_wrt_iff_nth_less)
  have "\<not> f (xs ! n) < f x" if "x \<in> set (take (Suc n) xs)" for x
  proof -
    from that obtain i where "x = xs ! i" "i \<le> n" by (auto simp: in_set_conv_nth less_Suc_eq_le)
    then show ?thesis using lt [of i n] assms(2) by (cases "i = n") auto
  qed
  then have "filter (\<lambda>x. f (xs ! n) < f x) (take (Suc n) xs) = []" by (simp add: filter_empty_conv)
  moreover have "filter (\<lambda>x. f (xs ! n) < f x) (drop (Suc n) xs) = drop (Suc n) xs"
    using lt by (auto simp: filter_id_conv in_set_conv_nth)
  ultimately show ?thesis by (metis append_Nil append_take_drop_id filter_append)
qed

lemma listed_after:
  assumes "in_range (rr_key r) (rr_range_end r) c" "rr_range_end r \<noteq> []"
  shows "listed (r\<lparr>rr_key := c @ [0], rr_limit := l\<rparr>) s = filter (\<lambda>e. c < fst e) (listed r s)"
proof -
  have "in_range (c @ [0]) (rr_range_end r) k \<longleftrightarrow> c < k \<and> in_range (rr_key r) (rr_range_end r) k" for k
    using assms by (auto simp: in_range_def next_key)
  then show ?thesis by (auto simp: listed_def range_at_def range_keep_def intro!: filter_cong)
qed

section \<open>Concrete stores for the witnesses\<close>

definition one_key :: Store where
  "one_key = snd (put [1] [10] 0 False False False Store_new)"

definition three_keys :: Store where
  "three_keys = snd (put [3] [30] 0 False False False (snd (put [2] [20] 0 False False False one_key)))"

lemma room_new: "revision Store_new < i64_max"
  by (simp add: Store_new_def i64_max_def)

lemma one_key_reachable: "store_reachable one_key"
  unfolding one_key_def by (intro reach_step [OF reach_new] step_put room_new)

lemma one_key_eq:
  "one_key = \<lparr>kvs = [([1], \<lparr>key = [1], val = [10], create_revision = 2, mod_revision = 2,
       version = 1, lease = 0\<rparr>)], revision = 2, compact_revision = 0,
     log = [(2, [\<lparr>ev_type = 0, ev_kv = \<lparr>key = [1], val = [10], create_revision = 2,
       mod_revision = 2, version = 1, lease = 0\<rparr>, ev_prev_kv = None\<rparr>])],
     leases = [], next_lease_id = 1,
     sent = [\<lparr>b_revision = 2, b_events = [\<lparr>ev_type = 0, ev_kv = \<lparr>key = [1], val = [10],
       create_revision = 2, mod_revision = 2, version = 1, lease = 0\<rparr>, ev_prev_kv = None\<rparr>]\<rparr>],
     kvs_root = True\<rparr>"
  by (simp add: one_key_def put_def Store_new_def i64_succ_def i64_max_def emit_def bt_empty_def Let_def)

lemma one_key_room: "revision one_key < i64_max"
  by (simp add: one_key_eq i64_max_def)

lemma three_keys_steps: "store_steps one_key three_keys"
proof -
  let ?s = "snd (put [2] [20] 0 False False False one_key)"
  have "store_step one_key ?s" by (intro step_put one_key_room)
  moreover have "store_step ?s three_keys"
    unfolding three_keys_def by (intro step_put) (simp add: store_simps one_key_eq i64_max_def)
  ultimately show ?thesis by simp
qed

lemma reachable_steps: "store_reachable s \<Longrightarrow> store_steps s s' \<Longrightarrow> store_reachable s'"
  by (rotate_tac, induction rule: rtranclp_induct) (auto intro: reach_step)

lemma three_keys_reachable: "store_reachable three_keys"
  using one_key_reachable three_keys_steps by (rule reachable_steps)

lemma three_keys_kvs:
  "kvs three_keys =
     [([1], \<lparr>key = [1], val = [10], create_revision = 2, mod_revision = 2, version = 1, lease = 0\<rparr>),
      ([2], \<lparr>key = [2], val = [20], create_revision = 3, mod_revision = 3, version = 1, lease = 0\<rparr>),
      ([3], \<lparr>key = [3], val = [30], create_revision = 4, mod_revision = 4, version = 1, lease = 0\<rparr>)]"
  and three_keys_revision: "revision three_keys = 4"
  by (simp_all add: three_keys_def put_def one_key_eq i64_succ_def i64_max_def emit_def Let_def)


section \<open>Properties\<close>

text \<open>C3: in every state the service can reach, the store invariant holds: the entries are in
  strict key order with consistent revisions and versions, the broadcast history is numbered
  without gaps and rebuilds the map, the log above the compaction point is that history, and the
  lease table only lists keys that carry the lease.\<close>
theorem reachable_invariant: "store_reachable s \<Longrightarrow> store_inv s"
  by (rule store_reachable_inv)

theorem reachable_invariant_witness: "store_inv one_key"
  using reachable_invariant [OF one_key_reachable] .

text \<open>C4: the history determines the past: replaying the batches up to the revision of an earlier
  state gives exactly the map of that state, whatever ran since.\<close>
theorem history_time_travel:
  assumes "store_reachable s" "store_steps s s'"
  shows "replay (filter (\<lambda>b. b_revision b \<le> revision s) (sent s')) = bt_get (kvs s)"
proof -
  have inv: "store_inv s" using assms(1) by (rule store_reachable_inv)
  obtain bs where "sent s' = sent s @ bs" "\<forall>b \<in> set bs. revision s < b_revision b"
    "\<forall>b \<in> set (sent s). b_revision b \<le> revision s"
    using store_steps_history [OF inv assms(2)] by metis
  then have "filter (\<lambda>b. b_revision b \<le> revision s) (sent s') = sent s"
    by (auto simp: filter_empty_conv)
  with inv show ?thesis by (simp add: store_inv_def hist_ok_def)
qed

theorem history_time_travel_witness:
  "replay (filter (\<lambda>b. b_revision b \<le> revision one_key) (sent three_keys)) = bt_get (kvs one_key)"
  using history_time_travel [OF one_key_reachable three_keys_steps] .

text \<open>C5: a put that ignores neither value nor lease is the abstract put (new value and lease, next revision, version counted from the
  creation), and it answers with the new revision and, when asked, the previous entry.\<close>
theorem put_refines:
  assumes "store_reachable s" "revision s < i64_max"
  shows "store_abs (snd (put k v lid w False False s)) = spec_put k v lid (store_abs s)
    \<and> fst (put k v lid w False False s) =
        (header_rev (revision s + 1), if w then sp_map (store_abs s) k else None)"
  using put_abs [OF store_reachable_inv [OF assms(1)] assms(2)] assms(2)
  by (simp add: put_result header_def store_simps) (simp add: store_abs_def)

theorem put_refines_witness:
  "store_abs (snd (put [1] [11] 0 True False False one_key)) = spec_put [1] [11] 0 (store_abs one_key)
   \<and> fst (put [1] [11] 0 True False False one_key) =
      (header_rev (revision one_key + 1), if True then sp_map (store_abs one_key) [1] else None)"
  using put_refines [OF one_key_reachable one_key_room] .

text \<open>C6: a deletion is the abstract deletion of the keys in the half-open interval (one key for
  an empty end, everything from the key on for the end \<open>[0]\<close>); it spends a revision exactly when it
  deletes something, reports how many keys went and, when asked, their entries in key order.\<close>
theorem delete_refines:
  assumes "store_reachable s" "revision s < i64_max" "\<not> range_panics lo hi s"
  shows "store_abs (snd (delete_range lo hi w s)) = spec_delete (in_range lo hi) (store_abs s)
    \<and> fst (delete_range lo hi w s) =
        Inr (header_rev (sp_rev (spec_delete (in_range lo hi) (store_abs s))),
             int (card {k \<in> dom (sp_map (store_abs s)). in_range lo hi k}),
             if w then map snd (filter (\<lambda>e. in_range lo hi (fst e)) (kvs s)) else [])"
proof -
  have inv: "store_inv s" using assms(1) by (rule store_reachable_inv)
  have abs: "store_abs (snd (delete_range lo hi w s)) = spec_delete (in_range lo hi) (store_abs s)"
    by (rule delete_abs [OF inv assms(2,3)])
  then have rev: "revision (snd (delete_range lo hi w s)) = sp_rev (spec_delete (in_range lo hi) (store_abs s))"
    by (metis kv_spec.select_convs(2) store_abs_def)
  have "{k \<in> dom (bt_get (kvs s)). in_range lo hi k} = set (map fst (doomed lo hi s))"
    using doomed_get [of s] inv by (force simp: image_iff)
  then have card: "card {k \<in> dom (bt_get (kvs s)). in_range lo hi k} = length (doomed lo hi s)"
    using doomed_keys(1) [of s lo hi] inv by (simp add: distinct_card del: set_map)
  show ?thesis
  proof (cases "doomed lo hi s = []")
    case True
    with abs rev card inv assms(3) show ?thesis
      by (simp add: delete_range_none store_abs_def header_def) (simp add: doomed_def)
  next
    case False
    with abs rev card inv assms show ?thesis
      by (simp add: delete_range_some store_abs_def) (simp add: doomed_def)
  qed
qed

theorem delete_refines_witness:
  "store_abs (snd (delete_range [1] [3] True three_keys)) = spec_delete (in_range [1] [3]) (store_abs three_keys)
   \<and> fst (delete_range [1] [3] True three_keys) =
        Inr (header_rev (sp_rev (spec_delete (in_range [1] [3]) (store_abs three_keys))),
             int (card {k \<in> dom (sp_map (store_abs three_keys)). in_range [1] [3] k}),
             if True then map snd (filter (\<lambda>e. in_range [1] [3] (fst e)) (kvs three_keys)) else [])"
  by (rule delete_refines [OF three_keys_reachable])
     (simp_all add: three_keys_revision i64_max_def range_panics_def inverted_def)

text \<open>C7: an unlimited range returns exactly the entries of the interval that pass the revision
  filters, in strict key order, with their number and no continuation flag.\<close>
theorem range_exact:
  assumes "store_reachable s" "\<not> range_panics (rr_key r) (rr_range_end r) s" "rr_limit r \<le> 0"
    and "length (kvs s) \<le> usize_max"
  shows "\<exists>ks. range_kvs r s = Inr (ks, False, int (length ks))
    \<and> sorted_wrt (<) (map key ks)
    \<and> set ks = {v. \<exists>k. bt_get (kvs s) k = Some v \<and> in_range (rr_key r) (rr_range_end r) k
                    \<and> range_keep (range_at r s) r v}"
proof -
  have inv: "store_inv s" using assms(1) by (rule store_reachable_inv)
  let ?ks = "map snd (listed r s)"
  have "length (listed r s) \<le> usize_max" using listed_length assms(4) by (rule order_trans)
  then have "range_kvs r s = Inr (?ks, False, int (length ?ks))"
    using inv assms(2,3) by (simp add: range_kvs_listed Let_def)
  moreover have "sorted_wrt (<) (map key ?ks)"
    using inv listed_sorted [of s r] by (simp only: listed_keys store_inv_bt)
  moreover have "set ?ks = {v. \<exists>k. bt_get (kvs s) k = Some v \<and> in_range (rr_key r) (rr_range_end r) k
      \<and> range_keep (range_at r s) r v}"
    using inv by (auto simp: listed_def bt_mem_get image_iff Bex_def)
  ultimately show ?thesis by blast
qed

definition all_request :: RangeRequest where
  "all_request = \<lparr>rr_key = [0], rr_range_end = [0], rr_limit = 0, rr_revision = 0, rr_sort_order = 0,
     rr_sort_target = 0, rr_serializable = False, rr_keys_only = False, rr_count_only = False,
     rr_min_mod_revision = 0, rr_max_mod_revision = 0, rr_min_create_revision = 0,
     rr_max_create_revision = 0\<rparr>"

theorem range_exact_witness:
  "\<exists>ks. range_kvs all_request three_keys = Inr (ks, False, int (length ks))
    \<and> sorted_wrt (<) (map key ks)
    \<and> set ks = {v. \<exists>k. bt_get (kvs three_keys) k = Some v
         \<and> in_range (rr_key all_request) (rr_range_end all_request) k
         \<and> range_keep (range_at all_request three_keys) all_request v}"
  by (rule range_exact [OF three_keys_reachable])
     (simp_all add: all_request_def range_panics_def inverted_def three_keys_kvs usize_max_def)

text \<open>C8: paging: when a limited range says there is more, the range that starts just above the
  last key returned (that key and a zero byte) returns exactly the entries the first page left out.\<close>
theorem range_pagination:
  assumes "store_reachable s" "rr_range_end r \<noteq> []" "0 < rr_limit r"
    and page: "range_kvs r s = Inr (page, True, cnt)" and "length (kvs s) \<le> usize_max"
  shows "\<exists>rest. rest \<noteq> []
    \<and> range_kvs (r\<lparr>rr_key := key (last page) @ [0], rr_limit := 0\<rparr>) s = Inr (rest, False, int (length rest))
    \<and> range_kvs (r\<lparr>rr_limit := 0\<rparr>) s = Inr (page @ rest, False, cnt)"
proof -
  have inv: "store_inv s" using assms(1) by (rule store_reachable_inv)
  have np: "\<not> range_panics (rr_key r) (rr_range_end r) s"
    using page inv by (auto simp: range_kvs_panic)
  let ?L = "listed r s"
  obtain n where n: "nat (rr_limit r) = Suc n" using assms(3) by (cases "nat (rr_limit r)") auto
  with page assms(3) np inv have p: "page = map snd (take (Suc n) ?L)" and more: "Suc n < length ?L"
    and cnt: "cnt = int (length ?L)"
    by (simp_all add: range_kvs_listed Let_def take_map)
  let ?c = "fst (?L ! n)"
  have "?L ! n \<in> set ?L" using more by simp
  then have c: "key (snd (?L ! n)) = ?c" "in_range (rr_key r) (rr_range_end r) ?c"
    using inv listed_key by (blast, simp add: listed_def)
  have last: "last page = snd (?L ! n)" using more by (simp add: p take_Suc_conv_app_nth)
  have rest: "listed (r\<lparr>rr_key := ?c @ [0], rr_limit := 0\<rparr>) s = drop (Suc n) ?L"
    using listed_after [OF c(2) assms(2)] sorted_drop_filter [OF listed_sorted, of s n r] more inv by simp
  have np2: "\<not> range_panics (?c @ [0]) (rr_range_end r) s"
    using c(2) assms(2) by (auto simp: range_panics_def inverted_def in_range_def next_key simp flip: not_le split: if_splits)
  have all: "listed (r\<lparr>rr_limit := 0\<rparr>) s = ?L"
    by (simp add: listed_def range_at_def range_keep_def)
  have len: "length ?L \<le> usize_max" using listed_length assms(5) by (rule order_trans)
  have "range_kvs (r\<lparr>rr_key := ?c @ [0], rr_limit := 0\<rparr>) s =
      Inr (map snd (drop (Suc n) ?L), False, int (length (map snd (drop (Suc n) ?L))))"
    using inv np2 rest len by (simp add: range_kvs_listed Let_def)
  moreover have "range_kvs (r\<lparr>rr_limit := 0\<rparr>) s = Inr (page @ map snd (drop (Suc n) ?L), False, cnt)"
    using inv np all len cnt
    by (simp add: range_kvs_listed Let_def p) (metis append_take_drop_id map_append)
  ultimately show ?thesis
    using more c(1) last by (intro exI [of _ "map snd (drop (Suc n) ?L)"]) simp
qed

theorem range_pagination_witness:
  "\<exists>page cnt. range_kvs (all_request\<lparr>rr_limit := 2\<rparr>) three_keys = Inr (page, True, cnt)
    \<and> (\<exists>rest. rest \<noteq> []
        \<and> range_kvs (all_request\<lparr>rr_limit := 2, rr_key := key (last page) @ [0], rr_limit := 0\<rparr>) three_keys
            = Inr (rest, False, int (length rest))
        \<and> range_kvs (all_request\<lparr>rr_limit := 2, rr_limit := 0\<rparr>) three_keys = Inr (page @ rest, False, cnt))"
proof -
  have page: "\<exists>page cnt. range_kvs (all_request\<lparr>rr_limit := 2\<rparr>) three_keys = Inr (page, True, cnt)"
    by (simp add: range_kvs_def range_select_def bt_range_from_def all_request_def three_keys_kvs
        three_keys_revision range_keep_def numeral_2_eq_2 Let_def)
  then obtain page cnt where
    "range_kvs (all_request\<lparr>rr_limit := 2\<rparr>) three_keys = Inr (page, True, cnt)" by blast
  with range_pagination [OF three_keys_reachable _ _ this] show ?thesis
    by (simp add: all_request_def three_keys_kvs usize_max_def)
qed

end
