(* ===== verification/Etcd_Lease_Props.thy ===== *)
theory Etcd_Lease_Props
  imports Etcd_Lease Etcd_Store_Props
begin

text \<open>
  The properties of leases: exact revocation, the lifetime of a lease and what a tick of the
  expiry task removes, with the two situations in which the code does less or more than that.
\<close>

section \<open>Runs that do not reuse a lease number\<close>

text \<open>
  A grant replaces the table entry of its number without looking at the keys that carry it. The
  reachable states in which no grant took a number that a key still carries:
\<close>

definition grant_id :: "int \<Rightarrow> Store \<Rightarrow> int" where
  "grant_id lid s = (if lid = 0 then next_lease_id s else lid)"

inductive fresh_reachable :: "Store \<Rightarrow> bool" where
  fresh_new: "fresh_reachable Store_new"
| fresh_put: "fresh_reachable s \<Longrightarrow> revision s < i64_max \<Longrightarrow>
     fresh_reachable (snd (put k v lid w iv il s))"
| fresh_delete: "fresh_reachable s \<Longrightarrow> revision s < i64_max \<Longrightarrow>
     fresh_reachable (snd (delete_range lo hi w s))"
| fresh_txn: "fresh_reachable s \<Longrightarrow> revision s + int (txn_cost t) \<le> i64_max \<Longrightarrow>
     fresh_reachable (snd (txn t s))"
| fresh_compact: "fresh_reachable s \<Longrightarrow> fresh_reachable (snd (compact rv s))"
| fresh_grant: "fresh_reachable s \<Longrightarrow>
     \<forall>k v. bt_get (kvs s) k = Some v \<longrightarrow> lease v \<noteq> grant_id lid s \<Longrightarrow>
     fresh_reachable (snd (lease_grant now ttl lid s))"
| fresh_revoke: "fresh_reachable s \<Longrightarrow> revision s + int (lease_cost lid s) \<le> i64_max \<Longrightarrow>
     fresh_reachable (snd (lease_revoke lid s))"
| fresh_keepalive: "fresh_reachable s \<Longrightarrow> fresh_reachable (snd (lease_keepalive now lid s))"

lemma store_new_attached: "lease_attached Store_new"
  by (simp add: lease_attached_def Store_new_def)

lemma fresh_reachable_inv: "fresh_reachable s \<Longrightarrow> store_inv s \<and> lease_attached s"
proof (induction rule: fresh_reachable.induct)
  case fresh_new
  show ?case by (simp add: store_inv_new store_new_attached)
next
  case (fresh_txn s t)
  then show ?case using att.txn_keeps [of s t] by blast
next
  case (fresh_grant s lid now ttl)
  then show ?case using grant_attached [of s lid now ttl] by (auto intro: inv_intros simp: grant_id_def)
qed (auto intro: inv_intros put_attached delete_attached compact_attached revoke_attached
      keepalive_attached)

section \<open>The expiry task\<close>

lemma lease_cost_revoked:
  assumes "store_inv s" "revision s + int (lease_cost lid s) \<le> i64_max"
  shows "lease_cost x (snd (lease_revoke lid s)) = (if x = lid then 0 else lease_cost x s)"
  using lease_revoke_leases [OF assms] by (simp add: lease_cost_def)

lemma revoke_loop_revision:
  "revision s + int (length ks) \<le> i64_max \<Longrightarrow>
     revision s \<le> revision (revoke_loop ks s) \<and>
     revision (revoke_loop ks s) \<le> revision s + int (length ks)"
proof (induction ks arbitrary: s)
  case (Cons k ks)
  have "revision (snd (delete_range k [] False s)) \<in> {revision s, revision s + 1}"
    using delete_range_revision [of k "[]" False s] Cons.prems by auto
  with Cons.IH [of "snd (delete_range k [] False s)"] Cons.prems show ?case by auto
qed simp

lemma lease_revoke_revision:
  assumes "revision s + int (lease_cost lid s) \<le> i64_max"
  shows "revision (snd (lease_revoke lid s)) \<le> revision s + int (lease_cost lid s)"
proof (cases "bt_get (leases s) lid")
  case (Some le)
  with assms revoke_loop_revision [of "s\<lparr>leases := bt_remove lid (leases s)\<rparr>" "le_keys le"]
  show ?thesis by (simp add: lease_revoke_def lease_cost_def Let_def)
qed (simp add: lease_revoke_def)

definition gc_cost :: "int list \<Rightarrow> Store \<Rightarrow> nat" where
  "gc_cost ids s = sum_list (map (\<lambda>x. lease_cost x s) ids)"

lemma gc_cost_revoked:
  assumes "store_inv s" "revision s + int (lease_cost lid s) \<le> i64_max"
  shows "gc_cost ids (snd (lease_revoke lid s)) \<le> gc_cost ids s"
  unfolding gc_cost_def using lease_cost_revoked [OF assms] by (intro sum_list_mono) simp

text \<open>Revoking a list of leases removes exactly them and the keys they list.\<close>

lemma gc_revoke_listed:
  assumes "store_inv s" "revision s + int (gc_cost ids s) \<le> i64_max"
  shows "bt_get (leases (gc_revoke ids s)) x = (if x \<in> set ids then None else bt_get (leases s) x)
    \<and> bt_get (kvs (gc_revoke ids s)) k =
       (if \<exists>lid \<in> set ids. \<exists>le. bt_get (leases s) lid = Some le \<and> k \<in> set (le_keys le) then None
        else bt_get (kvs s) k)"
  using assms
proof (induction ids arbitrary: s)
  case Nil
  then show ?case by (simp add: gc_revoke_def)
next
  case (Cons lid ids)
  let ?s = "snd (lease_revoke lid s)"
  have cost: "revision s + int (lease_cost lid s) \<le> i64_max" using Cons.prems(2) by (simp add: gc_cost_def)
  have "revision ?s + int (gc_cost ids ?s) \<le> i64_max"
    using Cons.prems lease_revoke_revision [OF cost] gc_cost_revoked [OF Cons.prems(1) cost, of ids]
    by (simp add: gc_cost_def)
  moreover have "store_inv ?s" using Cons.prems(1) cost by (rule revoke_store_inv)
  ultimately have IH: "bt_get (leases (gc_revoke ids ?s)) x =
      (if x \<in> set ids then None else bt_get (leases ?s) x)
    \<and> bt_get (kvs (gc_revoke ids ?s)) k =
       (if \<exists>lid \<in> set ids. \<exists>le. bt_get (leases ?s) lid = Some le \<and> k \<in> set (le_keys le) then None
        else bt_get (kvs ?s) k)"
    by (rule Cons.IH [rotated])
  have ls: "bt_get (leases ?s) y = (if y = lid then None else bt_get (leases s) y)" for y
    by (rule lease_revoke_leases [OF Cons.prems(1) cost])
  have ks: "bt_get (kvs ?s) k =
      (if \<exists>le. bt_get (leases s) lid = Some le \<and> k \<in> set (le_keys le) then None else bt_get (kvs s) k)"
    using lease_revoke_map(1) [OF Cons.prems(1) cost] lease_revoke_absent [of s lid]
    by (cases "bt_get (leases s) lid") auto
  have "gc_revoke (lid # ids) s = gc_revoke ids ?s" by (simp add: gc_revoke_def)
  with IH ls ks show ?case by (auto split: if_splits)
qed

text \<open>A listed key carries the lease; where every key is listed, the keys listed are those that carry it.\<close>

lemma listed_carries:
  assumes "store_inv s" "bt_get (leases s) lid = Some le" "k \<in> set (le_keys le)"
  obtains v where "bt_get (kvs s) k = Some v" "lease v = lid" "lid \<noteq> 0"
  using assms unfolding store_inv_def lease_ok_def by blast

lemma listed_iff:
  assumes "store_inv s" "lease_attached s" "bt_get (leases s) lid = Some le"
  shows "k \<in> set (le_keys le) \<longleftrightarrow> lid \<noteq> 0 \<and> (\<exists>v. bt_get (kvs s) k = Some v \<and> lease v = lid)"
  using assms(2,3) listed_carries [OF assms(1,3)] unfolding lease_attached_def by blast

section \<open>Concrete stores for the witnesses\<close>

definition leased :: Store where
  "leased = snd (put [1] [10] 7 False False False (snd (lease_grant 0 5 7 Store_new)))"

lemma grant_revision: "revision (snd (lease_grant now ttl lid s)) = revision s"
  by (simp add: lease_grant_def Let_def split: sum.split)

lemma leased_fresh: "fresh_reachable leased"
  unfolding leased_def
proof (intro fresh_put fresh_grant fresh_new)
  show "revision (snd (lease_grant 0 5 7 Store_new)) < i64_max" by (simp add: grant_revision room_new)
qed (simp add: Store_new_def)

lemma leased_reachable: "store_reachable leased"
  unfolding leased_def
  by (intro reach_step [OF reach_step [OF reach_new step_grant] step_put]) (simp add: grant_revision room_new)

lemma leased_fields:
  "leases leased = [(7, \<lparr>le_id = 7, le_granted_ttl = 5, le_deadline = 5000000000, le_keys = [[1]]\<rparr>)]"
  "kvs leased = [([1], \<lparr>key = [1], val = [10], create_revision = 2, mod_revision = 2, version = 1,
     lease = 7\<rparr>)]"
  "revision leased = 2"
  by (simp_all add: leased_def put_def lease_grant_def instant_add_secs_def Store_new_def i64_max_def
      nanos_per_sec_def i64_succ_def emit_def bt_empty_def bt_modify_def lease_add_key_def Let_def)

section \<open>Properties\<close>

text \<open>C9: in every reachable store, revoking a lease deletes exactly the keys its entry lists and takes exactly
  that lease off the table; every key it deletes carries the lease. In a run in which no grant takes a number
  that a key still carries, the keys listed are all the keys that carry it (a lease has a number other than 0,
  which stands for none). A grant of such a number forgets them: then keys that carry the lease survive its
  revocation. Enough revisions are left for the deletions.\<close>
theorem revoke_exact:
  assumes "store_reachable s" "revision s + int (lease_cost lid s) \<le> i64_max" "bt_get (leases s) lid = Some le"
  shows "bt_get (kvs (snd (lease_revoke lid s))) k = (if k \<in> set (le_keys le) then None else bt_get (kvs s) k)
    \<and> bt_get (leases (snd (lease_revoke lid s))) x = (if x = lid then None else bt_get (leases s) x)
    \<and> (k \<in> set (le_keys le) \<longrightarrow> (\<exists>v. bt_get (kvs s) k = Some v \<and> lease v = lid))
    \<and> (fresh_reachable s \<and> lid \<noteq> 0 \<and> bt_get (kvs s) k = Some v \<and> lease v = lid \<longrightarrow> k \<in> set (le_keys le))"
proof (intro conjI impI)
  have inv: "store_inv s" using assms(1) by (rule store_reachable_inv)
  show "bt_get (kvs (snd (lease_revoke lid s))) k = (if k \<in> set (le_keys le) then None else bt_get (kvs s) k)"
    by (simp add: lease_revoke_map [OF inv assms(2,3)])
  show "bt_get (leases (snd (lease_revoke lid s))) x = (if x = lid then None else bt_get (leases s) x)"
    by (rule lease_revoke_leases [OF inv assms(2)])
  show "\<exists>v. bt_get (kvs s) k = Some v \<and> lease v = lid" if "k \<in> set (le_keys le)"
    using listed_carries [OF inv assms(3) that] by blast
  assume f: "fresh_reachable s \<and> lid \<noteq> 0 \<and> bt_get (kvs s) k = Some v \<and> lease v = lid"
  then have "lease_attached s" using fresh_reachable_inv by blast
  with f show "k \<in> set (le_keys le)" by (simp add: listed_iff [OF inv _ assms(3)])
qed

theorem revoke_exact_witness:
  "bt_get (kvs (snd (lease_revoke 7 leased))) [1] = None \<and> bt_get (leases (snd (lease_revoke 7 leased))) 7 = None"
  using revoke_exact [OF leased_reachable, of 7 _ "[1]" 7]
  by (simp add: leased_fields lease_cost_def i64_max_def)

text \<open>The lifetime of a lease: granted at \<open>now\<close>, it is listed as expired from \<open>ttl\<close> seconds
  later on (at least one second) and at no earlier instant, and until then the service reports
  the whole seconds that remain.\<close>
theorem lease_lifetime:
  assumes "store_reachable s" "lease_grant now ttl lid s = (Inr (hdr, aid, attl), s')"
  shows "aid = grant_id lid s \<and> attl = max ttl 1
    \<and> (aid \<in> set (expired_leases t s') \<longleftrightarrow> now + attl * nanos_per_sec \<le> t)
    \<and> lease_ttl t aid False s' =
        Some (header s', aid, max 0 (now + attl * nanos_per_sec - t) div nanos_per_sec, [])"
proof -
  have "store_inv s" using assms(1) by (rule store_reachable_inv)
  then have inv: "store_inv s'" using grant_store_inv [of s now ttl lid] assms(2) by simp
  from assms(2) have ids: "aid = grant_id lid s" "attl = max ttl 1"
    and get: "bt_get (leases s') aid = Some \<lparr>le_id = aid, le_granted_ttl = attl,
      le_deadline = now + attl * nanos_per_sec, le_keys = []\<rparr>"
    by (auto simp: lease_grant_def instant_add_secs_def grant_id_def bt_get_insert Let_def
        split: if_splits sum.splits)
  with expired_leases_mem [OF inv] show ?thesis by (simp add: lease_ttl_def)
qed

theorem lease_lifetime_witness:
  "\<exists>hdr s'. lease_grant 0 5 0 one_key = (Inr (hdr, 1, 5), s')
    \<and> (1 \<in> set (expired_leases 4999999999 s') \<longleftrightarrow> 0 + 5 * nanos_per_sec \<le> 4999999999)"
proof -
  obtain hdr s' where g: "lease_grant 0 5 0 one_key = (Inr (hdr, 1, 5), s')"
    by (simp add: lease_grant_def instant_add_secs_def one_key_eq i64_max_def nanos_per_sec_def Let_def)
  from lease_lifetime [OF one_key_reachable g, of 4999999999] g show ?thesis by blast
qed

text \<open>C10: a tick of the expiry task that is not interrupted removes exactly the leases whose deadline has
  passed, in every reachable store, and no key but such as carry one of them. In a run in which no grant takes a
  number that a key still carries, it removes all of these keys (the number 0 stands for no lease). Enough
  revisions are left for the deletions.\<close>
theorem gc_tick_exact:
  assumes "store_reachable s" "revision s + int (gc_cost (gc_collect now s) s) \<le> i64_max"
  shows "bt_get (leases (gc_revoke (gc_collect now s) s)) x =
      (case bt_get (leases s) x of None \<Rightarrow> None
       | Some le \<Rightarrow> if le_deadline le \<le> now then None else Some le)
    \<and> (bt_get (kvs (gc_revoke (gc_collect now s) s)) k = bt_get (kvs s) k
       \<or> bt_get (kvs (gc_revoke (gc_collect now s) s)) k = None
         \<and> (\<exists>v le. bt_get (kvs s) k = Some v \<and> bt_get (leases s) (lease v) = Some le \<and> le_deadline le \<le> now))
    \<and> (fresh_reachable s \<longrightarrow> bt_get (kvs (gc_revoke (gc_collect now s) s)) k =
      (case bt_get (kvs s) k of None \<Rightarrow> None
       | Some v \<Rightarrow> (case bt_get (leases s) (lease v) of
                      Some le \<Rightarrow> if lease v \<noteq> 0 \<and> le_deadline le \<le> now then None else Some v
                    | None \<Rightarrow> Some v)))"
proof (intro conjI impI)
  have inv: "store_inv s" using assms(1) by (rule store_reachable_inv)
  have mem: "y \<in> set (gc_collect now s) \<longleftrightarrow> (\<exists>le. bt_get (leases s) y = Some le \<and> le_deadline le \<le> now)" for y
    by (simp add: gc_collect_def expired_leases_mem [OF inv])
  note run = gc_revoke_listed [OF inv assms(2), of x k]
  show "bt_get (leases (gc_revoke (gc_collect now s) s)) x =
      (case bt_get (leases s) x of None \<Rightarrow> None | Some le \<Rightarrow> if le_deadline le \<le> now then None else Some le)"
    using run by (auto simp: mem split: option.split)
  show "bt_get (kvs (gc_revoke (gc_collect now s) s)) k = bt_get (kvs s) k
      \<or> bt_get (kvs (gc_revoke (gc_collect now s) s)) k = None
        \<and> (\<exists>v le. bt_get (kvs s) k = Some v \<and> bt_get (leases s) (lease v) = Some le \<and> le_deadline le \<le> now)"
    using run by (auto simp: mem elim!: listed_carries [OF inv])
  assume "fresh_reachable s"
  then have "lease_attached s" using fresh_reachable_inv by blast
  with run show "bt_get (kvs (gc_revoke (gc_collect now s) s)) k =
      (case bt_get (kvs s) k of None \<Rightarrow> None
       | Some v \<Rightarrow> (case bt_get (leases s) (lease v) of
                      Some le \<Rightarrow> if lease v \<noteq> 0 \<and> le_deadline le \<le> now then None else Some v
                    | None \<Rightarrow> Some v))"
    by (auto simp: mem listed_iff [OF inv] split: option.split)
qed

theorem gc_tick_exact_witness:
  "bt_get (leases (gc_revoke (gc_collect 5000000000 leased) leased)) 7 = None
    \<and> bt_get (kvs (gc_revoke (gc_collect 5000000000 leased) leased)) [1] = None"
  using gc_tick_exact [OF leased_reachable, of 5000000000 7 "[1]"] leased_fresh
  by (simp add: leased_fields gc_cost_def gc_collect_def expired_leases_def lease_cost_def i64_max_def)

text \<open>C40: the expiry task releases the lock between collecting and revoking. A lease that it collected and
  that is renewed in between, with the client told its full time to live, is revoked all the same together with
  the keys it lists, although its new deadline lies ahead.\<close>
theorem gc_revokes_renewed:
  assumes "store_reachable s" "lid \<in> set (gc_collect now s)"
    and "lease_keepalive t lid s = (Inr (Some (hdr, aid, ttl)), s1)"
    and "revision s1 + int (gc_cost (gc_collect now s) s1) \<le> i64_max"
  shows "aid = lid \<and> 0 < ttl \<and> lid \<notin> set (expired_leases t s1)
    \<and> bt_get (leases (gc_revoke (gc_collect now s) s1)) lid = None
    \<and> (\<forall>le. bt_get (leases s1) lid = Some le \<longrightarrow>
         (\<forall>k \<in> set (le_keys le). bt_get (kvs s1) k \<noteq> None \<and> bt_get (kvs (gc_revoke (gc_collect now s) s1)) k = None))"
proof -
  have inv: "store_inv s" using assms(1) by (rule store_reachable_inv)
  have inv1: "store_inv s1" using keepalive_store_inv [OF inv, of t lid] assms(3) by simp
  from assms(3) obtain le where le: "bt_get (leases s) lid = Some le" "ttl = le_granted_ttl le" "aid = lid"
    and get: "bt_get (leases s1) lid = Some (le\<lparr>le_deadline := t + ttl * nanos_per_sec\<rparr>)"
    by (auto simp: lease_keepalive_def instant_add_secs_def bt_get_modify Let_def
        split: option.splits sum.splits if_splits)
  have ttl: "1 \<le> ttl" using inv le by (auto simp: store_inv_def lease_ok_def)
  then have "\<not> t + ttl * nanos_per_sec \<le> t" by (simp add: nanos_per_sec_def)
  then have "lid \<notin> set (expired_leases t s1)" using expired_leases_mem [OF inv1] get by simp
  moreover note run = gc_revoke_listed [OF inv1 assms(4)]
  moreover have "bt_get (kvs s1) k \<noteq> None" if "bt_get (leases s1) lid = Some e" "k \<in> set (le_keys e)" for e k
    using listed_carries [OF inv1 that] by auto
  ultimately show ?thesis using ttl le(3) assms(2) by auto
qed

theorem gc_revokes_renewed_witness:
  "\<exists>hdr s1. lease_keepalive 5000000000 7 leased = (Inr (Some (hdr, 7, 5)), s1)
    \<and> 7 \<notin> set (expired_leases 5000000000 s1)
    \<and> bt_get (leases (gc_revoke (gc_collect 5000000000 leased) s1)) 7 = None
    \<and> bt_get (kvs s1) [1] \<noteq> None \<and> bt_get (kvs (gc_revoke (gc_collect 5000000000 leased) s1)) [1] = None"
proof -
  define s1 where "s1 = snd (lease_keepalive 5000000000 7 leased)"
  obtain hdr where k: "lease_keepalive 5000000000 7 leased = (Inr (Some (hdr, 7, 5)), s1)"
    by (simp add: s1_def lease_keepalive_def instant_add_secs_def leased_fields i64_max_def nanos_per_sec_def Let_def)
  have f: "leases s1 = [(7, \<lparr>le_id = 7, le_granted_ttl = 5, le_deadline = 10000000000, le_keys = [[1]]\<rparr>)]"
      "revision s1 = 2"
    by (simp_all add: s1_def lease_keepalive_def instant_add_secs_def leased_fields i64_max_def nanos_per_sec_def
        bt_modify_def Let_def)
  have c: "gc_collect 5000000000 leased = [7]" by (simp add: gc_collect_def expired_leases_def leased_fields)
  from gc_revokes_renewed [OF leased_reachable _ k, of 5000000000] k f c show ?thesis
    by (simp add: gc_cost_def lease_cost_def i64_max_def)
qed

text \<open>Granting a lease number that keys still carry forgets them: the new entry lists no key, so
  revoking it (or its expiry) deletes none of them, whatever the old entry listed.\<close>
theorem regrant_orphans_keys:
  assumes "lid \<noteq> 0" "lease_grant now ttl lid s = (Inr (hdr, aid, attl), s')"
  shows "kvs (snd (lease_revoke lid s')) = kvs s"
proof -
  from assms have "bt_get (leases s') lid = Some \<lparr>le_id = lid, le_granted_ttl = attl,
      le_deadline = now + attl * nanos_per_sec, le_keys = []\<rparr>" "kvs s' = kvs s"
    by (auto simp: lease_grant_def instant_add_secs_def bt_get_insert Let_def
        split: if_splits sum.splits)
  then show ?thesis by (simp add: lease_revoke_def Let_def)
qed

theorem regrant_orphans_keys_witness:
  "\<exists>hdr s'. lease_grant 1 5 7 leased = (Inr (hdr, 7, 5), s') \<and> kvs (snd (lease_revoke 7 s')) = kvs leased"
proof -
  obtain hdr s' where g: "lease_grant 1 5 7 leased = (Inr (hdr, 7, 5), s')"
    by (simp add: lease_grant_def instant_add_secs_def leased_fields i64_max_def nanos_per_sec_def Let_def)
  from regrant_orphans_keys [OF _ g] g show ?thesis by auto
qed

end
