(* ===== verification/Etcd_Txn.thy ===== *)
theory Etcd_Txn
  imports Etcd_Store_Props
begin

text \<open>
  Transactions as kube-apiserver uses them: a guard on the modification revision of one key and a
  put or a deletion behind it. The last section states what a transaction is not: neither one
  revision nor atomic when an operation in it panics.
\<close>

section \<open>The guarded write\<close>

definition mod_guard :: "bytes \<Rightarrow> int \<Rightarrow> Compare" where
  "mod_guard k r = \<lparr>c_result = 0, c_target = 2, c_key = k, c_target_union = TModRevision r,
     c_range_end = []\<rparr>"

definition guarded :: "bytes \<Rightarrow> int \<Rightarrow> RequestOp list \<Rightarrow> RequestOp list \<Rightarrow> TxnRequest" where
  "guarded k r yes no = TxnRequest [mod_guard k r] yes no"

text \<open>The modification revision a client sees: 0 for a key that is not there.\<close>

definition mod_of :: "Store \<Rightarrow> bytes \<Rightarrow> int" where
  "mod_of s k = (case bt_get (kvs s) k of None \<Rightarrow> 0 | Some v \<Rightarrow> mod_revision v)"

lemma eval_mod_guard [simp]: "eval_compare s (mod_guard k r) \<longleftrightarrow> mod_of s k = r"
  by (auto simp: eval_compare_def mod_guard_def mod_of_def compare_result_def compare_wanted_def
      cmp_def split: option.split)

lemma guarded_store:
  "snd (txn (guarded k r yes no) s) = snd (exec_ops (if mod_of s k = r then yes else no) s)"
  by (simp add: guarded_def exec_store)

lemma exec_single:
  "exec_ops [op] s = (case exec_op op s of (Inl p, s') \<Rightarrow> (Inl p, s') | (Inr a, s') \<Rightarrow> (Inr [a], s'))"
  by (simp add: exec_ops.simps split: prod.split sum.split)

lemma guarded_put:
  "txn (guarded k r [RequestPut p] no) s =
     (if mod_of s k = r
      then (case put_response p s of (a, s') \<Rightarrow> (Inr (header s', True, [ResponsePut a]), s'))
      else (case exec_ops no s of (Inl e, s') \<Rightarrow> (Inl e, s') | (Inr as, s') \<Rightarrow> (Inr (header s', False, as), s')))"
  by (simp add: guarded_def txn.simps exec_single exec_op.simps Let_def split: prod.split sum.split)

lemma mod_of_le: "store_inv s \<Longrightarrow> mod_of s k \<le> revision s"
  by (fastforce simp: mod_of_def store_inv_def kv_ok_def hist_ok_def split: option.split)

lemma mod_of_put:
  "mod_of (snd (put k v lid w iv il s)) k' = (if k' = k then i64_succ (revision s) else mod_of s k')"
  by (simp add: mod_of_def store_simps bt_get_insert)

lemma mod_of_zero:
  assumes "store_inv s"
  shows "mod_of s k = 0 \<longleftrightarrow> bt_get (kvs s) k = None"
proof (cases "bt_get (kvs s) k")
  case (Some v)
  with assms have "2 \<le> create_revision v" "create_revision v \<le> mod_revision v"
    by (auto simp: store_inv_def kv_ok_def)
  with Some show ?thesis by (simp add: mod_of_def)
qed (simp add: mod_of_def)

lemma put_response_pair:
  obtains a where "put_response p s =
    (a, snd (put (pr_key p) (pr_value p) (pr_lease p) (pr_prev_kv p) (pr_ignore_value p)
       (pr_ignore_lease p) s))"
  using put_response_store [of p s] by (metis prod.collapse)

text \<open>Later states never show an old modification revision again.\<close>

lemma mod_of_later:
  assumes "store_inv s" "store_steps s s'"
  shows "mod_of s' k = 0 \<or> mod_of s' k = mod_of s k \<or> revision s < mod_of s' k"
proof (cases "bt_get (kvs s') k")
  case (Some v)
  with entry_origin [OF assms Some] show ?thesis by (auto simp: mod_of_def)
qed (simp add: mod_of_def)

section \<open>Properties\<close>

definition put_of :: "bytes \<Rightarrow> bytes \<Rightarrow> PutRequest" where
  "put_of k v = \<lparr>pr_key = k, pr_value = v, pr_lease = 0, pr_prev_kv = False,
     pr_ignore_value = False, pr_ignore_lease = False\<rparr>"

text \<open>C2: optimistic concurrency: once a put guarded by the modification revision \<open>r\<close> of its key has
  gone through, no later transaction guarded by the same \<open>r\<close> on that key goes through, whatever ran
  in between, so no update is lost; the late one answers \<open>succeeded = false\<close> and changes nothing.\<close>
theorem guarded_put_wins_once:
  assumes "store_reachable s" "revision s < i64_max" "r \<noteq> 0" "mod_of s (pr_key p) = r"
    and "store_steps (snd (txn (guarded (pr_key p) r [RequestPut p] []) s)) s'"
  shows "txn (guarded (pr_key p) r [RequestPut p'] []) s' = (Inr (header s', False, []), s')"
proof -
  let ?k = "pr_key p"
  let ?s1 = "snd (txn (guarded ?k r [RequestPut p] []) s)"
  have inv: "store_inv s" using assms(1) by (rule store_reachable_inv)
  have s1: "?s1 = snd (put ?k (pr_value p) (pr_lease p) (pr_prev_kv p) (pr_ignore_value p)
      (pr_ignore_lease p) s)"
    using assms(4) by (simp add: guarded_store exec_store)
  have inv1: "store_inv ?s1" unfolding s1 using inv assms(2) by (rule put_store_inv)
  have "r \<le> revision s" using mod_of_le [OF inv] assms(4) by auto
  moreover have "mod_of ?s1 ?k = revision s + 1" "revision ?s1 = revision s + 1"
    using assms(2) by (simp_all add: s1 mod_of_put store_simps)
  ultimately have "mod_of s' ?k \<noteq> r"
    using mod_of_later [OF inv1 assms(5), of ?k] assms(3) by auto
  then show ?thesis by (simp add: guarded_put exec_ops.simps)
qed

theorem guarded_put_wins_once_witness:
  "txn (guarded (pr_key (put_of [1] [7])) 2 [RequestPut (put_of [1] [8])] [])
     (snd (txn (guarded (pr_key (put_of [1] [7])) 2 [RequestPut (put_of [1] [7])] []) one_key))
   = (Inr (header (snd (txn (guarded (pr_key (put_of [1] [7])) 2 [RequestPut (put_of [1] [7])] []) one_key)),
       False, []),
      snd (txn (guarded (pr_key (put_of [1] [7])) 2 [RequestPut (put_of [1] [7])] []) one_key))"
  by (rule guarded_put_wins_once [OF one_key_reachable one_key_room])
     (simp_all add: put_of_def mod_of_def one_key_eq)

text \<open>Creation: a put guarded by revision 0 goes through exactly when the key is absent, and then
  the entry starts a new life: version 1, created and modified at the new revision.\<close>
theorem guarded_create:
  assumes "store_reachable s" "revision s < i64_max"
  shows "(case txn (guarded k 0 [RequestPut (put_of k v)] []) s of
      (Inr (hdr, ok, resp), s') \<Rightarrow>
        (ok \<longleftrightarrow> bt_get (kvs s) k = None)
        \<and> (if ok then bt_get (kvs s') = (bt_get (kvs s))(k \<mapsto>
              \<lparr>key = k, val = v, create_revision = revision s + 1, mod_revision = revision s + 1,
               version = 1, lease = 0\<rparr>) \<and> hdr = header_rev (revision s + 1)
           else s' = s \<and> hdr = header s \<and> resp = [])
    | _ \<Rightarrow> False)"
proof -
  have absent: "mod_of s k = 0 \<longleftrightarrow> bt_get (kvs s) k = None"
    by (rule mod_of_zero [OF store_reachable_inv [OF assms(1)]])
  show ?thesis
  proof (cases "bt_get (kvs s) k")
    case None
    obtain a where "put_response (put_of k v) s = (a, snd (put k v 0 False False False s))"
      using put_response_pair [of "put_of k v" s] by (auto simp: put_of_def)
    with None absent assms(2) show ?thesis
      by (simp add: guarded_put store_simps bt_get_insert put_kv_def put_entry_def header_def)
  next
    case (Some p)
    with absent show ?thesis by (simp add: guarded_put exec_ops.simps)
  qed
qed

theorem guarded_create_witness:
  "case txn (guarded [9] 0 [RequestPut (put_of [9] [90])] []) one_key of
      (Inr (hdr, ok, resp), s') \<Rightarrow>
        (ok \<longleftrightarrow> bt_get (kvs one_key) [9] = None)
        \<and> (if ok then bt_get (kvs s') = (bt_get (kvs one_key))([9] \<mapsto>
              \<lparr>key = [9], val = [90], create_revision = revision one_key + 1,
               mod_revision = revision one_key + 1, version = 1, lease = 0\<rparr>)
              \<and> hdr = header_rev (revision one_key + 1)
           else s' = one_key \<and> hdr = header one_key \<and> resp = [])
    | _ \<Rightarrow> False"
  using guarded_create [OF one_key_reachable one_key_room] .

text \<open>A transaction of puts spends one revision per put and broadcasts one batch per put; the
  header carries the last of them. (The comment at the top of \<open>store.rs\<close> counts it as one.)\<close>
theorem txn_puts_revisions:
  assumes "revision s + int (length ps) \<le> i64_max"
  shows "revision (snd (txn (TxnRequest [] (map RequestPut ps) []) s)) = revision s + int (length ps)
    \<and> length (sent (snd (txn (TxnRequest [] (map RequestPut ps) []) s))) = length (sent s) + length ps"
proof -
  have "revision (snd (exec_ops (map RequestPut ps) s)) = revision s + int (length ps)
    \<and> length (sent (snd (exec_ops (map RequestPut ps) s))) = length (sent s) + length ps"
    using assms
  proof (induction ps arbitrary: s)
    case (Cons p ps)
    have res: "\<not> isl (fst (exec_op (RequestPut p) s))"
      by (simp add: exec_op.simps split: prod.split)
    let ?s = "snd (exec_op (RequestPut p) s)"
    have s: "revision ?s = revision s + 1" "length (sent ?s) = Suc (length (sent s))"
      using Cons.prems by (simp_all add: exec_store store_simps)
    with Cons.IH [of ?s] Cons.prems res show ?case by (simp add: exec_store(7))
  qed (simp add: exec_store)
  then show ?thesis by (simp add: exec_store)
qed

theorem txn_puts_revisions_witness:
  "revision (snd (txn (TxnRequest [] (map RequestPut [put_of [5] [1], put_of [6] [1]]) []) one_key)) = 4"
  using txn_puts_revisions [of one_key "[put_of [5] [1], put_of [6] [1]]"]
  by (simp add: one_key_eq i64_max_def)

text \<open>A transaction is not atomic when an operation panics: a deletion whose end lies before its
  key unwinds the handler, and the put before it stays in the store and in the history.\<close>
theorem txn_panic_keeps_effects:
  assumes "store_reachable s" "revision s < i64_max" "inverted (dr_key d) (dr_range_end d)"
  shows "txn (TxnRequest [] [RequestPut p, RequestDeleteRange d] []) s =
    (Inl RangeStartAfterEnd,
     snd (put (pr_key p) (pr_value p) (pr_lease p) (pr_prev_kv p) (pr_ignore_value p)
       (pr_ignore_lease p) s))"
proof -
  let ?s = "snd (put (pr_key p) (pr_value p) (pr_lease p) (pr_prev_kv p) (pr_ignore_value p)
       (pr_ignore_lease p) s)"
  have "store_inv ?s" using put_store_inv [OF store_reachable_inv [OF assms(1)] assms(2)] .
  moreover have "kvs_root ?s" by (simp add: store_simps)
  ultimately have "delete_range (dr_key d) (dr_range_end d) (dr_prev_kv d) ?s = (Inl RangeStartAfterEnd, ?s)"
    using assms(3) by (simp add: delete_range_panic range_panics_def)
  moreover obtain a where "put_response p s = (a, ?s)" by (rule put_response_pair)
  ultimately show ?thesis
    by (simp add: txn.simps exec_ops.simps exec_op.simps delete_response_def)
qed

theorem txn_panic_keeps_effects_witness:
  "txn (TxnRequest [] [RequestPut (put_of [1] [7]),
       RequestDeleteRange \<lparr>dr_key = [2], dr_range_end = [1], dr_prev_kv = False\<rparr>] []) one_key =
    (Inl RangeStartAfterEnd, snd (put [1] [7] 0 False False False one_key))"
  using txn_panic_keeps_effects [OF one_key_reachable one_key_room,
      of "\<lparr>dr_key = [2], dr_range_end = [1], dr_prev_kv = False\<rparr>" "put_of [1] [7]"]
  by (simp add: inverted_def put_of_def)

end
