(* ===== verification/Rust_Str.thy ===== *)
theory Rust_Str
  imports Kubenyx_Prelude
begin

text \<open>
  The methods of \<open>str\<close> the command-line tools use. A string is its bytes as a \<^typ>\<open>string\<close>; white
  space is ASCII white space (none of the texts handled has any other). Integers are parsed as
  \<open>str::parse\<close> does: an optional sign, then decimal digits only, and no overflow.
\<close>

section \<open>Bytes\<close>

definition bytes_of :: "string \<Rightarrow> bytes" where
  "bytes_of s = map (\<lambda>c. word_of_nat (of_char c)) s"

lemma length_bytes_of [simp]: "length (bytes_of s) = length s"
  by (simp add: bytes_of_def)

lemma unat_byte_of_char: "unat (word_of_nat (of_char c) :: byte) = of_char c"
proof -
  have "of_char c < (256 :: nat)" by simp
  then show ?thesis by (simp add: unat_of_nat)
qed

section \<open>Prefixes and splits\<close>

definition strip_prefix :: "string \<Rightarrow> string \<Rightarrow> string option" where
  "strip_prefix p s = (if take (length p) s = p then Some (drop (length p) s) else None)"

definition starts_with :: "string \<Rightarrow> string \<Rightarrow> bool" where
  "starts_with p s \<longleftrightarrow> take (length p) s = p"

definition ends_with :: "string \<Rightarrow> string \<Rightarrow> bool" where
  "ends_with p s \<longleftrightarrow> starts_with (rev p) (rev s)"

text \<open>The first occurrence of a pattern: what is before it and what is after it.\<close>

fun split_once :: "string \<Rightarrow> string \<Rightarrow> (string \<times> string) option" where
  "split_once p [] = (if p = [] then Some ([], []) else None)"
| "split_once p (c # cs) =
     (case strip_prefix p (c # cs) of
        Some r \<Rightarrow> Some ([], r)
      | None \<Rightarrow> map_option (apfst (Cons c)) (split_once p cs))"

definition contains :: "string \<Rightarrow> string \<Rightarrow> bool" where
  "contains p s \<longleftrightarrow> split_once p s \<noteq> None"

definition rsplit_once :: "char \<Rightarrow> string \<Rightarrow> (string \<times> string) option" where
  "rsplit_once c s =
     (if c \<in> set s
      then Some (rev (tl (dropWhile (\<lambda>x. x \<noteq> c) (rev s))), rev (takeWhile (\<lambda>x. x \<noteq> c) (rev s)))
      else None)"

text \<open>\<open>split(c)\<close> on one character, and \<open>rsplit(c).next()\<close>, its last piece.\<close>

fun split_char :: "char \<Rightarrow> string \<Rightarrow> string list" where
  "split_char c [] = [[]]"
| "split_char c (x # xs) =
     (if x = c then [] # split_char c xs
      else case split_char c xs of [] \<Rightarrow> [[x]] | y # ys \<Rightarrow> (x # y) # ys)"

definition last_piece :: "char \<Rightarrow> string \<Rightarrow> string" where
  "last_piece c s = rev (takeWhile (\<lambda>x. x \<noteq> c) (rev s))"

section \<open>Paths\<close>

text \<open>\<open>Path::join\<close> with a relative or absolute second path.\<close>

definition dir_prefix :: "string \<Rightarrow> string" where
  "dir_prefix d = (if d = [] \<or> last d = CHR ''/'' then d else d @ ''/'')"

definition path_join :: "string \<Rightarrow> string \<Rightarrow> string" where
  "path_join d f = (if f \<noteq> [] \<and> hd f = CHR ''/'' then f else dir_prefix d @ f)"

text \<open>The components by which two paths are compared: empty pieces and \<open>.\<close> are dropped, a leading \<open>.\<close> apart.\<close>

definition path_components :: "string \<Rightarrow> string list" where
  "path_components p =
     (let ps = split_char (CHR ''/'') p; keep = filter (\<lambda>c. c \<noteq> [] \<and> c \<noteq> ''.'')
      in if starts_with ''/'' p then ''/'' # keep ps
         else (if ps \<noteq> [] \<and> hd ps = ''.'' then [''.''] else []) @ keep ps)"

section \<open>White space and lines\<close>

definition is_ws :: "char \<Rightarrow> bool" where
  "is_ws c \<longleftrightarrow> c \<in> {CHR 0x09, CHR 0x0A, CHR 0x0B, CHR 0x0C, CHR 0x0D, CHR 0x20}"

definition trim_start :: "string \<Rightarrow> string" where
  "trim_start s = dropWhile is_ws s"

definition trim_end :: "string \<Rightarrow> string" where
  "trim_end s = rev (dropWhile is_ws (rev s))"

definition trim :: "string \<Rightarrow> string" where
  "trim s = trim_end (trim_start s)"

definition trim_start_matches :: "char \<Rightarrow> string \<Rightarrow> string" where
  "trim_start_matches c s = dropWhile (\<lambda>x. x = c) s"

definition trim_end_matches :: "char \<Rightarrow> string \<Rightarrow> string" where
  "trim_end_matches c s = rev (dropWhile (\<lambda>x. x = c) (rev s))"

definition strip_cr :: "string \<Rightarrow> string" where
  "strip_cr l = (if l \<noteq> [] \<and> last l = CHR 0x0D then butlast l else l)"

text \<open>
  \<open>lines()\<close>: split at line feeds, a carriage return before one goes with it, and there is no line
  after a final line feed.
\<close>

function str_lines :: "string \<Rightarrow> string list" where
  "str_lines s =
     (if s = [] then []
      else case dropWhile (\<lambda>c. c \<noteq> CHR 0x0A) s of
             [] \<Rightarrow> [s]
           | _ # r \<Rightarrow> strip_cr (takeWhile (\<lambda>c. c \<noteq> CHR 0x0A) s) # str_lines r)"
  by pat_completeness auto
termination
proof (relation "measure length")
  fix s x and r :: string
  assume "dropWhile (\<lambda>c. c \<noteq> CHR 0x0A) s = x # r"
  then have "length r < length (dropWhile (\<lambda>c. c \<noteq> CHR 0x0A) s)" by simp
  also have "\<dots> \<le> length s" by (rule length_dropWhile_le)
  finally show "(r, s) \<in> measure length" by simp
qed simp

declare str_lines.simps [simp del]

text \<open>\<open>split_whitespace()\<close>.\<close>

function words_of :: "string \<Rightarrow> string list" where
  "words_of s =
     (let t = trim_start s
      in if t = [] then []
         else takeWhile (\<lambda>c. \<not> is_ws c) t # words_of (dropWhile (\<lambda>c. \<not> is_ws c) t))"
  by pat_completeness auto
termination
proof (relation "measure length")
  fix s :: string and t
  assume t: "t = trim_start s" "t \<noteq> []"
  then have "\<not> is_ws (hd t)" unfolding trim_start_def by (metis hd_dropWhile)
  with t(2) have "length (dropWhile (\<lambda>c. \<not> is_ws c) t) < length t"
    by (cases t) (auto simp: le_imp_less_Suc length_dropWhile_le)
  also have "length t \<le> length s" unfolding t(1) trim_start_def by (rule length_dropWhile_le)
  finally show "(dropWhile (\<lambda>c. \<not> is_ws c) t, s) \<in> measure length" by simp
qed simp

declare words_of.simps [simp del]

definition join :: "string \<Rightarrow> string list \<Rightarrow> string" where
  "join sep ws = (case ws of [] \<Rightarrow> [] | w # r \<Rightarrow> w @ concat (map (\<lambda>x. sep @ x) r))"

section \<open>Integers\<close>

definition digit_of :: "char \<Rightarrow> nat option" where
  "digit_of c = (let n = of_char c :: nat in if 48 \<le> n \<and> n \<le> 57 then Some (n - 48) else None)"

fun parse_digits :: "nat \<Rightarrow> string \<Rightarrow> nat option" where
  "parse_digits acc [] = Some acc"
| "parse_digits acc (c # cs) =
     (case digit_of c of None \<Rightarrow> None | Some d \<Rightarrow> parse_digits (10 * acc + d) cs)"

text \<open>\<open>parse::<u32>()\<close> and \<open>parse::<u64>()\<close>, by the number of bits.\<close>

definition parse_unsigned :: "nat \<Rightarrow> string \<Rightarrow> nat option" where
  "parse_unsigned bits s =
     (let ds = (case s of [] \<Rightarrow> [] | c # cs \<Rightarrow> if c = CHR ''+'' then cs else s)
      in if ds = [] then None
         else case parse_digits 0 ds of
                None \<Rightarrow> None
              | Some n \<Rightarrow> if n < 2 ^ bits then Some n else None)"

definition parse_i64 :: "string \<Rightarrow> int option" where
  "parse_i64 s =
     (case s of
        [] \<Rightarrow> None
      | c # cs \<Rightarrow>
          if c = CHR ''-'' then
            (if cs = [] then None
             else case parse_digits 0 cs of
                    None \<Rightarrow> None
                  | Some n \<Rightarrow> if int n \<le> - i64_min then Some (- int n) else None)
          else
            (let ds = (if c = CHR ''+'' then cs else s)
             in if ds = [] then None
                else case parse_digits 0 ds of
                       None \<Rightarrow> None
                     | Some n \<Rightarrow> if int n \<le> i64_max then Some (int n) else None))"

text \<open>\<open>to_string()\<close> of an unsigned integer, and its lower-case hexadecimal digits.\<close>

definition digit_char :: "nat \<Rightarrow> char" where
  "digit_char d = (if d < 10 then char_of (48 + d) else char_of (87 + d))"

function show_base :: "nat \<Rightarrow> nat \<Rightarrow> string" where
  "show_base b n = (if b < 2 \<or> n < b then [digit_char n]
                    else show_base b (n div b) @ [digit_char (n mod b)])"
  by pat_completeness auto
termination by (relation "measure snd") (auto intro: div_less_dividend)

declare show_base.simps [simp del]

definition show_nat :: "nat \<Rightarrow> string" where
  "show_nat n = show_base 10 n"

section \<open>Lemmas\<close>

lemma strip_prefix_append [simp]: "strip_prefix p (p @ s) = Some s"
  by (simp add: strip_prefix_def)

lemma strip_prefix_Some: "strip_prefix p s = Some r \<longleftrightarrow> s = p @ r"
  by (auto simp: strip_prefix_def) (metis append_take_drop_id)

lemma strip_prefix_single: "strip_prefix [c] (x # xs) = (if x = c then Some xs else None)"
  by (simp add: strip_prefix_def)

lemma split_once_char:
  "c \<notin> set a \<Longrightarrow> split_once [c] (a @ c # b) = Some (a, b)"
  by (induction a) (auto simp: strip_prefix_single)

lemma split_once_none: "c \<notin> set a \<Longrightarrow> split_once [c] a = None"
  by (induction a) (auto simp: strip_prefix_single)

lemma split_once_Some: "split_once p s = Some (a, b) \<Longrightarrow> s = a @ p @ b"
  by (induction p s arbitrary: a b rule: split_once.induct)
     (auto split: if_splits option.splits simp: strip_prefix_Some)

lemma str_lines_Nil [simp]: "str_lines [] = []"
  by (simp add: str_lines.simps)

lemma str_lines_line:
  assumes "CHR 0x0A \<notin> set l"
  shows "str_lines (l @ CHR 0x0A # r) = strip_cr l # str_lines r"
proof -
  have "dropWhile (\<lambda>c. c \<noteq> CHR 0x0A) (l @ CHR 0x0A # r) = CHR 0x0A # r"
    "takeWhile (\<lambda>c. c \<noteq> CHR 0x0A) (l @ CHR 0x0A # r) = l"
    using assms by (induction l) auto
  then show ?thesis by (subst str_lines.simps) simp
qed

lemma trim_end_id: "s = [] \<or> \<not> is_ws (last s) \<Longrightarrow> trim_end s = s"
  by (cases s rule: rev_cases) (auto simp: trim_end_def)

lemma trim_start_id: "s = [] \<or> \<not> is_ws (hd s) \<Longrightarrow> trim_start s = s"
  by (cases s) (auto simp: trim_start_def)

lemma digit_of_digit_char: "d < 10 \<Longrightarrow> digit_of (digit_char d) = Some d"
  by (simp add: digit_of_def digit_char_def Let_def)

lemma parse_digits_append:
  "parse_digits acc (a @ b) = (case parse_digits acc a of None \<Rightarrow> None | Some n \<Rightarrow> parse_digits n b)"
  by (induction acc a rule: parse_digits.induct) (auto split: option.split)

lemma parse_show_nat: "parse_digits 0 (show_base 10 n) = Some n"
proof (induction n rule: less_induct)
  case (less n)
  then show ?case
    by (subst show_base.simps) (simp add: parse_digits_append digit_of_digit_char)
qed

lemma show_base_nonempty: "show_base b n \<noteq> []"
  by (subst show_base.simps) simp

lemma show_nat_digits: "c \<in> set (show_base 10 n) \<Longrightarrow> \<exists>d < 10. c = digit_char d"
proof (induction n rule: less_induct)
  case (less n)
  show ?case
  proof (cases "n < 10")
    case True
    with less.prems show ?thesis by (subst (asm) show_base.simps) auto
  next
    case False
    with less.prems have "c \<in> set (show_base 10 (n div 10)) \<or> c = digit_char (n mod 10)"
      by (subst (asm) show_base.simps) auto
    with less.IH [of "n div 10"] False show ?thesis by (metis div_less_dividend gr_zeroI
        less_numeral_extra(3) mod_less_divisor nat_less_le not_less one_less_numeral_iff
        semiring_norm(76) zero_less_numeral)
  qed
qed

lemma digit_char_code: "d < 10 \<Longrightarrow> (of_char (digit_char d) :: nat) = 48 + d"
  by (simp add: digit_char_def)

lemma digit_char_not:
  assumes "d < 10"
  shows "digit_char d \<noteq> CHR ''+'' \<and> \<not> is_ws (digit_char d)"
proof -
  have "(of_char (CHR ''+'') :: nat) < 48" and "is_ws c \<Longrightarrow> (of_char c :: nat) < 48" for c
    by (auto simp: is_ws_def)
  then show ?thesis using digit_char_code [OF assms] by (metis not_add_less1)
qed

lemma parse_unsigned_show:
  assumes "n < 2 ^ bits"
  shows "parse_unsigned bits (show_nat n) = Some n"
proof -
  obtain c cs where s: "show_base 10 n = c # cs" using show_base_nonempty [of 10 n] by (cases "show_base 10 n") auto
  then have "c \<noteq> CHR ''+''" using show_nat_digits [of c n] digit_char_not by auto
  with s assms parse_show_nat [of n] show ?thesis
    by (simp add: parse_unsigned_def show_nat_def)
qed

end
