(* ===== verification/Etcd_Svc.thy ===== *)
theory Etcd_Svc
  imports Etcd_Lease_Props Etcd_Txn Rust_Str
begin

text \<open>
  The unary RPC handlers of \<open>etcd-mem/src/svc.rs\<close> and the command line of \<open>etcd-mem/src/lib.rs\<close>.
  Every handler locks the store, so a request is one atomic operation: \<open>handle_rpc\<close> is what the
  service does with one request, and the reachable states of the store are those of the service.
\<close>

section \<open>KV\<close>

datatype Status = NotFound string

definition KvSvc_range :: "RangeRequest \<Rightarrow> Store \<Rightarrow> panic + RangeResponse" where
  "KvSvc_range r store =
     (case range_kvs r store of
        Inl p \<Rightarrow> Inl p
      | Inr (kvs_raw, more_kvs, count) \<Rightarrow>
          Inr \<lparr>ra_header = Some (header store),
               ra_kvs = (if rr_count_only r then []
                         else map (\<lambda>k. kv_to_proto k (rr_keys_only r)) kvs_raw),
               ra_more = more_kvs, ra_count = count\<rparr>)"

definition KvSvc_put :: "PutRequest \<Rightarrow> Store \<Rightarrow> PutResponse \<times> Store" where
  "KvSvc_put r store =
     (let ((hdr, prev), store') =
            put (pr_key r) (pr_value r) (pr_lease r) (pr_prev_kv r) (pr_ignore_value r)
              (pr_ignore_lease r) store
      in (\<lparr>pa_header = Some hdr, pa_prev_kv = map_option (\<lambda>k. kv_to_proto k False) prev\<rparr>, store'))"

definition KvSvc_delete_range ::
  "DeleteRangeRequest \<Rightarrow> Store \<Rightarrow> (panic + DeleteRangeResponse) \<times> Store" where
  "KvSvc_delete_range r store =
     (case delete_range (dr_key r) (dr_range_end r) (dr_prev_kv r) store of
        (Inl p, store') \<Rightarrow> (Inl p, store')
      | (Inr (hdr, deleted, prev_kvs), store') \<Rightarrow>
          (Inr \<lparr>da_header = Some hdr, da_deleted = deleted,
                da_prev_kvs = map (\<lambda>k. kv_to_proto k False) prev_kvs\<rparr>, store'))"

definition KvSvc_txn :: "TxnRequest \<Rightarrow> Store \<Rightarrow> (panic + TxnResponse) \<times> Store" where
  "KvSvc_txn r store =
     (case txn r store of
        (Inl p, store') \<Rightarrow> (Inl p, store')
      | (Inr (hdr, ok, responses), store') \<Rightarrow> (Inr (TxnResponse (Some hdr) ok responses), store'))"

text \<open>A \<open>CompactionRequest\<close> is its revision, a \<open>CompactionResponse\<close> its header.\<close>

definition KvSvc_compact :: "int \<Rightarrow> Store \<Rightarrow> ResponseHeader option \<times> Store" where
  "KvSvc_compact r store = (let (hdr, store') = compact r store in (Some hdr, store'))"

section \<open>Lease\<close>

definition LeaseSvc_lease_grant ::
  "int \<Rightarrow> LeaseGrantRequest \<Rightarrow> Store \<Rightarrow> (panic + LeaseGrantResponse) \<times> Store" where
  "LeaseSvc_lease_grant now r store =
     (case lease_grant now (lg_ttl r) (lg_id r) store of
        (Inl p, store') \<Rightarrow> (Inl p, store')
      | (Inr (hdr, lid, ttl), store') \<Rightarrow>
          (Inr \<lparr>lga_header = Some hdr, lga_id = lid, lga_ttl = ttl, lga_error = []\<rparr>, store'))"

definition LeaseSvc_lease_revoke :: "int \<Rightarrow> Store \<Rightarrow> ResponseHeader option \<times> Store" where
  "LeaseSvc_lease_revoke lid store = (let (hdr, store') = lease_revoke lid store in (Some hdr, store'))"

text \<open>One message of the keep-alive stream; a missing lease is answered with a zero time to live.\<close>

definition LeaseSvc_lease_keep_alive ::
  "int \<Rightarrow> int \<Rightarrow> Store \<Rightarrow> (panic + LeaseKeepAliveResponse) \<times> Store" where
  "LeaseSvc_lease_keep_alive now rid store =
     (case lease_keepalive now rid store of
        (Inl p, store') \<Rightarrow> (Inl p, store')
      | (Inr (Some (hdr, lid, ttl)), store') \<Rightarrow>
          (Inr \<lparr>lka_header = Some hdr, lka_id = lid, lka_ttl = ttl\<rparr>, store')
      | (Inr None, store') \<Rightarrow>
          (Inr \<lparr>lka_header = Some (header store'), lka_id = rid, lka_ttl = 0\<rparr>, store'))"

text \<open>\<open>{:#x}\<close> of an \<open>i64\<close>: its two's complement in hexadecimal.\<close>

definition hex_i64 :: "int \<Rightarrow> string" where
  "hex_i64 i = ''0x'' @ show_base 16 (nat (i mod 2 ^ 64))"

definition LeaseSvc_lease_time_to_live ::
  "int \<Rightarrow> LeaseTimeToLiveRequest \<Rightarrow> Store \<Rightarrow> Status + LeaseTimeToLiveResponse" where
  "LeaseSvc_lease_time_to_live now r store =
     (case lease_ttl now (lt_id r) (lt_keys r) store of
        Some (hdr, lid, ttl, keys) \<Rightarrow>
          Inr \<lparr>lta_header = Some hdr, lta_id = lid, lta_ttl = ttl,
               lta_granted_ttl = (case bt_get (leases store) lid of
                                    None \<Rightarrow> ttl | Some l \<Rightarrow> le_granted_ttl l),
               lta_keys = keys\<rparr>
      | None \<Rightarrow> Inl (NotFound (''lease '' @ hex_i64 (lt_id r) @ '' not found'')))"

definition LeaseSvc_lease_leases :: "Store \<Rightarrow> LeaseLeasesResponse" where
  "LeaseSvc_lease_leases store = \<lparr>lla_header = Some (header store), lla_leases = lease_list store\<rparr>"

section \<open>Cluster and maintenance\<close>

definition ClusterSvc_member_list :: "Store \<Rightarrow> MemberListResponse" where
  "ClusterSvc_member_list store =
     \<lparr>mla_header = Some (header store),
      mla_members = [\<lparr>mb_id = MEMBER_ID, mb_name = ''etcd-mem'', mb_peer_urls = [],
                      mb_client_urls = [], mb_is_learner = False\<rparr>]\<rparr>"

definition MaintenanceSvc_defragment :: "Store \<Rightarrow> ResponseHeader option" where
  "MaintenanceSvc_defragment store = Some (header store)"

definition MaintenanceSvc_status :: "Store \<Rightarrow> StatusResponse" where
  "MaintenanceSvc_status store =
     \<lparr>sa_header = Some (header store), sa_version = ''etcd-mem/0.1.0'', sa_db_size = 0,
      sa_leader = MEMBER_ID, sa_raft_index = word_of_int (revision store), sa_raft_term = 1,
      sa_raft_applied_index = word_of_int (revision store), sa_errors = [], sa_db_size_in_use = 0,
      sa_is_learner = False\<rparr>"

definition MaintenanceSvc_hash :: "Store \<Rightarrow> HashResponse" where
  "MaintenanceSvc_hash store = \<lparr>ha_header = Some (header store), ha_hash = 0\<rparr>"

definition MaintenanceSvc_hash_kv :: "Store \<Rightarrow> HashKvResponse" where
  "MaintenanceSvc_hash_kv store =
     \<lparr>hka_header = Some (header store), hka_hash = 0, hka_compact_revision = compact_revision store\<rparr>"

section \<open>Command line\<close>

fun listen_arg :: "string \<Rightarrow> string list \<Rightarrow> string" where
  "listen_arg listen [] = listen"
| "listen_arg listen (arg # rest) =
     (if arg = ''--listen-address'' \<or> arg = ''--listen-addr'' then
        (case rest of [] \<Rightarrow> listen | v # rest' \<Rightarrow> listen_arg v rest')
      else case strip_prefix ''--listen-address='' arg of
             Some v \<Rightarrow> listen_arg v rest
           | None \<Rightarrow>
               (case strip_prefix ''--listen-addr='' arg of
                  Some v \<Rightarrow> listen_arg v rest
                | None \<Rightarrow> listen_arg listen rest))"

definition default_listen :: string where
  "default_listen = ''unix:///run/kubenyx/etcd-mem/etcd-mem.sock''"

definition parse_socket_path :: "string \<Rightarrow> string" where
  "parse_socket_path addr =
     (case strip_prefix ''unix://'' addr of
        Some p \<Rightarrow> p
      | None \<Rightarrow> (case strip_prefix ''unix:'' addr of Some p \<Rightarrow> p | None \<Rightarrow> addr))"

section \<open>The service\<close>

datatype Rpc =
    RpcRange RangeRequest | RpcPut PutRequest | RpcDeleteRange DeleteRangeRequest
  | RpcTxn TxnRequest | RpcCompact int | RpcLeaseGrant LeaseGrantRequest | RpcLeaseRevoke int
  | RpcLeaseKeepAlive int | RpcLeaseTimeToLive LeaseTimeToLiveRequest | RpcLeaseLeases
  | RpcMemberList | RpcDefragment | RpcStatus | RpcHash | RpcHashKv

datatype Reply =
    ReplyRange RangeResponse | ReplyPut PutResponse | ReplyDeleteRange DeleteRangeResponse
  | ReplyTxn TxnResponse | ReplyHeader "ResponseHeader option" | ReplyLeaseGrant LeaseGrantResponse
  | ReplyLeaseKeepAlive LeaseKeepAliveResponse | ReplyLeaseTimeToLive LeaseTimeToLiveResponse
  | ReplyLeaseLeases LeaseLeasesResponse | ReplyMemberList MemberListResponse
  | ReplyStatus StatusResponse | ReplyHash HashResponse | ReplyHashKv HashKvResponse

datatype Outcome = Panicked panic | Failed Status | Replied Reply

definition outcome :: "('a \<Rightarrow> Reply) \<Rightarrow> panic + 'a \<Rightarrow> Outcome" where
  "outcome f r = (case r of Inl p \<Rightarrow> Panicked p | Inr a \<Rightarrow> Replied (f a))"

definition handle_rpc :: "int \<Rightarrow> Rpc \<Rightarrow> Store \<Rightarrow> Outcome \<times> Store" where
  "handle_rpc now q s =
     (case q of
        RpcRange r \<Rightarrow> (outcome ReplyRange (KvSvc_range r s), s)
      | RpcPut r \<Rightarrow> apfst (Replied \<circ> ReplyPut) (KvSvc_put r s)
      | RpcDeleteRange r \<Rightarrow> apfst (outcome ReplyDeleteRange) (KvSvc_delete_range r s)
      | RpcTxn r \<Rightarrow> apfst (outcome ReplyTxn) (KvSvc_txn r s)
      | RpcCompact r \<Rightarrow> apfst (Replied \<circ> ReplyHeader) (KvSvc_compact r s)
      | RpcLeaseGrant r \<Rightarrow> apfst (outcome ReplyLeaseGrant) (LeaseSvc_lease_grant now r s)
      | RpcLeaseRevoke r \<Rightarrow> apfst (Replied \<circ> ReplyHeader) (LeaseSvc_lease_revoke r s)
      | RpcLeaseKeepAlive r \<Rightarrow>
          apfst (outcome ReplyLeaseKeepAlive) (LeaseSvc_lease_keep_alive now r s)
      | RpcLeaseTimeToLive r \<Rightarrow>
          (case LeaseSvc_lease_time_to_live now r s of
             Inl e \<Rightarrow> (Failed e, s) | Inr a \<Rightarrow> (Replied (ReplyLeaseTimeToLive a), s))
      | RpcLeaseLeases \<Rightarrow> (Replied (ReplyLeaseLeases (LeaseSvc_lease_leases s)), s)
      | RpcMemberList \<Rightarrow> (Replied (ReplyMemberList (ClusterSvc_member_list s)), s)
      | RpcDefragment \<Rightarrow> (Replied (ReplyHeader (MaintenanceSvc_defragment s)), s)
      | RpcStatus \<Rightarrow> (Replied (ReplyStatus (MaintenanceSvc_status s)), s)
      | RpcHash \<Rightarrow> (Replied (ReplyHash (MaintenanceSvc_hash s)), s)
      | RpcHashKv \<Rightarrow> (Replied (ReplyHashKv (MaintenanceSvc_hash_kv s)), s))"

fun reply_header :: "Reply \<Rightarrow> ResponseHeader option" where
  "reply_header (ReplyRange a) = ra_header a"
| "reply_header (ReplyPut a) = pa_header a"
| "reply_header (ReplyDeleteRange a) = da_header a"
| "reply_header (ReplyTxn a) = ta_header a"
| "reply_header (ReplyHeader a) = a"
| "reply_header (ReplyLeaseGrant a) = lga_header a"
| "reply_header (ReplyLeaseKeepAlive a) = lka_header a"
| "reply_header (ReplyLeaseTimeToLive a) = lta_header a"
| "reply_header (ReplyLeaseLeases a) = lla_header a"
| "reply_header (ReplyMemberList a) = mla_header a"
| "reply_header (ReplyStatus a) = sa_header a"
| "reply_header (ReplyHash a) = ha_header a"
| "reply_header (ReplyHashKv a) = hka_header a"

text \<open>The revisions a request may spend.\<close>

fun rpc_cost :: "Rpc \<Rightarrow> Store \<Rightarrow> nat" where
  "rpc_cost (RpcPut r) s = 1"
| "rpc_cost (RpcDeleteRange r) s = 1"
| "rpc_cost (RpcTxn t) s = txn_cost t"
| "rpc_cost (RpcLeaseRevoke lid) s = lease_cost lid s"
| "rpc_cost _ s = 0"

section \<open>Handlers are store operations\<close>

lemma handler_stores:
  "snd (KvSvc_put r s) = snd (put (pr_key r) (pr_value r) (pr_lease r) (pr_prev_kv r)
     (pr_ignore_value r) (pr_ignore_lease r) s)"
  "snd (KvSvc_delete_range d s) = snd (delete_range (dr_key d) (dr_range_end d) (dr_prev_kv d) s)"
  "snd (KvSvc_txn t s) = snd (txn t s)"
  "snd (KvSvc_compact c s) = snd (compact c s)"
  "snd (LeaseSvc_lease_grant now g s) = snd (lease_grant now (lg_ttl g) (lg_id g) s)"
  "snd (LeaseSvc_lease_revoke lid s) = snd (lease_revoke lid s)"
  "snd (LeaseSvc_lease_keep_alive now lid s) = snd (lease_keepalive now lid s)"
  by (simp_all add: KvSvc_put_def KvSvc_delete_range_def KvSvc_txn_def KvSvc_compact_def
      LeaseSvc_lease_grant_def LeaseSvc_lease_revoke_def LeaseSvc_lease_keep_alive_def Let_def
      split: prod.split sum.split option.split)

lemma handle_rpc_step:
  assumes "revision s + int (rpc_cost q s) \<le> i64_max"
  shows "snd (handle_rpc now q s) = s \<or> store_step s (snd (handle_rpc now q s))"
  using assms
  by (cases q)
     (auto simp: handle_rpc_def handler_stores intro: store_step.intros split: sum.split)

lemma delete_range_header:
  "delete_range lo hi w s = (Inr (hdr, n, ps), s') \<Longrightarrow> hdr = header s'"
  by (auto simp: delete_range_def Let_def split: sum.splits prod.splits if_splits)

lemma txn_header: "txn t s = (Inr (hdr, ok, rs), s') \<Longrightarrow> hdr = header s'"
  by (cases t) (auto simp: txn.simps Let_def split: prod.splits sum.splits)

lemma put_header: "put k v lid w iv il s = ((hdr, prev), s') \<Longrightarrow> hdr = header s'"
  by (metis fst_conv put_result snd_conv)

lemma lease_headers:
  "lease_grant now ttl lid s = (Inr (hdr, i, t), s') \<Longrightarrow> hdr = header s'"
  "lease_keepalive now lid s = (Inr (Some (hdr, i, t)), s') \<Longrightarrow> hdr = header s'"
  by (auto simp: lease_grant_def lease_keepalive_def Let_def split: sum.splits option.splits if_splits)

lemma svc_headers:
  "KvSvc_range r s = Inr a \<Longrightarrow> ra_header a = Some (header s)"
  "KvSvc_put pr s = (b, s') \<Longrightarrow> pa_header b = Some (header s')"
  "KvSvc_delete_range d s = (Inr c, s') \<Longrightarrow> da_header c = Some (header s')"
  "KvSvc_txn t s = (Inr e, s') \<Longrightarrow> ta_header e = Some (header s')"
  "LeaseSvc_lease_grant now g s = (Inr f, s') \<Longrightarrow> lga_header f = Some (header s')"
  "LeaseSvc_lease_keep_alive now lid s = (Inr h, s') \<Longrightarrow> lka_header h = Some (header s')"
  by (auto simp: KvSvc_range_def KvSvc_put_def KvSvc_delete_range_def KvSvc_txn_def
      LeaseSvc_lease_grant_def LeaseSvc_lease_keep_alive_def Let_def
      dest: put_header delete_range_header txn_header lease_headers
      split: sum.splits prod.splits option.splits)

lemma apfst_eq: "apfst f p = (a, b) \<longleftrightarrow> (\<exists>x. p = (x, b) \<and> a = f x)"
  by (cases p) auto

lemma outcome_Replied: "Replied a = outcome f r \<longleftrightarrow> (\<exists>x. r = Inr x \<and> a = f x)"
  "outcome f r = Replied a \<longleftrightarrow> (\<exists>x. r = Inr x \<and> a = f x)"
  by (cases r; auto simp: outcome_def)+

lemma handle_rpc_header:
  assumes "handle_rpc now q s = (Replied a, s')"
  shows "reply_header a = Some (header s')"
  using assms
  by (cases q)
     (auto simp: handle_rpc_def outcome_Replied apfst_eq svc_headers KvSvc_compact_def LeaseSvc_lease_revoke_def compact_def
        lease_revoke_def LeaseSvc_lease_time_to_live_def lease_ttl_def LeaseSvc_lease_leases_def
        ClusterSvc_member_list_def MaintenanceSvc_defragment_def MaintenanceSvc_status_def
        MaintenanceSvc_hash_def MaintenanceSvc_hash_kv_def Let_def
        split: sum.splits prod.splits option.splits)

lemma store_step_revision:
  assumes "store_inv s" "store_step s s'"
  shows "revision s \<le> revision s'"
proof -
  have inv': "store_inv s'" using assms(2,1) by (rule store_step_inv)
  from store_step_sent [OF assms(2)] obtain bs where "sent s' = sent s @ bs"
    by (auto simp: sent_extends_def)
  with assms(1) inv' hist_length [of s] hist_length [of s'] show ?thesis
    by (simp add: store_inv_def)
qed

section \<open>Properties\<close>

text \<open>C12: every answer of the service carries the revision of the store it leaves, that store is
  reachable again, and its revision is not below the one before: the header revisions a client
  sees never go back.\<close>
theorem rpc_header_monotone:
  assumes "store_reachable s" "revision s + int (rpc_cost q s) \<le> i64_max"
    and "handle_rpc now q s = (Replied a, s')"
  shows "reply_header a = Some (header_rev (revision s'))
    \<and> revision s \<le> revision s' \<and> store_reachable s'"
proof -
  have "s' = s \<or> store_step s s'" using handle_rpc_step [OF assms(2), of now] assms(3) by simp
  then show ?thesis
    using handle_rpc_header [OF assms(3)] store_step_revision [of s s']
      store_reachable_inv [OF assms(1)] assms(1)
    by (auto simp: header_def intro: reach_step)
qed

theorem rpc_header_monotone_witness:
  "\<exists>a s'. handle_rpc 0 (RpcPut (put_of [1] [7])) one_key = (Replied a, s')
    \<and> reply_header a = Some (header_rev (revision s')) \<and> revision one_key \<le> revision s'
    \<and> store_reachable s'"
proof -
  obtain a s' where h: "handle_rpc 0 (RpcPut (put_of [1] [7])) one_key = (Replied a, s')"
    by (cases "KvSvc_put (put_of [1] [7]) one_key") (simp add: handle_rpc_def)
  from rpc_header_monotone [OF one_key_reachable _ h] h show ?thesis
    by (simp add: one_key_eq i64_max_def)
qed

text \<open>C34: a transaction of one unguarded operation is that operation's RPC: same store, and the same
  answer inside the transaction's one.\<close>
theorem single_op_txn_is_rpc:
  "KvSvc_txn (TxnRequest [] [RequestPut p] no) s =
     (case KvSvc_put p s of (a, s') \<Rightarrow> (Inr (TxnResponse (Some (header s')) True [ResponsePut a]), s'))
   \<and> KvSvc_txn (TxnRequest [] [RequestDeleteRange d] no) s =
     (case KvSvc_delete_range d s of
        (Inl e, s') \<Rightarrow> (Inl e, s')
      | (Inr a, s') \<Rightarrow> (Inr (TxnResponse (Some (header s')) True [ResponseDeleteRange a]), s'))
   \<and> KvSvc_txn (TxnRequest [] [RequestRange r] no) s =
     (case KvSvc_range r s of
        Inl e \<Rightarrow> (Inl e, s)
      | Inr a \<Rightarrow> (Inr (TxnResponse (Some (header s)) True [ResponseRange a]), s))"
proof (intro conjI)
  show "KvSvc_txn (TxnRequest [] [RequestPut p] no) s =
     (case KvSvc_put p s of (a, s') \<Rightarrow> (Inr (TxnResponse (Some (header s')) True [ResponsePut a]), s'))"
    by (simp add: KvSvc_txn_def txn.simps exec_ops.simps exec_op.simps KvSvc_put_def put_response_def
        Let_def split: prod.split)
  show "KvSvc_txn (TxnRequest [] [RequestDeleteRange d] no) s =
     (case KvSvc_delete_range d s of
        (Inl e, s') \<Rightarrow> (Inl e, s')
      | (Inr a, s') \<Rightarrow> (Inr (TxnResponse (Some (header s')) True [ResponseDeleteRange a]), s'))"
    by (simp add: KvSvc_txn_def txn.simps exec_ops.simps exec_op.simps KvSvc_delete_range_def
        delete_response_def Let_def split: prod.split sum.split)
  show "KvSvc_txn (TxnRequest [] [RequestRange r] no) s =
     (case KvSvc_range r s of
        Inl e \<Rightarrow> (Inl e, s)
      | Inr a \<Rightarrow> (Inr (TxnResponse (Some (header s)) True [ResponseRange a]), s))"
    by (simp add: KvSvc_txn_def txn.simps exec_ops.simps exec_op.simps KvSvc_range_def
        range_response_def Let_def split: prod.split sum.split)
qed

text \<open>
  What makes a request panic, in the order in which it runs: an interval the wrong way round on a store that
  has held an entry, also in the branch of a transaction that runs and after the operations before it, and a
  deadline beyond the clock's range, for a grant and for the renewal of a lease that exists.
\<close>

definition range_panic :: "bytes \<Rightarrow> bytes \<Rightarrow> Store \<Rightarrow> panic option" where
  "range_panic lo hi s = (if range_panics lo hi s then Some RangeStartAfterEnd else None)"

definition clock_panic :: "int \<Rightarrow> int \<Rightarrow> panic option" where
  "clock_panic now ttl = (if i64_max < now div nanos_per_sec + ttl then Some InstantOverflow else None)"

function (sequential)
  op_panic :: "RequestOp \<Rightarrow> Store \<Rightarrow> panic option"
and ops_panic :: "RequestOp list \<Rightarrow> Store \<Rightarrow> panic option"
and txn_panic :: "TxnRequest \<Rightarrow> Store \<Rightarrow> panic option"
where
  "op_panic (RequestRange r) s = range_panic (rr_key r) (rr_range_end r) s"
| "op_panic (RequestDeleteRange d) s = range_panic (dr_key d) (dr_range_end d) s"
| "op_panic (RequestTxn t) s = txn_panic t s"
| "op_panic _ s = None"
| "ops_panic [] s = None"
| "ops_panic (op # ops) s =
     (case op_panic op s of Some e \<Rightarrow> Some e | None \<Rightarrow> ops_panic ops (snd (exec_op op s)))"
| "txn_panic (TxnRequest compare success failure) s =
     ops_panic (if list_all (eval_compare s) compare then success else failure) s"
  by pat_completeness auto
termination
  by (relation "measure (\<lambda>x. case x of
        Inl y \<Rightarrow> size (fst y)
      | Inr (Inl y) \<Rightarrow> size_list size (fst y)
      | Inr (Inr y) \<Rightarrow> size (fst y))") auto

fun rpc_panic :: "int \<Rightarrow> Rpc \<Rightarrow> Store \<Rightarrow> panic option" where
  "rpc_panic now (RpcRange r) s = range_panic (rr_key r) (rr_range_end r) s"
| "rpc_panic now (RpcDeleteRange d) s = range_panic (dr_key d) (dr_range_end d) s"
| "rpc_panic now (RpcTxn t) s = txn_panic t s"
| "rpc_panic now (RpcLeaseGrant g) s = clock_panic now (max (lg_ttl g) 1)"
| "rpc_panic now (RpcLeaseKeepAlive lid) s =
     (case bt_get (leases s) lid of None \<Rightarrow> None | Some le \<Rightarrow> clock_panic now (le_granted_ttl le))"
| "rpc_panic _ _ _ = None"

definition panicked :: "panic + 'a \<Rightarrow> panic option" where
  "panicked r = (case r of Inl e \<Rightarrow> Some e | Inr _ \<Rightarrow> None)"

lemma panicked_simps [simp]: "panicked (Inl e) = Some e" "panicked (Inr a) = None"
  "panicked (map_sum id f r) = panicked r"
  by (simp_all add: panicked_def split: sum.split)

lemma range_kvs_panicked:
  "bt_inv (kvs s) \<Longrightarrow> panicked (range_kvs r s) = range_panic (rr_key r) (rr_range_end r) s"
  by (simp add: range_panic_def range_kvs_panic range_kvs_listed Let_def)

lemma delete_range_panicked:
  "bt_inv (kvs s) \<Longrightarrow> panicked (fst (delete_range lo hi w s)) = range_panic lo hi s"
  by (cases "doomed lo hi s = []")
     (simp_all add: range_panic_def delete_range_panic delete_range_none delete_range_some)

text \<open>The states of a transaction keep the invariant, so its operations panic as they do alone.\<close>

lemma exec_panicked:
  "store_inv s \<longrightarrow> revision s + int (op_cost op) \<le> i64_max \<longrightarrow> panicked (fst (exec_op op s)) = op_panic op s"
  "store_inv s \<longrightarrow> revision s + int (sum_list (map op_cost ops)) \<le> i64_max \<longrightarrow>
     panicked (fst (exec_ops ops s)) = ops_panic ops s"
  "store_inv s \<longrightarrow> revision s + int (txn_cost t) \<le> i64_max \<longrightarrow> panicked (fst (txn t s)) = txn_panic t s"
proof (induction op s and ops s and t s rule: exec_op_exec_ops_txn.induct)
  case (1 r s)
  then show ?case by (simp add: exec_op.simps range_response_def range_kvs_panicked)
next
  case (3 r s)
  then show ?case
    using delete_range_panicked [of s "dr_key r" "dr_range_end r" "dr_prev_kv r"]
    by (auto simp: exec_op.simps delete_response_def split: prod.split)
next
  case (7 op ops s)
  obtain res s1 where run: "exec_op op s = (res, s1)" by fastforce
  show ?case
  proof (intro impI)
    assume inv: "store_inv s" and room: "revision s + int (sum_list (map op_cost (op # ops))) \<le> i64_max"
    have op: "panicked res = op_panic op s" using 7(1) inv room run by simp
    have "store_inv s1" "revision s1 \<le> revision s + int (op_cost op)"
      using inv.exec_op_keeps [OF inv, of op] exec_revision(1) [of s op] room run by auto
    then show "panicked (fst (exec_ops (op # ops) s)) = ops_panic (op # ops) s"
      using 7(2) [OF run [symmetric]] op [symmetric] room run
      by (cases res) (auto simp: exec_ops.simps panicked_def split: prod.split sum.split)
  qed
next
  case (8 c a b s)
  from 8 [OF refl refl] show ?case
    by (cases "list_all (eval_compare s) c")
       (auto simp: txn.simps panicked_def of_nat_max Let_def split: prod.split sum.split)
qed (auto simp: exec_op.simps exec_ops.simps panicked_def split: prod.split sum.split)

lemma panicked_Some: "panicked r = Some e \<longleftrightarrow> r = Inl e"
  by (cases r) auto

lemma outcome_Panicked: "outcome f r = Panicked e \<longleftrightarrow> panicked r = Some e"
  by (cases r) (auto simp: outcome_def)

lemma lease_panicked:
  "panicked (fst (lease_grant now ttl lid s)) = clock_panic now (max ttl 1)"
  "panicked (fst (lease_keepalive now lid s)) =
     (case bt_get (leases s) lid of None \<Rightarrow> None | Some le \<Rightarrow> clock_panic now (le_granted_ttl le))"
  by (auto simp: lease_grant_def lease_keepalive_def instant_add_secs_def clock_panic_def Let_def split: option.split)

lemma svc_panicked:
  "panicked (KvSvc_range r s) = panicked (range_kvs r s)"
  "panicked (fst (KvSvc_delete_range d s)) = panicked (fst (delete_range (dr_key d) (dr_range_end d) (dr_prev_kv d) s))"
  "panicked (fst (KvSvc_txn t s)) = panicked (fst (txn t s))"
  "panicked (fst (LeaseSvc_lease_grant now g s)) = panicked (fst (lease_grant now (lg_ttl g) (lg_id g) s))"
  "panicked (fst (LeaseSvc_lease_keep_alive now lid s)) = panicked (fst (lease_keepalive now lid s))"
  by (auto simp: KvSvc_range_def KvSvc_delete_range_def KvSvc_txn_def LeaseSvc_lease_grant_def
      LeaseSvc_lease_keep_alive_def panicked_def split: sum.split prod.split option.split)

text \<open>C35: exactly which requests panic their handler, of all fifteen: an interval the wrong way round, in a
  range, a deletion or an executed operation of a transaction, once the store has held an entry; a grant, or the
  renewal of an existing lease, whose deadline leaves the clock's range; nothing else (while revisions last).\<close>
theorem rpc_panics_iff:
  assumes "store_reachable s" "revision s + int (rpc_cost q s) \<le> i64_max"
  shows "fst (handle_rpc now q s) = Panicked e \<longleftrightarrow> rpc_panic now q s = Some e"
proof -
  have inv: "store_inv s" using assms(1) by (rule store_reachable_inv)
  have txn: "panicked (fst (txn t s)) = txn_panic t s" if "q = RpcTxn t" for t
    using exec_panicked(3) [of s t] inv assms(2) that by simp
  show ?thesis
    using inv txn
    by (cases q) (auto simp: handle_rpc_def outcome_Panicked svc_panicked range_kvs_panicked delete_range_panicked
      lease_panicked split: sum.split)
qed

theorem rpc_panics_iff_witness:
  "fst (handle_rpc 0 (RpcTxn (TxnRequest [] [RequestPut (put_of [1] [7]),
      RequestDeleteRange \<lparr>dr_key = [2], dr_range_end = [1], dr_prev_kv = False\<rparr>] [])) Store_new)
    = Panicked RangeStartAfterEnd"
proof -
  let ?d = "\<lparr>dr_key = [2], dr_range_end = [1], dr_prev_kv = False\<rparr>"
  have "rpc_panic 0 (RpcTxn (TxnRequest [] [RequestPut (put_of [1] [7]), RequestDeleteRange ?d] [])) Store_new
      = Some RangeStartAfterEnd"
    by (simp add: range_panic_def range_panics_def inverted_def exec_store store_simps)
  moreover have "revision Store_new + int (rpc_cost (RpcTxn (TxnRequest []
      [RequestPut (put_of [1] [7]), RequestDeleteRange ?d] [])) Store_new) \<le> i64_max"
    by (simp add: Store_new_def i64_max_def)
  ultimately show ?thesis using rpc_panics_iff [OF reach_new] by blast
qed

end
