(* ===== verification/Etcd_Service_Spec.thy ===== *)
theory Etcd_Service_Spec
  imports Etcd_Svc
begin

text \<open>
  The abstract service: a partial map of entries, a revision, a compaction point and a table of leases with the
  sets of keys attached to them. Every request is a function on this state, which also says whether the request
  is answered; the handlers of \<open>Etcd_Svc\<close> implement it. Loops over key lists, the order of entries, the list
  of attached keys and the event history are not part of it.
\<close>

section \<open>Abstract state and requests\<close>

record lease_view =
  lv_ttl :: int
  lv_deadline :: int
  lv_keys :: "bytes set"

record service =
  sv_map :: "bytes \<rightharpoonup> Kv"
  sv_rev :: int
  sv_compact :: int
  sv_leases :: "int \<rightharpoonup> lease_view"
  sv_next :: int
  sv_held :: bool

text \<open>Key \<open>k\<close> moves to lease \<open>lid\<close>; the keys of a set leave their leases.\<close>

definition attach_key :: "bytes \<Rightarrow> int \<Rightarrow> (int \<rightharpoonup> lease_view) \<Rightarrow> int \<rightharpoonup> lease_view" where
  "attach_key k lid ls i =
     map_option (\<lambda>v. v\<lparr>lv_keys := (if i = lid \<and> lid \<noteq> 0 then insert k (lv_keys v) else lv_keys v - {k})\<rparr>) (ls i)"

definition detach_keys :: "bytes set \<Rightarrow> (int \<rightharpoonup> lease_view) \<Rightarrow> int \<rightharpoonup> lease_view" where
  "detach_keys K ls i = map_option (\<lambda>v. v\<lparr>lv_keys := lv_keys v - K\<rparr>) (ls i)"

definition sv_put :: "PutRequest \<Rightarrow> service \<Rightarrow> service" where
  "sv_put r a =
     (let k = pr_key r; old = sv_map a k; rv = sv_rev a + 1;
          v = (if pr_ignore_value r then (case old of None \<Rightarrow> [] | Some p \<Rightarrow> val p) else pr_value r);
          lid = (if pr_ignore_lease r then (case old of None \<Rightarrow> 0 | Some p \<Rightarrow> lease p) else pr_lease r);
          new = (case old of
              None \<Rightarrow> \<lparr>key = k, val = v, create_revision = rv, mod_revision = rv, version = 1, lease = lid\<rparr>
            | Some p \<Rightarrow> p\<lparr>val := v, mod_revision := rv, version := version p + 1, lease := lid\<rparr>)
      in a\<lparr>sv_map := (sv_map a)(k \<mapsto> new), sv_rev := rv, sv_leases := attach_key k lid (sv_leases a),
           sv_held := True\<rparr>)"

definition sv_delete :: "bytes set \<Rightarrow> service \<Rightarrow> service" where
  "sv_delete K a =
     (if K \<inter> dom (sv_map a) = {} then a
      else a\<lparr>sv_map := sv_map a |` (- K), sv_rev := sv_rev a + 1, sv_leases := detach_keys K (sv_leases a)\<rparr>)"

definition sv_revoke :: "int \<Rightarrow> service \<Rightarrow> service" where
  "sv_revoke lid a =
     (case sv_leases a lid of
        None \<Rightarrow> a
      | Some v \<Rightarrow> a\<lparr>sv_map := sv_map a |` (- lv_keys v), sv_rev := sv_rev a + int (card (lv_keys v)),
                    sv_leases := (sv_leases a)(lid := None)\<rparr>)"

text \<open>An interval is answered unless it is the wrong way round and the service has held an entry.\<close>

definition sv_answers :: "bytes \<Rightarrow> bytes \<Rightarrow> service \<Rightarrow> bool" where
  "sv_answers lo hi a \<longleftrightarrow> \<not> (sv_held a \<and> inverted lo hi)"

definition within_clock :: "int \<Rightarrow> int \<Rightarrow> bool" where
  "within_clock now ttl \<longleftrightarrow> now div nanos_per_sec + ttl \<le> i64_max"

definition sv_grant :: "int \<Rightarrow> LeaseGrantRequest \<Rightarrow> service \<Rightarrow> bool \<times> service" where
  "sv_grant now g a =
     (let lid = (if lg_id g = 0 then sv_next a else lg_id g);
          b = (if lg_id g = 0 then a\<lparr>sv_next := i64_succ (sv_next a)\<rparr> else a);
          ttl = max (lg_ttl g) 1
      in if within_clock now ttl
         then (True, b\<lparr>sv_leases := (sv_leases b)(lid \<mapsto>
                \<lparr>lv_ttl = ttl, lv_deadline = now + ttl * nanos_per_sec, lv_keys = {}\<rparr>)\<rparr>)
         else (False, b))"

definition sv_keepalive :: "int \<Rightarrow> int \<Rightarrow> service \<Rightarrow> bool \<times> service" where
  "sv_keepalive now lid a =
     (case sv_leases a lid of
        None \<Rightarrow> (True, a)
      | Some v \<Rightarrow>
          if within_clock now (lv_ttl v)
          then (True, a\<lparr>sv_leases := (sv_leases a)(lid \<mapsto> v\<lparr>lv_deadline := now + lv_ttl v * nanos_per_sec\<rparr>)\<rparr>)
          else (False, a))"

text \<open>A comparison: the relation its result code asks for, between what the key has and what is asked.\<close>

definition related :: "int \<Rightarrow> 'a::linorder \<Rightarrow> 'a \<Rightarrow> bool" where
  "related r x y = (if r = 1 then y < x else if r = 2 then x < y else if r = 3 then x \<noteq> y else x = y)"

definition sv_compare :: "(bytes \<rightharpoonup> Kv) \<Rightarrow> Compare \<Rightarrow> bool" where
  "sv_compare m c =
     (let has = (\<lambda>f. case m (c_key c) of None \<Rightarrow> 0 | Some v \<Rightarrow> f v); t = c_target c; u = c_target_union c
      in if t = 0 then related (c_result c) (has version) (case u of TVersion x \<Rightarrow> x | _ \<Rightarrow> 0)
         else if t = 1 then related (c_result c) (has create_revision) (case u of TCreateRevision x \<Rightarrow> x | _ \<Rightarrow> 0)
         else if t = 2 then related (c_result c) (has mod_revision) (case u of TModRevision x \<Rightarrow> x | _ \<Rightarrow> 0)
         else if t = 3 then related (c_result c) (case m (c_key c) of None \<Rightarrow> [] | Some v \<Rightarrow> val v)
                              (case u of TValue x \<Rightarrow> x | _ \<Rightarrow> [])
         else if t = 4 then related (c_result c) (has lease) (case u of TLease x \<Rightarrow> x | _ \<Rightarrow> 0)
         else True)"

function (sequential)
  sv_op :: "RequestOp \<Rightarrow> service \<Rightarrow> bool \<times> service"
and sv_ops :: "RequestOp list \<Rightarrow> service \<Rightarrow> bool \<times> service"
and sv_txn :: "TxnRequest \<Rightarrow> service \<Rightarrow> bool \<times> service"
where
  "sv_op (RequestRange r) a = (sv_answers (rr_key r) (rr_range_end r) a, a)"
| "sv_op (RequestPut r) a = (True, sv_put r a)"
| "sv_op (RequestDeleteRange d) a =
     (sv_answers (dr_key d) (dr_range_end d) a, sv_delete (Collect (in_range (dr_key d) (dr_range_end d))) a)"
| "sv_op (RequestTxn t) a = sv_txn t a"
| "sv_op RequestNone a = (True, a)"
| "sv_ops [] a = (True, a)"
| "sv_ops (op # ops) a = (case sv_op op a of (ok, b) \<Rightarrow> if ok then sv_ops ops b else (False, b))"
| "sv_txn (TxnRequest compare success failure) a =
     sv_ops (if list_all (sv_compare (sv_map a)) compare then success else failure) a"
  by pat_completeness auto
termination
  by (relation "measure (\<lambda>x. case x of
        Inl y \<Rightarrow> size (fst y)
      | Inr (Inl y) \<Rightarrow> size_list size (fst y)
      | Inr (Inr y) \<Rightarrow> size (fst y))") auto

fun sv_rpc :: "int \<Rightarrow> Rpc \<Rightarrow> service \<Rightarrow> bool \<times> service" where
  "sv_rpc now (RpcRange r) a = (sv_answers (rr_key r) (rr_range_end r) a, a)"
| "sv_rpc now (RpcPut r) a = (True, sv_put r a)"
| "sv_rpc now (RpcDeleteRange d) a = sv_op (RequestDeleteRange d) a"
| "sv_rpc now (RpcTxn t) a = sv_txn t a"
| "sv_rpc now (RpcCompact rv) a = (True, a\<lparr>sv_compact := max rv (sv_compact a)\<rparr>)"
| "sv_rpc now (RpcLeaseGrant g) a = sv_grant now g a"
| "sv_rpc now (RpcLeaseRevoke lid) a = (True, sv_revoke lid a)"
| "sv_rpc now (RpcLeaseKeepAlive lid) a = sv_keepalive now lid a"
| "sv_rpc now _ a = (True, a)"

section \<open>The abstraction\<close>

definition lease_abs :: "LeaseEntry \<Rightarrow> lease_view" where
  "lease_abs le = \<lparr>lv_ttl = le_granted_ttl le, lv_deadline = le_deadline le, lv_keys = set (le_keys le)\<rparr>"

definition leases_abs :: "Store \<Rightarrow> int \<rightharpoonup> lease_view" where
  "leases_abs s i = map_option lease_abs (bt_get (leases s) i)"

definition service_abs :: "Store \<Rightarrow> service" where
  "service_abs s =
     \<lparr>sv_map = bt_get (kvs s), sv_rev = revision s, sv_compact = compact_revision s, sv_leases = leases_abs s,
      sv_next = next_lease_id s, sv_held = kvs_root s\<rparr>"

lemma service_abs_fields [simp]:
  "sv_map (service_abs s) = bt_get (kvs s)" "sv_rev (service_abs s) = revision s"
  "sv_compact (service_abs s) = compact_revision s" "sv_leases (service_abs s) = leases_abs s"
  "sv_next (service_abs s) = next_lease_id s" "sv_held (service_abs s) = kvs_root s"
  by (simp_all add: service_abs_def)

lemma service_abs_eqI:
  "bt_get (kvs s) = sv_map a \<Longrightarrow> revision s = sv_rev a \<Longrightarrow> compact_revision s = sv_compact a \<Longrightarrow>
     leases_abs s = sv_leases a \<Longrightarrow> next_lease_id s = sv_next a \<Longrightarrow> kvs_root s = sv_held a \<Longrightarrow> service_abs s = a"
  by (simp add: service_abs_def)

text \<open>An attached key is an entry that carries the lease.\<close>

lemma listed_lease_key:
  assumes "lease_ok (kvs s) (leases s)" "bt_get (leases s) i = Some le" "k \<in> set (le_keys le)"
  shows "i \<noteq> 0" "\<exists>v. bt_get (kvs s) k = Some v \<and> lease v = i"
  using assms unfolding lease_ok_def by blast+

section \<open>Put\<close>

lemma put_leases_abs:
  assumes "store_inv s"
  shows "leases_abs (snd (put k v lid w iv il s)) =
    attach_key k (lease (put_kv k v lid iv il s)) (leases_abs s)"
proof
  fix i
  let ?ul = "lease (put_kv k v lid iv il s)"
  show "leases_abs (snd (put k v lid w iv il s)) i = attach_key k ?ul (leases_abs s) i"
  proof (cases "bt_get (leases s) i")
    case (Some le)
    have "i \<noteq> 0 \<and> (\<exists>p. bt_get (kvs s) k = Some p \<and> lease p = i)" if "k \<in> set (le_keys le)"
      using listed_lease_key [OF store_inv_lease_ok [OF assms] Some that] by blast
    with Some show ?thesis
      by (auto simp: leases_abs_def attach_key_def store_simps put_leases_get lease_abs_def lease_add_key_def
          lease_drop_key_def)
  qed (simp add: leases_abs_def attach_key_def store_simps put_leases_get)
qed

lemma put_service:
  assumes "store_inv s" "revision s < i64_max"
  shows "service_abs (snd (put (pr_key r) (pr_value r) (pr_lease r) w (pr_ignore_value r) (pr_ignore_lease r) s)) =
    sv_put r (service_abs s)"
proof -
  let ?e = "put_kv (pr_key r) (pr_value r) (pr_lease r) (pr_ignore_value r) (pr_ignore_lease r) s"
  show ?thesis
  proof (cases "bt_get (kvs s) (pr_key r)")
    case None
    with assms show ?thesis
      by (intro service_abs_eqI)
         (simp_all add: sv_put_def store_simps bt_get_insert put_leases_abs put_kv_def put_entry_def Let_def)
  next
    case (Some p)
    with kv_version_room [OF assms(1) Some] assms show ?thesis
      by (intro service_abs_eqI; cases p)
         (simp_all add: sv_put_def store_simps bt_get_insert put_leases_abs put_kv_def put_entry_def Let_def)
  qed
qed

section \<open>Deletion\<close>

lemma delete_one_leases_abs:
  assumes "lease_ok (kvs s) (leases s)"
  shows "leases_abs (delete_one k s) = detach_keys {k} (leases_abs s)"
proof
  fix i
  show "leases_abs (delete_one k s) i = detach_keys {k} (leases_abs s) i"
  proof (cases "bt_get (leases s) i")
    case (Some le)
    have "i \<noteq> 0 \<and> (\<exists>p. bt_get (kvs s) k = Some p \<and> lease p = i)" if "k \<in> set (le_keys le)"
      using listed_lease_key [OF assms Some that] by blast
    with Some show ?thesis
      by (auto simp: leases_abs_def detach_keys_def delete_one_def bt_get_modify lease_abs_def lease_drop_key_def
          split: option.split)
  qed (auto simp: leases_abs_def detach_keys_def delete_one_def bt_get_modify split: option.split)
qed

lemma detach_detach: "detach_keys A (detach_keys B ls) = detach_keys (A \<union> B) ls"
  by (rule ext) (auto simp: detach_keys_def option.map_comp o_def Diff_eq Int_ac intro!: option.map_cong)

lemma detach_none [simp]: "detach_keys {} ls = ls"
  by (rule ext) (simp add: detach_keys_def option.map_ident)

lemma fold_delete_one_leases_abs:
  "bt_inv (kvs s) \<Longrightarrow> lease_ok (kvs s) (leases s) \<Longrightarrow>
     leases_abs (fold delete_one ks s) = detach_keys (set ks) (leases_abs s)"
proof (induction ks arbitrary: s)
  case (Cons k ks)
  then show ?case
    by (simp add: delete_one_lease_ok delete_one_inv delete_one_leases_abs detach_detach)
qed simp

text \<open>Detaching more than the keys that exist makes no difference.\<close>

lemma detach_existing:
  assumes "store_inv s" "K \<inter> dom (bt_get (kvs s)) = L"
  shows "detach_keys K (leases_abs s) = detach_keys L (leases_abs s)"
proof
  fix i
  show "detach_keys K (leases_abs s) i = detach_keys L (leases_abs s) i"
  proof (cases "bt_get (leases s) i")
    case (Some le)
    have "set (le_keys le) \<subseteq> dom (bt_get (kvs s))"
      using listed_lease_key(2) [OF store_inv_lease_ok [OF assms(1)] Some] by blast
    then have "set (le_keys le) - K = set (le_keys le) - L" using assms(2) by blast
    with Some show ?thesis by (simp add: detach_keys_def leases_abs_def lease_abs_def)
  qed (simp add: detach_keys_def leases_abs_def)
qed

lemma delete_service:
  assumes "store_inv s" "revision s < i64_max"
  shows "service_abs (snd (delete_range lo hi w s)) = sv_delete (Collect (in_range lo hi)) (service_abs s)"
proof -
  let ?K = "Collect (in_range lo hi)"
  have dom: "?K \<inter> dom (bt_get (kvs s)) = fst ` set (doomed lo hi s)"
    using doomed_get [of s _ _ lo hi] assms(1) by (force simp: image_iff)
  show ?thesis
  proof (cases "doomed lo hi s = []")
    case True
    have "\<not> in_range lo hi k" if "inverted lo hi" for k using that by (auto simp: inverted_def in_range_def)
    have "snd (delete_range lo hi w s) = s"
      using True assms(1) by (cases "range_panics lo hi s") (simp_all add: delete_range_panic delete_range_none)
    with dom True show ?thesis by (simp add: sv_delete_def)
  next
    case False
    then obtain k where "in_range lo hi k" by (auto simp: doomed_def neq_Nil_conv filter_eq_Cons_iff)
    then have "\<not> range_panics lo hi s" by (auto simp: range_panics_def inverted_def in_range_def)
    note run = delete_range_some [OF store_inv_bt [OF assms(1)] this False]
    have "bt_get (kvs (snd (delete_range lo hi w s))) = bt_get (kvs s) |` (- ?K)"
      using assms \<open>\<not> range_panics lo hi s\<close> by (auto simp: fun_eq_iff delete_range_map restrict_map_def)
    moreover have "leases_abs (snd (delete_range lo hi w s)) = detach_keys ?K (leases_abs s)"
    proof -
      have "leases_abs (snd (delete_range lo hi w s)) =
          leases_abs (fold delete_one (map fst (doomed lo hi s)) (s\<lparr>revision := i64_succ (revision s)\<rparr>))"
        by (simp add: run leases_abs_def fun_eq_iff)
      also have "\<dots> = detach_keys (fst ` set (doomed lo hi s)) (leases_abs (s\<lparr>revision := i64_succ (revision s)\<rparr>))"
        using assms(1) by (subst fold_delete_one_leases_abs) (simp_all add: store_inv_lease_ok)
      also have "leases_abs (s\<lparr>revision := i64_succ (revision s)\<rparr>) = leases_abs s"
        by (simp add: leases_abs_def fun_eq_iff)
      finally show ?thesis using detach_existing [OF assms(1) dom] by simp
    qed
    moreover have "?K \<inter> dom (bt_get (kvs s)) \<noteq> {}" using dom False by simp
    ultimately show ?thesis using assms(2) by (intro service_abs_eqI) (simp_all add: sv_delete_def run)
  qed
qed

section \<open>Leases\<close>

lemma delete_key_one:
  assumes "store_inv s" "bt_get (kvs s) k \<noteq> None" "revision s < i64_max"
  shows "revision (snd (delete_range k [] w s)) = revision s + 1"
proof -
  have "sv_rev (service_abs (snd (delete_range k [] w s))) = revision s + 1"
    using assms by (subst delete_service) (auto simp: sv_delete_def in_range_def)
  then show ?thesis by simp
qed

lemma revoke_loop_fields:
  "compact_revision (revoke_loop ks s) = compact_revision s" "next_lease_id (revoke_loop ks s) = next_lease_id s"
  "kvs_root (revoke_loop ks s) = kvs_root s"
proof (induction ks arbitrary: s)
  case (Cons k ks)
  {
    case 1
    with Cons show ?case by (cases rule: delete_range_cases [of k "[]" False s]) simp_all
  next
    case 2
    with Cons show ?case by (cases rule: delete_range_cases [of k "[]" False s]) simp_all
  next
    case 3
    with Cons show ?case by (cases rule: delete_range_cases [of k "[]" False s]) simp_all
  }
qed simp_all

lemma revoke_loop_spends:
  assumes "store_inv s" "revision s + int (length ks) \<le> i64_max" "distinct ks"
    and "\<forall>k \<in> set ks. bt_get (kvs s) k \<noteq> None"
  shows "revision (revoke_loop ks s) = revision s + int (length ks)"
  using assms
proof (induction ks arbitrary: s)
  case (Cons k ks)
  let ?s = "snd (delete_range k [] False s)"
  have rv: "revision ?s = revision s + 1" using Cons.prems by (intro delete_key_one) simp_all
  have "revision (revoke_loop ks ?s) = revision ?s + int (length ks)"
  proof (rule Cons.IH)
    show "store_inv ?s" using Cons.prems by (intro delete_store_inv) simp_all
  qed (use Cons.prems rv in \<open>auto simp: delete_key_map\<close>)
  with rv show ?case by simp
qed simp

lemma revoke_service:
  assumes "store_inv s" "revision s + int (lease_cost lid s) \<le> i64_max"
  shows "service_abs (snd (lease_revoke lid s)) = sv_revoke lid (service_abs s)"
proof (cases "bt_get (leases s) lid")
  case None
  then show ?thesis by (simp add: lease_revoke_absent sv_revoke_def leases_abs_def)
next
  case (Some le)
  note lok = store_inv_lease_ok [OF assms(1)]
  have "\<forall>k \<in> set (le_keys le). bt_get (kvs s) k \<noteq> None" using listed_lease_key(2) [OF lok Some] by fastforce
  moreover have "distinct (le_keys le)" "bt_inv (leases s)" using lok Some by (simp_all add: lease_ok_def)
  ultimately have ok: "distinct (le_keys le)" "\<forall>k \<in> set (le_keys le). bt_get (kvs s) k \<noteq> None" "bt_inv (leases s)"
    by simp_all
  note run = lease_revoke_map [OF assms Some]
  let ?t = "revoke_loop (le_keys le) (s\<lparr>leases := bt_remove lid (leases s)\<rparr>)"
  have t: "snd (lease_revoke lid s) = ?t" using Some by (simp add: lease_revoke_def Let_def)
  have rv: "revision ?t = revision s + int (length (le_keys le))"
    using revoke_loop_spends [OF drop_lease_store_inv [OF assms(1), of lid], of "le_keys le"] assms(2) ok Some
    by (simp add: lease_cost_def)
  have "bt_get (kvs ?t) = bt_get (kvs s) |` (- set (le_keys le))"
    using run(1) unfolding t by (auto simp: restrict_map_def)
  moreover have "leases_abs ?t = (leases_abs s)(lid := None)"
    using run(2) ok(3) unfolding t by (auto simp: leases_abs_def bt_get_remove)
  ultimately show ?thesis
    unfolding t using rv ok(1) Some
    by (intro service_abs_eqI)
       (simp_all add: sv_revoke_def leases_abs_def lease_abs_def revoke_loop_fields distinct_card)
qed

lemma grant_service:
  "(\<not> isl (fst (lease_grant now (lg_ttl g) (lg_id g) s)), service_abs (snd (lease_grant now (lg_ttl g) (lg_id g) s))) =
     sv_grant now g (service_abs s)"
  by (auto simp: lease_grant_def sv_grant_def instant_add_secs_def within_clock_def bt_get_insert lease_abs_def
      Let_def leases_abs_def intro!: service_abs_eqI)

lemma keepalive_service:
  "(\<not> isl (fst (lease_keepalive now lid s)), service_abs (snd (lease_keepalive now lid s))) =
     sv_keepalive now lid (service_abs s)"
  by (auto simp: lease_keepalive_def sv_keepalive_def instant_add_secs_def within_clock_def bt_get_modify lease_abs_def
      Let_def leases_abs_def intro!: service_abs_eqI split: option.split)

section \<open>Transactions and requests\<close>

lemma compare_related: "compare_result r (cmp x y) \<longleftrightarrow> related r x y"
  by (auto simp: compare_result_def compare_wanted_def cmp_def related_def)

lemma compare_service: "eval_compare s c = sv_compare (bt_get (kvs s)) c"
  by (simp add: eval_compare_def sv_compare_def compare_related Let_def)

lemma panicked_answers: "\<not> isl r \<longleftrightarrow> panicked r = None"
  by (cases r) simp_all

lemma range_answers: "range_panic lo hi s = None \<longleftrightarrow> sv_answers lo hi (service_abs s)"
  by (simp add: range_panic_def range_panics_def sv_answers_def)

text \<open>What a run of operations does to the abstract state, and whether it is answered.\<close>

definition answered :: "(panic + 'a) \<times> Store \<Rightarrow> bool \<times> service" where
  "answered x = (panicked (fst x) = None, service_abs (snd x))"

lemma range_answered: "bt_inv (kvs s) \<Longrightarrow> answered (range_kvs r s, s) = (sv_answers (rr_key r) (rr_range_end r) (service_abs s), service_abs s)"
  by (simp add: answered_def range_kvs_panicked range_answers)

lemma delete_answered:
  assumes "store_inv s" "revision s < i64_max"
  shows "answered (delete_range lo hi w s) =
    (sv_answers lo hi (service_abs s), sv_delete (Collect (in_range lo hi)) (service_abs s))"
  using assms by (simp add: answered_def delete_range_panicked range_answers delete_service)

lemma exec_service:
  "store_inv s \<longrightarrow> revision s + int (op_cost op) \<le> i64_max \<longrightarrow> answered (exec_op op s) = sv_op op (service_abs s)"
  "store_inv s \<longrightarrow> revision s + int (sum_list (map op_cost ops)) \<le> i64_max \<longrightarrow>
     answered (exec_ops ops s) = sv_ops ops (service_abs s)"
  "store_inv s \<longrightarrow> revision s + int (txn_cost t) \<le> i64_max \<longrightarrow> answered (txn t s) = sv_txn t (service_abs s)"
proof (induction op s and ops s and t s rule: exec_op_exec_ops_txn.induct)
  case (1 r s)
  then show ?case using range_answered [of s r] by (simp add: exec_op.simps range_response_def answered_def)
next
  case (2 r s)
  obtain a where "put_response r s = (a, snd (put (pr_key r) (pr_value r) (pr_lease r) (pr_prev_kv r)
      (pr_ignore_value r) (pr_ignore_lease r) s))" by (rule put_response_pair)
  with put_service [of s r "pr_prev_kv r"] show ?case by (simp add: answered_def exec_op.simps)
next
  case (3 d s)
  then show ?case using delete_answered [of s "dr_key d" "dr_range_end d" "dr_prev_kv d"]
    by (auto simp: answered_def exec_store exec_op.simps delete_response_def split: prod.split)
next
  case (4 t s)
  then show ?case by (auto simp: answered_def exec_op.simps panicked_def split: prod.split sum.split)
next
  case (7 op ops s)
  obtain res s1 where run: "exec_op op s = (res, s1)" by fastforce
  show ?case
  proof (intro impI)
    assume inv: "store_inv s" and room: "revision s + int (sum_list (map op_cost (op # ops))) \<le> i64_max"
    have op: "sv_op op (service_abs s) = (panicked res = None, service_abs s1)"
      using 7(1) inv room run by (simp add: answered_def)
    have "store_inv s1" "revision s1 \<le> revision s + int (op_cost op)"
      using inv.exec_op_keeps [OF inv, of op] exec_revision(1) [of s op] room run by auto
    then show "answered (exec_ops (op # ops) s) = sv_ops (op # ops) (service_abs s)"
      using 7(2) [OF run [symmetric]] op room run
      by (cases res) (auto simp: exec_ops.simps answered_def panicked_def split: prod.split sum.split)
  qed
next
  case (8 c a b s)
  have "list_all (eval_compare s) c = list_all (sv_compare (bt_get (kvs s))) c"
    by (rule list.pred_cong) (simp_all add: compare_service)
  with 8 [OF refl refl] show ?case
    by (cases "list_all (eval_compare s) c")
       (auto simp: txn.simps answered_def panicked_def of_nat_max Let_def split: prod.split sum.split)
qed (auto simp: answered_def exec_op.simps exec_ops.simps)

text \<open>Every request, answered or not, is the abstract one.\<close>

lemma rpc_service:
  assumes "store_inv s" "revision s + int (rpc_cost q s) \<le> i64_max"
  shows "((\<nexists>e. fst (handle_rpc now q s) = Panicked e), service_abs (snd (handle_rpc now q s))) =
    sv_rpc now q (service_abs s)"
proof -
  have out: "(\<forall>e. outcome f r \<noteq> Panicked e) \<longleftrightarrow> panicked r = None" for f and r :: "panic + 'b"
    by (cases r) (auto simp: outcome_def)
  show ?thesis
  proof (cases q)
    case (RpcRange r)
    with assms range_answered [of s r] show ?thesis by (simp add: handle_rpc_def out svc_panicked answered_def)
  next
    case (RpcPut r)
    with assms put_service [of s r "pr_prev_kv r"] show ?thesis by (simp add: handle_rpc_def handler_stores)
  next
    case (RpcDeleteRange d)
    with assms delete_answered [of s "dr_key d" "dr_range_end d" "dr_prev_kv d"] show ?thesis
      by (simp add: handle_rpc_def out svc_panicked handler_stores answered_def)
  next
    case (RpcTxn t)
    with assms exec_service(3) [of s t] show ?thesis
      by (simp add: handle_rpc_def out svc_panicked handler_stores answered_def)
  next
    case (RpcCompact c)
    then show ?thesis
      by (auto simp: handle_rpc_def handler_stores compact_def Let_def leases_abs_def intro!: service_abs_eqI)
  next
    case (RpcLeaseGrant g)
    with grant_service [of now g s] show ?thesis
      by (simp add: handle_rpc_def out svc_panicked handler_stores panicked_answers)
  next
    case (RpcLeaseRevoke lid)
    with assms revoke_service [of s lid] show ?thesis by (simp add: handle_rpc_def handler_stores)
  next
    case (RpcLeaseKeepAlive lid)
    with keepalive_service [of now lid s] show ?thesis
      by (simp add: handle_rpc_def out svc_panicked handler_stores panicked_answers)
  qed (auto simp: handle_rpc_def split: sum.split)
qed

end
