(* ===== verification/Etcd_Process.thy ===== *)
theory Etcd_Process
  imports Etcd_Service_Spec
begin

text \<open>
  The process around the store, \<open>etcd-mem/src/lib.rs\<close>: its start-up and shutdown on the file system, the
  readiness datagram, and the interleaving of requests with the expiry task, which takes the store's lock
  twice per tick. Socket paths have no trailing slash; the gRPC server itself is a parameter, the error it
  ends with, if any.
\<close>

section \<open>Start-up and shutdown\<close>

record EtcdHost =
  eh_exists :: "string \<Rightarrow> bool"
  eh_mkdir :: "string \<Rightarrow> string option"
  eh_bind :: "string \<Rightarrow> string option"
  eh_notify :: "string option"
  eh_unbound :: bool
  eh_server :: "string option"

datatype EtcdEffect =
    RemoveSock string
  | CreateDirs string
  | BindSock string
  | NotifyReady string
  | ServeRpcs

definition notify_ready :: "EtcdHost \<Rightarrow> EtcdEffect list" where
  "notify_ready h =
     (case eh_notify h of
        None \<Rightarrow> []
      | Some sock \<Rightarrow>
          if starts_with ''@'' sock then []
          else if eh_unbound h then [NotifyReady sock] else [])"

definition parent_dir :: "string \<Rightarrow> string option" where
  "parent_dir p =
     (if p = ''/'' then None
      else case rsplit_once (CHR ''/'') p of
             None \<Rightarrow> Some []
           | Some (d, _) \<Rightarrow> Some (if d = [] then ''/'' else d))"

text \<open>\<open>serve\<close>: the effects in order and the error it returns, if any.\<close>

definition serve :: "EtcdHost \<Rightarrow> string list \<Rightarrow> EtcdEffect list \<times> string option" where
  "serve h args =
     (let sock_path = parse_socket_path (listen_arg default_listen args);
          stale = (if eh_exists h sock_path then [RemoveSock sock_path] else []);
          dirs = (case parent_dir sock_path of None \<Rightarrow> [] | Some d \<Rightarrow> [CreateDirs d])
      in case Option.bind (parent_dir sock_path) (eh_mkdir h) of
           Some e \<Rightarrow> (stale, Some e)
         | None \<Rightarrow>
             (case eh_bind h sock_path of
                Some e \<Rightarrow> (stale @ dirs, Some e)
              | None \<Rightarrow>
                  (let served = stale @ dirs @ [BindSock sock_path] @ notify_ready h @ [ServeRpcs]
                   in case eh_server h of
                        Some e \<Rightarrow> (served, Some e)
                      | None \<Rightarrow> (served @ [RemoveSock sock_path], None))))"

definition etcd_run :: "EtcdHost \<Rightarrow> string list \<Rightarrow> EtcdEffect list \<times> int" where
  "etcd_run h args = (case serve h args of (effects, err) \<Rightarrow> (effects, if err = None then 0 else 1))"

text \<open>Readiness is announced only behind a bound socket, and an orderly shutdown leaves no socket file: the
  last effect on it is its removal. A failed start-up has already removed the old socket.\<close>

lemma serve_announces_bound:
  assumes "serve h args = (es, err)" "NotifyReady n \<in> set es"
  shows "\<exists>p a b. es = a @ BindSock p # NotifyReady n # b \<and> p = parse_socket_path (listen_arg default_listen args)"
proof -
  let ?p = "parse_socket_path (listen_arg default_listen args)"
  have "NotifyReady n \<in> set (notify_ready h)"
    using assms by (auto simp: serve_def Let_def split: option.splits if_splits)
  then have nr: "notify_ready h = [NotifyReady n]"
    by (cases "eh_notify h") (auto simp: notify_ready_def split: if_splits)
  let ?before = "(if eh_exists h ?p then [RemoveSock ?p] else [])
    @ (case parent_dir ?p of None \<Rightarrow> [] | Some d \<Rightarrow> [CreateDirs d])"
  have "es = ?before @ BindSock ?p # notify_ready h @ [ServeRpcs]
      \<or> es = ?before @ BindSock ?p # notify_ready h @ [ServeRpcs, RemoveSock ?p]"
    using assms by (auto simp: serve_def Let_def split: option.splits if_splits)
  with nr show ?thesis by (metis append_Cons append_Nil)
qed

lemma serve_cleans_up: "serve h args = (es, None) \<Longrightarrow> last es = RemoveSock (parse_socket_path (listen_arg default_listen args))"
  by (auto simp: serve_def Let_def split: option.splits)

section \<open>Requests and the expiry task\<close>

text \<open>The store, and the leases the expiry task has collected and not yet revoked.\<close>

record EtcdProc =
  ep_store :: Store
  ep_expired :: "int list"

definition proc_rpc :: "int \<Rightarrow> Rpc \<Rightarrow> EtcdProc \<Rightarrow> EtcdProc" where
  "proc_rpc now q p = p\<lparr>ep_store := snd (handle_rpc now q (ep_store p))\<rparr>"

definition proc_collect :: "int \<Rightarrow> EtcdProc \<Rightarrow> EtcdProc" where
  "proc_collect now p = p\<lparr>ep_expired := gc_collect now (ep_store p)\<rparr>"

definition proc_revoke :: "EtcdProc \<Rightarrow> EtcdProc" where
  "proc_revoke p = p\<lparr>ep_store := gc_revoke (ep_expired p) (ep_store p), ep_expired := []\<rparr>"

text \<open>The revisions that a sweep spends are left.\<close>

fun gc_fits :: "int list \<Rightarrow> Store \<Rightarrow> bool" where
  "gc_fits [] s \<longleftrightarrow> True"
| "gc_fits (lid # ids) s \<longleftrightarrow>
     revision s + int (lease_cost lid s) \<le> i64_max \<and> gc_fits ids (snd (lease_revoke lid s))"

text \<open>The steps of the server: a request with its outcome, and the two halves of an expiry tick. A tick starts when
  the one before it is over.\<close>

datatype ProcLabel = Request int Rpc Outcome | TickCollect int | TickRevoke

inductive proc_step :: "EtcdProc \<Rightarrow> ProcLabel \<Rightarrow> EtcdProc \<Rightarrow> bool" where
  rpc: "revision (ep_store p) + int (rpc_cost q (ep_store p)) \<le> i64_max \<Longrightarrow>
    proc_step p (Request now q (fst (handle_rpc now q (ep_store p)))) (proc_rpc now q p)"
| collect: "ep_expired p = [] \<Longrightarrow> proc_step p (TickCollect now) (proc_collect now p)"
| revoke: "ep_expired p \<noteq> [] \<Longrightarrow> gc_fits (ep_expired p) (ep_store p) \<Longrightarrow> proc_step p TickRevoke (proc_revoke p)"

inductive proc_reach :: "EtcdProc \<Rightarrow> bool" where
  boot: "proc_reach \<lparr>ep_store = Store_new, ep_expired = []\<rparr>"
| step: "proc_reach p \<Longrightarrow> proc_step p l p' \<Longrightarrow> proc_reach p'"

text \<open>The abstract server: the service and the leases collected. A request is the abstract request, a tick
  collects the leases that are due and later revokes what it collected.\<close>

fun server_step :: "ProcLabel \<Rightarrow> service \<times> int list \<Rightarrow> service \<times> int list \<Rightarrow> bool" where
  "server_step (Request now q out) (a, ids) (b, ids') \<longleftrightarrow>
     ((\<nexists>e. out = Panicked e), b) = sv_rpc now q a \<and> ids' = ids"
| "server_step (TickCollect now) (a, ids) (b, ids') \<longleftrightarrow>
     b = a \<and> set ids' = {lid. \<exists>v. sv_leases a lid = Some v \<and> lv_deadline v \<le> now}"
| "server_step TickRevoke (a, ids) (b, ids') \<longleftrightarrow> b = fold sv_revoke ids a \<and> ids' = []"

definition proc_abs :: "EtcdProc \<Rightarrow> service \<times> int list" where
  "proc_abs p = (service_abs (ep_store p), ep_expired p)"

lemma gc_revoke_service:
  "gc_fits ids s \<Longrightarrow> store_inv s \<Longrightarrow> service_abs (gc_revoke ids s) = fold sv_revoke ids (service_abs s)"
proof (induction ids arbitrary: s)
  case (Cons lid ids)
  then have "store_inv (snd (lease_revoke lid s))" by (intro revoke_store_inv) simp_all
  with Cons revoke_service [of s lid] show ?case by (simp add: gc_revoke_def)
qed (simp add: gc_revoke_def)

lemma due_leases:
  assumes "store_inv s"
  shows "set (gc_collect now s) = {lid. \<exists>v. leases_abs s lid = Some v \<and> lv_deadline v \<le> now}"
  by (auto simp: gc_collect_def expired_leases_mem [OF assms] leases_abs_def lease_abs_def)

lemma gc_revoke_steps: "gc_fits ids s \<Longrightarrow> store_step\<^sup>*\<^sup>* s (gc_revoke ids s)"
proof (induction ids arbitrary: s)
  case (Cons lid ids)
  then have "store_step s (snd (lease_revoke lid s))" by (simp add: step_revoke)
  moreover have "store_step\<^sup>*\<^sup>* (snd (lease_revoke lid s)) (gc_revoke ids (snd (lease_revoke lid s)))"
    using Cons by simp
  ultimately show ?case by (simp add: gc_revoke_def converse_rtranclp_into_rtranclp)
qed (simp add: gc_revoke_def)

lemma proc_step_store: "proc_step p l p' \<Longrightarrow> store_step\<^sup>*\<^sup>* (ep_store p) (ep_store p')"
proof (induction rule: proc_step.induct)
  case (rpc p q now)
  with handle_rpc_step [of "ep_store p" q now] show ?case by (auto simp: proc_rpc_def)
next
  case (revoke p)
  with gc_revoke_steps show ?case by (simp add: proc_revoke_def)
qed (simp add: proc_collect_def)

lemma store_steps_reachable: "store_steps s s' \<Longrightarrow> store_reachable s \<Longrightarrow> store_reachable s'"
  by (induction rule: rtranclp_induct) (auto intro: reach_step)

lemma proc_reach_store: "proc_reach p \<Longrightarrow> store_reachable (ep_store p)"
  by (induction rule: proc_reach.induct) (auto intro: reach_new store_steps_reachable [OF proc_step_store])

text \<open>C11: the server refines the abstract one: every step of the process, in any interleaving of requests with
  the two halves of an expiry tick, is the abstract step of the same label. A request changes the map, the
  revision and the lease table as its abstract counterpart says and is answered exactly when that one is; a tick
  collects exactly the leases that are due and revokes exactly what it collected, whatever ran in between. (A
  step is taken while the revisions it needs are left.)\<close>
theorem process_refines_server:
  assumes "proc_reach p" "proc_step p l p'"
  shows "server_step l (proc_abs p) (proc_abs p')"
proof -
  have inv: "store_inv (ep_store p)" using assms(1) by (intro store_reachable_inv proc_reach_store)
  show ?thesis
    using assms(2)
  proof cases
    case (rpc q now)
    with rpc_service [OF inv, of q now] show ?thesis by (simp add: proc_abs_def proc_rpc_def)
  next
    case (collect now)
    with due_leases [OF inv] show ?thesis by (simp add: proc_abs_def proc_collect_def)
  next
    case revoke
    with gc_revoke_service [OF _ inv] show ?thesis by (simp add: proc_abs_def proc_revoke_def)
  qed
qed

theorem process_refines_server_witness:
  "server_step (TickCollect 5000000000) (proc_abs \<lparr>ep_store = Store_new, ep_expired = []\<rparr>)
    (proc_abs (proc_collect 5000000000 \<lparr>ep_store = Store_new, ep_expired = []\<rparr>))
   \<and> (\<exists>out b. server_step (Request 0 (RpcPut (put_of [1] [7])) out)
        (proc_abs \<lparr>ep_store = Store_new, ep_expired = []\<rparr>) (b, []) \<and> sv_rev b = 2 \<and> sv_map b [1] \<noteq> None)"
proof
  let ?p = "\<lparr>ep_store = Store_new, ep_expired = []\<rparr>" and ?q = "RpcPut (put_of [1] [7])"
  show "server_step (TickCollect 5000000000) (proc_abs ?p) (proc_abs (proc_collect 5000000000 ?p))"
    by (rule process_refines_server [OF proc_reach.boot]) (simp add: proc_step.collect)
  have "proc_step ?p (Request 0 ?q (fst (handle_rpc 0 ?q Store_new))) (proc_rpc 0 ?q ?p)"
    using proc_step.rpc [of ?p ?q 0] by (simp add: Store_new_def i64_max_def)
  from process_refines_server [OF proc_reach.boot this]
  have "server_step (Request 0 ?q (fst (handle_rpc 0 ?q Store_new))) (proc_abs ?p)
      (service_abs (ep_store (proc_rpc 0 ?q ?p)), [])"
    by (simp add: proc_abs_def proc_rpc_def)
  moreover have "sv_rev b = 2 \<and> sv_map b [1] \<noteq> None"
    if "server_step (Request 0 ?q out) (proc_abs ?p) (b, [])" for out b
    using that by (simp add: proc_abs_def sv_put_def put_of_def Store_new_def Let_def)
  ultimately show "\<exists>out b. server_step (Request 0 ?q out) (proc_abs ?p) (b, []) \<and> sv_rev b = 2 \<and> sv_map b [1] \<noteq> None"
    by blast
qed

end
