(* ===== verification/Etcd_Watch.thy ===== *)
theory Etcd_Watch
  imports Etcd_Store_Spec
begin

text \<open>
  The watch service of \<open>etcd-mem/src/svc.rs\<close>: the task spawned per watch stream. Its state is the
  list of active handles and the next watch number; each turn of its \<open>select!\<close> loop consumes one
  input (a client message, a batch from the broadcast channel, a lag report) and sends responses.

  The tokio channels are not part of the sources. What the task relies on is that a broadcast
  receiver yields the batches sent after its subscription in the order they were sent, each once,
  or reports a lag: in the system below a position into the store's \<open>sent\<close> list.
\<close>

unbundle bit_operations_syntax

section \<open>Handles\<close>

record WatchHandle =
  wh_id :: int
  wh_key :: bytes
  wh_range_end :: bytes
  wh_prev_kv :: bool
  wh_filter :: "32 word"
  wh_delivered_through :: int

definition wh_matches :: "WatchHandle \<Rightarrow> int \<Rightarrow> Kv \<Rightarrow> bool" where
  "wh_matches h et kv =
     (if wh_filter h AND 1 \<noteq> 0 \<and> et = 0 then False
      else if wh_filter h AND 2 \<noteq> 0 \<and> et = 1 then False
      else if wh_range_end h = [] then key kv = wh_key h
      else if wh_range_end h = [0] then wh_key h \<le> key kv
      else wh_key h \<le> key kv \<and> key kv < wh_range_end h)"

text \<open>
  \<open>acc | (1 << (f as u32))\<close>: in the release profile a 32-bit shift uses the low five bits of its
  amount.
\<close>

definition watch_filter :: "int list \<Rightarrow> 32 word" where
  "watch_filter fs = fold (\<lambda>f acc. acc OR push_bit (nat (f mod 32)) 1) fs 0"

text \<open>Lines 227-234 and 288-295: the matching events, without previous values unless asked for.\<close>

definition watch_events :: "WatchHandle \<Rightarrow> StoredEvent list \<Rightarrow> Event list" where
  "watch_events h evs =
     map (\<lambda>e. if wh_prev_kv h then kv_to_event e else (kv_to_event e)\<lparr>pe_prev_kv := None\<rparr>)
       (filter (\<lambda>e. wh_matches h (ev_type e) (ev_kv e)) evs)"

definition event_response :: "int \<Rightarrow> int \<Rightarrow> Event list \<Rightarrow> WatchResponse" where
  "event_response wid rv evs =
     WatchResponse_default\<lparr>wa_header := Some (header_rev rv), wa_watch_id := wid, wa_events := evs\<rparr>"

section \<open>The task\<close>

record WatchTask =
  handles :: "WatchHandle list"
  next_watch_id :: int

definition compacted_reason :: string where
  "compacted_reason = ''etcdserver: mvcc: required revision has been compacted''"

text \<open>The dash of the message is one Unicode character, three bytes of UTF-8.\<close>

definition lag_reason :: string where
  "lag_reason = ''broadcast lag '' @ [CHR 0xE2, CHR 0x80, CHR 0x94] @ '' reconnect''"

definition assigned_id :: "WatchCreateRequest \<Rightarrow> WatchTask \<Rightarrow> int" where
  "assigned_id cr t = (if wc_watch_id cr \<noteq> 0 then wc_watch_id cr else next_watch_id t)"

definition bump_id :: "WatchCreateRequest \<Rightarrow> WatchTask \<Rightarrow> WatchTask" where
  "bump_id cr t =
     (if wc_watch_id cr \<noteq> 0 then t else t\<lparr>next_watch_id := i64_succ (next_watch_id t)\<rparr>)"

definition create_handle :: "WatchCreateRequest \<Rightarrow> int \<Rightarrow> int \<Rightarrow> WatchHandle" where
  "create_handle cr wid cur_rev =
     \<lparr>wh_id = wid, wh_key = wc_key cr, wh_range_end = wc_range_end cr,
      wh_prev_kv = wc_prev_kv cr, wh_filter = watch_filter (wc_filters cr),
      wh_delivered_through = cur_rev\<rparr>"

text \<open>The replay of lines 226-248: one response per logged revision with a matching event.\<close>

fun replay_history :: "WatchHandle \<Rightarrow> (int \<times> StoredEvent list) list \<Rightarrow> WatchResponse list" where
  "replay_history h [] = []"
| "replay_history h ((rv, evs) # rest) =
     (let matched = watch_events h evs
      in if matched = [] then replay_history h rest
         else event_response (wh_id h) rv matched # replay_history h rest)"

definition watch_create ::
  "WatchCreateRequest \<Rightarrow> Store \<Rightarrow> WatchTask \<Rightarrow> WatchTask \<times> WatchResponse list" where
  "watch_create cr store t0 =
     (let wid = assigned_id cr t0;
          t = bump_id cr t0;
          history = (if 0 < wc_start_revision cr
                     then events_since (wc_start_revision cr - 1) store else []);
          cur_rev = revision store;
          compact_rev = compact_revision store
      in if 0 < wc_start_revision cr \<and> wc_start_revision cr \<le> compact_rev then
           (t, [WatchResponse_default\<lparr>wa_watch_id := wid, wa_canceled := True,
                  wa_compact_revision := compact_rev, wa_cancel_reason := compacted_reason\<rparr>])
         else
           (let handle = create_handle cr wid cur_rev;
                created = WatchResponse_default\<lparr>wa_header := Some (header_rev cur_rev),
                            wa_watch_id := wid, wa_created := True\<rparr>
            in (t\<lparr>handles := handles t @ [handle]\<rparr>, created # replay_history handle history)))"

definition watch_cancel :: "int \<Rightarrow> WatchTask \<Rightarrow> WatchTask \<times> WatchResponse list" where
  "watch_cancel wid t =
     (t\<lparr>handles := filter (\<lambda>h. wh_id h \<noteq> wid) (handles t)\<rparr>,
      [WatchResponse_default\<lparr>wa_watch_id := wid, wa_canceled := True\<rparr>])"

definition watch_message ::
  "WatchRequest \<Rightarrow> Store \<Rightarrow> WatchTask \<Rightarrow> WatchTask \<times> WatchResponse list" where
  "watch_message wr store t =
     (case wr of
        CreateRequest cr \<Rightarrow> watch_create cr store t
      | CancelRequest wid \<Rightarrow> watch_cancel wid t
      | ProgressRequest \<Rightarrow>
          (t, [WatchResponse_default\<lparr>wa_header := Some (header_rev (revision store))\<rparr>])
      | WatchRequestNone \<Rightarrow> (t, []))"

text \<open>The loop of lines 286-310 over the handles.\<close>

fun fan_out :: "BroadcastBatch \<Rightarrow> WatchHandle list \<Rightarrow> WatchHandle list \<times> WatchResponse list" where
  "fan_out b [] = ([], [])"
| "fan_out b (h # hs) =
     (case fan_out b hs of (hs', rs) \<Rightarrow>
        if b_revision b \<le> wh_delivered_through h then (h # hs', rs)
        else
          (let matched = watch_events h (b_events b);
               h' = h\<lparr>wh_delivered_through := b_revision b\<rparr>
           in (h' # hs', if matched = [] then rs
                         else event_response (wh_id h) (b_revision b) matched # rs)))"

definition watch_batch :: "BroadcastBatch \<Rightarrow> WatchTask \<Rightarrow> WatchTask \<times> WatchResponse list" where
  "watch_batch b t =
     (if handles t = [] then (t, [])
      else case fan_out b (handles t) of (hs, rs) \<Rightarrow> (t\<lparr>handles := hs\<rparr>, rs))"

definition watch_lagged :: "WatchTask \<Rightarrow> WatchTask \<times> WatchResponse list" where
  "watch_lagged t =
     (t\<lparr>handles := []\<rparr>,
      map (\<lambda>h. WatchResponse_default\<lparr>wa_watch_id := wh_id h, wa_canceled := True,
                 wa_cancel_reason := lag_reason\<rparr>) (handles t))"

text \<open>One turn of the \<open>select!\<close> loop; \<^term>\<open>None\<close> is the \<open>break\<close> that ends the task.\<close>

datatype watch_input =
    Inbound WatchRequest | InboundEnd | Batch BroadcastBatch | Lagged nat | Closed

definition watch_turn ::
  "watch_input \<Rightarrow> Store \<Rightarrow> WatchTask \<Rightarrow> WatchTask option \<times> WatchResponse list" where
  "watch_turn i store t =
     (case i of
        Inbound wr \<Rightarrow> apfst Some (watch_message wr store t)
      | InboundEnd \<Rightarrow> (None, [])
      | Batch b \<Rightarrow> apfst Some (watch_batch b t)
      | Lagged n \<Rightarrow> apfst Some (watch_lagged t)
      | Closed \<Rightarrow> (None, []))"

definition watch_start :: WatchTask where
  "watch_start = \<lparr>handles = [], next_watch_id = 1\<rparr>"

section \<open>Task and store together\<close>

text \<open>
  The store moves by any of its operations while the task runs; the receiver's position counts the
  batches it has taken. The steps named here are the ones a given watch survives: no lag, and no
  client message that cancels this watch or creates another one under its number.
\<close>

record watch_sys =
  ws_store :: Store
  ws_pos :: nat
  ws_task :: WatchTask
  ws_out :: "WatchResponse list"

fun spares :: "int \<Rightarrow> WatchTask \<Rightarrow> WatchRequest \<Rightarrow> bool" where
  "spares wid t (CreateRequest cr) = (assigned_id cr t \<noteq> wid)"
| "spares wid t (CancelRequest w) = (w \<noteq> wid)"
| "spares wid t ProgressRequest = True"
| "spares wid t WatchRequestNone = True"

inductive follow_step :: "int \<Rightarrow> watch_sys \<Rightarrow> watch_sys \<Rightarrow> bool" for wid where
  follow_store: "store_step (ws_store y) s' \<Longrightarrow> follow_step wid y (y\<lparr>ws_store := s'\<rparr>)"
| follow_batch: "ws_pos y < length (sent (ws_store y)) \<Longrightarrow>
     watch_turn (Batch (sent (ws_store y) ! ws_pos y)) (ws_store y) (ws_task y) = (Some t, rs) \<Longrightarrow>
     follow_step wid y (y\<lparr>ws_pos := Suc (ws_pos y), ws_task := t, ws_out := ws_out y @ rs\<rparr>)"
| follow_message: "spares wid (ws_task y) m \<Longrightarrow>
     watch_turn (Inbound m) (ws_store y) (ws_task y) = (Some t, rs) \<Longrightarrow>
     follow_step wid y (y\<lparr>ws_task := t, ws_out := ws_out y @ rs\<rparr>)"

inductive follows :: "int \<Rightarrow> watch_sys \<Rightarrow> watch_sys \<Rightarrow> bool" for wid where
  follows_refl: "follows wid y y"
| follows_step: "follows wid y z \<Longrightarrow> follow_step wid z z' \<Longrightarrow> follows wid y z'"

section \<open>What a watch must deliver\<close>

text \<open>The responses carrying events for a watch number.\<close>

definition delivered :: "int \<Rightarrow> WatchResponse list \<Rightarrow> WatchResponse list" where
  "delivered wid rs = filter (\<lambda>r. wa_watch_id r = wid \<and> wa_events r \<noteq> []) rs"

text \<open>One response per batch of the history in the revision window that has a matching event.\<close>

definition expected :: "WatchHandle \<Rightarrow> int \<Rightarrow> int \<Rightarrow> BroadcastBatch list \<Rightarrow> WatchResponse list" where
  "expected h lo hi bs =
     map (\<lambda>b. event_response (wh_id h) (b_revision b) (watch_events h (b_events b)))
       (filter (\<lambda>b. lo \<le> b_revision b \<and> b_revision b \<le> hi \<and> watch_events h (b_events b) \<noteq> []) bs)"

text \<open>The first revision a watch covers: the requested one, or the next one.\<close>

definition first_revision :: "WatchCreateRequest \<Rightarrow> Store \<Rightarrow> int" where
  "first_revision cr s =
     (if 0 < wc_start_revision cr \<and> wc_start_revision cr \<le> revision s
      then wc_start_revision cr else revision s + 1)"

section \<open>Lemmas on the task\<close>

lemma delivered_append: "delivered wid (xs @ ys) = delivered wid xs @ delivered wid ys"
  by (simp add: delivered_def)

lemma event_response_fields [simp]:
  "wa_watch_id (event_response wid rv evs) = wid" "wa_events (event_response wid rv evs) = evs"
  by (simp_all add: event_response_def)

lemma default_events [simp]: "wa_events WatchResponse_default = []"
  by (simp add: WatchResponse_default_def)

lemma watch_events_dt [simp]: "watch_events (h\<lparr>wh_delivered_through := d\<rparr>) = watch_events h"
  by (simp add: fun_eq_iff watch_events_def wh_matches_def)

lemma expected_dt [simp]: "expected (h\<lparr>wh_delivered_through := d\<rparr>) = expected h"
  by (simp add: fun_eq_iff expected_def)

lemma replay_history_ids: "r \<in> set (replay_history h hist) \<Longrightarrow> wa_watch_id r = wh_id h"
  by (induction h hist rule: replay_history.induct) (auto simp: Let_def split: if_splits)

lemma replay_history_expected:
  "replay_history h (map batch_pair bs) =
     map (\<lambda>b. event_response (wh_id h) (b_revision b) (watch_events h (b_events b)))
       (filter (\<lambda>b. watch_events h (b_events b) \<noteq> []) bs)"
  by (induction bs) (auto simp: batch_pair_def Let_def)

lemma fan_out_own:
  "filter (\<lambda>h. wh_id h = wid) (fst (fan_out b hs)) = fst (fan_out b (filter (\<lambda>h. wh_id h = wid) hs))"
  "delivered wid (snd (fan_out b hs)) = delivered wid (snd (fan_out b (filter (\<lambda>h. wh_id h = wid) hs)))"
  by (induction hs) (auto simp: delivered_def Let_def split: prod.splits)

lemma watch_batch_fan_out:
  "watch_batch b t = (t\<lparr>handles := fst (fan_out b (handles t))\<rparr>, snd (fan_out b (handles t)))"
  by (simp add: watch_batch_def split: prod.split)

end
