(* ===== verification/Etcd_Watch_Delivery.thy ===== *)
theory Etcd_Watch_Delivery
  imports Etcd_Watch
begin

text \<open>
  Delivery: from the moment a watch is created until it is cancelled or the stream lags, the
  responses sent for it are one per revision of the window with a matching event, in order and
  each once, whatever other messages and store operations run in between.
\<close>

section \<open>The window of a watch\<close>

lemma expected_append: "expected h lo hi (xs @ ys) = expected h lo hi xs @ expected h lo hi ys"
  by (simp add: expected_def)

lemma expected_above: "\<forall>b \<in> set bs. hi < b_revision b \<Longrightarrow> expected h lo hi bs = []"
  by (auto simp: expected_def filter_empty_conv)

lemma expected_hi_irrelevant:
  assumes "\<forall>b \<in> set bs. b_revision b \<le> a" "a \<le> hi"
  shows "expected h lo hi bs = expected h lo a bs"
proof -
  have "filter (\<lambda>b. lo \<le> b_revision b \<and> b_revision b \<le> hi \<and> watch_events h (b_events b) \<noteq> []) bs =
      filter (\<lambda>b. lo \<le> b_revision b \<and> b_revision b \<le> a \<and> watch_events h (b_events b) \<noteq> []) bs"
    using assms by (intro filter_cong) auto
  then show ?thesis by (simp add: expected_def)
qed

text \<open>The window grows by the batch at the receiver's position.\<close>

lemma expected_next:
  assumes hist: "map b_revision bs = [2..r]" and i: "i < length bs" and lo: "lo \<le> int i + 2"
  shows "expected h lo (int i + 2) bs = expected h lo (int i + 1) bs @
    (if watch_events h (b_events (bs ! i)) = [] then []
     else [event_response (wh_id h) (int i + 2) (watch_events h (b_events (bs ! i)))])"
proof -
  let ?b = "bs ! i"
  have "bs = take i bs @ [?b] @ drop (Suc i) bs" using id_take_nth_drop [OF i] by simp
  then have split: "expected h lo hi bs = expected h lo hi (take i bs) @ expected h lo hi [?b]
      @ expected h lo hi (drop (Suc i) bs)" for hi
    by (metis expected_append)
  have after: "\<forall>b \<in> set (drop (Suc i) bs). int i + 2 < b_revision b"
    using hist_drop [OF hist] by fastforce
  have before: "\<forall>b \<in> set (take i bs). b_revision b \<le> int i + 1"
    using hist_take [OF hist] by blast
  have rev: "b_revision ?b = int i + 2" using hist i by (rule hist_nth)
  have "expected h lo (int i + 2) (take i bs) = expected h lo (int i + 1) (take i bs)"
    using before by (rule expected_hi_irrelevant) simp
  moreover have "expected h lo (int i + 1) [?b] = []" using rev by (simp add: expected_above)
  moreover have "expected h lo hi (drop (Suc i) bs) = []" if "hi \<le> int i + 2" for hi
    using after that by (intro expected_above) fastforce
  moreover have "expected h lo (int i + 2) [?b] =
      (if watch_events h (b_events ?b) = [] then []
       else [event_response (wh_id h) (int i + 2) (watch_events h (b_events ?b))])"
    using rev lo by (simp add: expected_def)
  ultimately show ?thesis by (simp add: split)
qed

section \<open>The invariant of a followed watch\<close>

definition watch_tracks ::
  "int \<Rightarrow> WatchHandle \<Rightarrow> int \<Rightarrow> WatchResponse list \<Rightarrow> watch_sys \<Rightarrow> int \<Rightarrow> bool" where
  "watch_tracks wid h lo before y d \<longleftrightarrow>
     store_inv (ws_store y)
     \<and> ws_pos y \<le> length (sent (ws_store y))
     \<and> filter (\<lambda>x. wh_id x = wid) (handles (ws_task y)) = [h\<lparr>wh_delivered_through := d\<rparr>]
     \<and> delivered wid (ws_out y) = before @ expected h lo d (sent (ws_store y))
     \<and> int (ws_pos y) + 1 \<le> d \<and> lo \<le> d + 1 \<and> d \<le> revision (ws_store y)"

lemma tracks_store:
  assumes tr: "watch_tracks wid h lo before y d" and step: "store_step (ws_store y) s'"
  shows "watch_tracks wid h lo before (y\<lparr>ws_store := s'\<rparr>) d"
proof -
  let ?s = "ws_store y"
  from tr have inv: "store_inv ?s" and d: "d \<le> revision ?s" by (simp_all add: watch_tracks_def)
  from step inv have inv': "store_inv s'" by (rule store_step_inv)
  from step obtain bs where bs: "sent s' = sent ?s @ bs"
    using store_step_sent by (auto simp: sent_extends_def)
  from inv inv' have len: "int (length (sent ?s)) = revision ?s - 1"
    and len': "int (length (sent s')) = revision s' - 1"
    by (auto simp: store_inv_def hist_length)
  have "\<forall>b \<in> set bs. d < b_revision b"
  proof
    fix b
    assume "b \<in> set bs"
    then have "b \<in> set (drop (length (sent ?s)) (sent s'))" by (simp add: bs)
    then have "int (length (sent ?s)) + 2 \<le> b_revision b"
      using inv' hist_drop by (auto simp: store_inv_def hist_ok_def)
    with len d show "d < b_revision b" by linarith
  qed
  then have "expected h lo d (sent s') = expected h lo d (sent ?s)"
    by (simp add: bs expected_append expected_above)
  with tr inv' bs len len' show ?thesis by (auto simp: watch_tracks_def)
qed

lemma fan_out_single:
  "fan_out b [h] =
     (if b_revision b \<le> wh_delivered_through h then ([h], [])
      else ([h\<lparr>wh_delivered_through := b_revision b\<rparr>],
            if watch_events h (b_events b) = [] then []
            else [event_response (wh_id h) (b_revision b) (watch_events h (b_events b))]))"
  by (simp add: Let_def)

lemma tracks_batch:
  assumes tr: "watch_tracks wid h lo before y d" and wid: "wh_id h = wid"
    and pos: "ws_pos y < length (sent (ws_store y))"
    and turn: "watch_turn (Batch (sent (ws_store y) ! ws_pos y)) (ws_store y) (ws_task y) = (Some t, rs)"
  shows "\<exists>d'. watch_tracks wid h lo before
    (y\<lparr>ws_pos := Suc (ws_pos y), ws_task := t, ws_out := ws_out y @ rs\<rparr>) d'"
proof -
  let ?s = "ws_store y"
  let ?b = "sent ?s ! ws_pos y"
  let ?hs = "handles (ws_task y)"
  let ?own = "filter (\<lambda>x. wh_id x = wid)"
  from tr have inv: "store_inv ?s" and hs: "?own ?hs = [h\<lparr>wh_delivered_through := d\<rparr>]"
    and out: "delivered wid (ws_out y) = before @ expected h lo d (sent ?s)"
    and le: "int (ws_pos y) + 1 \<le> d" "lo \<le> d + 1" "d \<le> revision ?s"
    by (simp_all add: watch_tracks_def)
  have hist: "map b_revision (sent ?s) = [2..revision ?s]" and len: "int (length (sent ?s)) = revision ?s - 1"
    using inv by (auto simp: store_inv_def hist_ok_def hist_length)
  have rev: "b_revision ?b = int (ws_pos y) + 2" using hist pos by (rule hist_nth)
  from turn have t: "t = (ws_task y)\<lparr>handles := fst (fan_out ?b ?hs)\<rparr>" and rs: "rs = snd (fan_out ?b ?hs)"
    by (simp_all add: watch_turn_def watch_batch_fan_out)
  have own: "?own (handles t) = fst (fan_out ?b [h\<lparr>wh_delivered_through := d\<rparr>])"
    using fan_out_own(1) [of wid ?b ?hs] hs by (simp add: t del: fan_out.simps)
  have del: "delivered wid rs = delivered wid (snd (fan_out ?b [h\<lparr>wh_delivered_through := d\<rparr>]))"
    using fan_out_own(2) [of wid ?b ?hs] unfolding rs hs .
  show ?thesis
  proof (cases "int (ws_pos y) + 2 \<le> d")
    case True
    with own del rev pos tr show ?thesis
      by (intro exI [of _ d]) (auto simp: watch_tracks_def fan_out_single delivered_append delivered_def)
  next
    case False
    with le have d: "d = int (ws_pos y) + 1" by linarith
    have "delivered wid rs = (if watch_events h (b_events ?b) = [] then []
        else [event_response (wh_id h) (int (ws_pos y) + 2) (watch_events h (b_events ?b))])"
      using del rev False wid by (simp add: fan_out_single delivered_def del: fan_out.simps)
    then have "delivered wid (ws_out y @ rs) =
        before @ expected h lo (int (ws_pos y) + 2) (sent ?s)"
      using out expected_next [OF hist pos, of lo h] le d by (simp add: delivered_append add.commute)
    with own rev pos False inv le d len show ?thesis
      by (intro exI [of _ "int (ws_pos y) + 2"])
         (auto simp: watch_tracks_def fan_out_single simp del: fan_out.simps)
  qed
qed

lemma create_other:
  assumes "assigned_id cr t \<noteq> wid"
  shows "filter (\<lambda>x. wh_id x = wid) (handles (fst (watch_create cr s t))) =
      filter (\<lambda>x. wh_id x = wid) (handles t)"
    and "delivered wid (snd (watch_create cr s t)) = []"
proof -
  show "filter (\<lambda>x. wh_id x = wid) (handles (fst (watch_create cr s t))) =
      filter (\<lambda>x. wh_id x = wid) (handles t)"
    using assms by (auto simp: watch_create_def Let_def bump_id_def create_handle_def)
  have "delivered wid (replay_history h hist) = []" if "wh_id h \<noteq> wid" for h hist
    using that by (auto simp: delivered_def filter_empty_conv dest: replay_history_ids)
  with assms show "delivered wid (snd (watch_create cr s t)) = []"
    by (auto simp: watch_create_def Let_def delivered_def create_handle_def)
qed

lemma tracks_message:
  assumes tr: "watch_tracks wid h lo before y d" and spare: "spares wid (ws_task y) m"
    and turn: "watch_turn (Inbound m) (ws_store y) (ws_task y) = (Some t, rs)"
  shows "watch_tracks wid h lo before (y\<lparr>ws_task := t, ws_out := ws_out y @ rs\<rparr>) d"
proof -
  have "filter (\<lambda>x. wh_id x = wid) (handles t) = filter (\<lambda>x. wh_id x = wid) (handles (ws_task y))
      \<and> delivered wid rs = []"
  proof (cases m)
    case (CreateRequest cr)
    with spare have "assigned_id cr (ws_task y) \<noteq> wid" by simp
    from create_other [OF this, of "ws_store y"] turn CreateRequest show ?thesis
      by (cases "watch_create cr (ws_store y) (ws_task y)") (auto simp: watch_turn_def watch_message_def)
  next
    case (CancelRequest w)
    have "filter (\<lambda>x. wh_id x = wid) (filter (\<lambda>x. wh_id x \<noteq> w) hs) = filter (\<lambda>x. wh_id x = wid) hs" for hs
      using spare CancelRequest by (auto intro: filter_cong)
    with turn CancelRequest show ?thesis
      by (auto simp: watch_turn_def watch_message_def watch_cancel_def delivered_def)
  qed (use turn in \<open>auto simp: watch_turn_def watch_message_def delivered_def\<close>)
  with tr show ?thesis by (simp add: watch_tracks_def delivered_append)
qed

lemma follows_tracks:
  assumes "follows wid y0 y" "watch_tracks wid h lo before y0 d0" "wh_id h = wid"
  shows "\<exists>d. watch_tracks wid h lo before y d"
  using assms
proof (induction rule: follows.induct)
  case (follows_step y z z')
  then obtain d where d: "watch_tracks wid h lo before z d" by blast
  from follows_step.hyps(2) show ?case
  proof cases
    case (follow_store s')
    with tracks_store [OF d] show ?thesis by blast
  next
    case (follow_batch t rs)
    with tracks_batch [OF d follows_step.prems(2)] show ?thesis by blast
  next
    case (follow_message m t rs)
    with tracks_message [OF d] show ?thesis by blast
  qed
qed blast

section \<open>Creation\<close>

text \<open>The replay of the log sends what the window up to the current revision expects.\<close>

lemma create_replays:
  assumes inv: "store_inv s" and fresh: "compact_revision s < wc_start_revision cr \<or> wc_start_revision cr \<le> 0"
    and h: "h = create_handle cr wid (revision s)"
  shows "replay_history h (if 0 < wc_start_revision cr then events_since (wc_start_revision cr - 1) s else [])
    = expected h (first_revision cr s) (revision s) (sent s)"
proof -
  have hist: "map b_revision (sent s) = [2..revision s]" and ok: "hist_ok s"
    using inv by (auto simp: store_inv_def hist_ok_def)
  have le: "b_revision b \<le> revision s" if "b \<in> set (sent s)" for b
    using hist_take [OF hist, of b "length (sent s)"] hist_length [OF ok] that by simp
  show ?thesis
  proof (cases "0 < wc_start_revision cr")
    case True
    let ?r = "wc_start_revision cr"
    have "events_since (?r - 1) s = map batch_pair (filter (\<lambda>b. ?r - 1 < b_revision b) (sent s))"
      using fresh True ok by (simp add: events_since_def hist_log_above)
    moreover have "filter (\<lambda>b. first_revision cr s \<le> b_revision b \<and> b_revision b \<le> revision s
          \<and> watch_events h (b_events b) \<noteq> []) (sent s) =
        filter (\<lambda>b. ?r - 1 < b_revision b \<and> watch_events h (b_events b) \<noteq> []) (sent s)"
      using True by (intro filter_cong) (auto simp: first_revision_def dest: le)
    ultimately show ?thesis
      using True by (simp add: replay_history_expected expected_def conj_commute)
  next
    case False
    then show ?thesis by (auto simp: expected_def filter_empty_conv first_revision_def)
  qed
qed

lemma create_tracks:
  assumes inv: "store_inv (ws_store y)" and pos: "ws_pos y \<le> length (sent (ws_store y))"
    and wid: "assigned_id cr (ws_task y) = wid" "\<forall>x \<in> set (handles (ws_task y)). wh_id x \<noteq> wid"
    and start: "compact_revision (ws_store y) < wc_start_revision cr \<or> wc_start_revision cr \<le> 0"
    and turn: "watch_turn (Inbound (CreateRequest cr)) (ws_store y) (ws_task y) = (Some t, rs)"
  shows "watch_tracks wid (create_handle cr wid (revision (ws_store y)))
    (first_revision cr (ws_store y)) (delivered wid (ws_out y))
    (y\<lparr>ws_task := t, ws_out := ws_out y @ rs\<rparr>) (revision (ws_store y))"
proof -
  let ?s = "ws_store y"
  let ?h = "create_handle cr wid (revision ?s)"
  have h: "wh_id ?h = wid" "?h\<lparr>wh_delivered_through := revision ?s\<rparr> = ?h"
    by (simp_all add: create_handle_def)
  let ?hist = "if 0 < wc_start_revision cr then events_since (wc_start_revision cr - 1) ?s else []"
  from turn start wid(1) have t: "handles t = handles (ws_task y) @ [?h]"
    and rs: "rs = WatchResponse_default\<lparr>wa_header := Some (header_rev (revision ?s)),
        wa_watch_id := wid, wa_created := True\<rparr> # replay_history ?h ?hist"
    by (auto simp: watch_turn_def watch_message_def watch_create_def Let_def bump_id_def split: if_splits)
  have "delivered wid rs = delivered wid (expected ?h (first_revision cr ?s) (revision ?s) (sent ?s))"
    using rs create_replays [OF inv start, of ?h wid] by (simp add: delivered_def)
  also have "\<dots> = expected ?h (first_revision cr ?s) (revision ?s) (sent ?s)"
    using h by (auto simp: delivered_def expected_def filter_map o_def intro!: arg_cong [of _ _ "map _"] filter_cong)
  finally have out: "delivered wid (ws_out y @ rs) =
      delivered wid (ws_out y) @ expected ?h (first_revision cr ?s) (revision ?s) (sent ?s)"
    by (simp add: delivered_append)
  have "int (length (sent ?s)) = revision ?s - 1" using inv by (simp add: store_inv_def hist_length)
  moreover have "filter (\<lambda>x. wh_id x = wid) (handles t) = [?h]"
    using wid(2) h(1) by (auto simp: t filter_empty_conv)
  ultimately show ?thesis
    using inv pos out h by (auto simp: watch_tracks_def first_revision_def)
qed

section \<open>Delivery\<close>

lemma caught_up_delivery:
  assumes "watch_tracks wid h lo before y d" "ws_pos y = length (sent (ws_store y))"
  shows "delivered wid (ws_out y) = before @ expected h lo (revision (ws_store y)) (sent (ws_store y))"
proof -
  from assms(1) have "int (length (sent (ws_store y))) = revision (ws_store y) - 1"
    by (simp add: watch_tracks_def store_inv_def hist_length)
  with assms have "d = revision (ws_store y)" by (simp add: watch_tracks_def)
  with assms(1) show ?thesis by (simp add: watch_tracks_def)
qed

end
