(* ===== verification/Etcd_Watch_Props.thy ===== *)
theory Etcd_Watch_Props
  imports Etcd_Watch_Delivery Etcd_Store_Props
begin

text \<open>The properties of the watch service.\<close>

section \<open>Filters\<close>

lemma fold_or_bit:
  "bit (fold (\<lambda>f acc. acc OR g f) fs (a :: 32 word)) n \<longleftrightarrow> bit a n \<or> (\<exists>f \<in> set fs. bit (g f) n)"
  by (induction fs arbitrary: a) (auto simp: bit_or_iff)

lemma watch_filter_bit:
  "n < 32 \<Longrightarrow> bit (watch_filter fs) n \<longleftrightarrow> (\<exists>f \<in> set fs. nat (f mod 32) = n)"
  by (simp add: watch_filter_def fold_or_bit bit_exp_iff) (metis (no_types))

lemma watch_filter_bits:
  assumes "set fs \<subseteq> {0, 1}"
  shows "watch_filter fs AND 1 \<noteq> 0 \<longleftrightarrow> 0 \<in> set fs" and "watch_filter fs AND 2 \<noteq> 0 \<longleftrightarrow> 1 \<in> set fs"
proof -
  have "watch_filter fs AND 1 \<noteq> 0 \<longleftrightarrow> bit (watch_filter fs) 0"
    using and_exp_eq_0_iff_not_bit [of "watch_filter fs" 0] by simp
  also have "\<dots> \<longleftrightarrow> 0 \<in> set fs" using assms by (subst watch_filter_bit) (simp, force)
  finally show "watch_filter fs AND 1 \<noteq> 0 \<longleftrightarrow> 0 \<in> set fs" .
  have "watch_filter fs AND 2 \<noteq> 0 \<longleftrightarrow> bit (watch_filter fs) 1"
    using and_exp_eq_0_iff_not_bit [of "watch_filter fs" 1] by simp
  also have "\<dots> \<longleftrightarrow> 1 \<in> set fs" using assms by (subst watch_filter_bit) (simp, force)
  finally show "watch_filter fs AND 2 \<noteq> 0 \<longleftrightarrow> 1 \<in> set fs" .
qed

section \<open>A concrete stream for the witnesses\<close>

definition all_watch :: WatchCreateRequest where
  "all_watch = \<lparr>wc_key = [0], wc_range_end = [0], wc_start_revision = 2, wc_progress_notify = False,
     wc_filters = [], wc_prev_kv = False, wc_watch_id = 0, wc_fragment = False\<rparr>"

definition idle_stream :: "Store \<Rightarrow> watch_sys" where
  "idle_stream s = \<lparr>ws_store = s, ws_pos = length (sent s), ws_task = watch_start, ws_out = []\<rparr>"

section \<open>Properties\<close>

text \<open>C1: delivery: a watch created under a number its stream does not use, from a revision that is
  not compacted, gets one response per revision of its window that holds a matching event, with
  exactly the matching events, in revision order, none twice and none missing, once the task has
  taken every broadcast batch. The window starts at the requested revision (at the next one when
  none or a future one is requested); store operations, other watches and cancellations of other
  watches may run in between.\<close>
theorem watch_exactly_once:
  assumes "store_reachable (ws_store y)" "ws_pos y \<le> length (sent (ws_store y))"
    and "assigned_id cr (ws_task y) = wid" "\<forall>x \<in> set (handles (ws_task y)). wh_id x \<noteq> wid"
    and "compact_revision (ws_store y) < wc_start_revision cr \<or> wc_start_revision cr \<le> 0"
    and "watch_turn (Inbound (CreateRequest cr)) (ws_store y) (ws_task y) = (Some t, rs)"
    and "follows wid (y\<lparr>ws_task := t, ws_out := ws_out y @ rs\<rparr>) z"
    and "ws_pos z = length (sent (ws_store z))"
  shows "delivered wid (ws_out z) = delivered wid (ws_out y) @
    expected (create_handle cr wid (revision (ws_store y))) (first_revision cr (ws_store y))
      (revision (ws_store z)) (sent (ws_store z))"
proof -
  have "store_inv (ws_store y)" using assms(1) by (rule store_reachable_inv)
  from follows_tracks [OF assms(7) create_tracks [OF this assms(2-6)]]
  obtain d where "watch_tracks wid (create_handle cr wid (revision (ws_store y)))
      (first_revision cr (ws_store y)) (delivered wid (ws_out y)) z d"
    by (auto simp: create_handle_def)
  then show ?thesis using assms(8) by (rule caught_up_delivery)
qed

theorem watch_exactly_once_witness:
  "\<exists>t rs. watch_turn (Inbound (CreateRequest all_watch)) one_key watch_start = (Some t, rs)
    \<and> delivered 1 rs = expected (create_handle all_watch 1 2) 2 2 (sent one_key)
    \<and> length (delivered 1 rs) = 1"
proof -
  let ?y = "idle_stream one_key"
  obtain t rs where turn: "watch_turn (Inbound (CreateRequest all_watch)) one_key watch_start = (Some t, rs)"
    by (cases "watch_create all_watch one_key watch_start") (simp add: watch_turn_def watch_message_def)
  have "delivered 1 (ws_out (?y\<lparr>ws_task := t, ws_out := ws_out ?y @ rs\<rparr>)) = delivered 1 (ws_out ?y) @
    expected (create_handle all_watch 1 (revision (ws_store ?y))) (first_revision all_watch (ws_store ?y))
      (revision (ws_store (?y\<lparr>ws_task := t, ws_out := ws_out ?y @ rs\<rparr>)))
      (sent (ws_store (?y\<lparr>ws_task := t, ws_out := ws_out ?y @ rs\<rparr>)))"
  proof (rule watch_exactly_once [OF _ _ _ _ _ _ follows_refl])
    show "watch_turn (Inbound (CreateRequest all_watch)) (ws_store ?y) (ws_task ?y) = (Some t, rs)"
      using turn by (simp add: idle_stream_def)
    show "store_reachable (ws_store ?y)" by (simp add: idle_stream_def one_key_reachable)
    show "compact_revision (ws_store ?y) < wc_start_revision all_watch \<or> wc_start_revision all_watch \<le> 0"
      by (simp add: idle_stream_def one_key_eq all_watch_def)
  qed (simp_all add: idle_stream_def assigned_id_def all_watch_def watch_start_def)
  then have "delivered 1 rs = expected (create_handle all_watch 1 2) 2 2 (sent one_key)"
    by (simp add: idle_stream_def first_revision_def all_watch_def one_key_eq delivered_def)
  with turn show ?thesis
    by (simp add: expected_def one_key_eq watch_events_def wh_matches_def create_handle_def
        all_watch_def watch_filter_def)
qed

text \<open>A watch that asks for a compacted revision is refused: the only answer is a cancellation that
  names the compaction revision, and the stream's watches are as before.\<close>
theorem watch_compacted_refused:
  assumes "0 < wc_start_revision cr" "wc_start_revision cr \<le> compact_revision s"
  shows "watch_turn (Inbound (CreateRequest cr)) s t =
    (Some (bump_id cr t),
     [WatchResponse_default\<lparr>wa_watch_id := assigned_id cr t, wa_canceled := True,
        wa_compact_revision := compact_revision s, wa_cancel_reason := compacted_reason\<rparr>])
    \<and> handles (bump_id cr t) = handles t"
  using assms by (simp add: watch_turn_def watch_message_def watch_create_def bump_id_def Let_def)

theorem watch_compacted_refused_witness:
  "watch_turn (Inbound (CreateRequest all_watch)) (snd (compact 2 one_key)) watch_start =
    (Some (bump_id all_watch watch_start),
     [WatchResponse_default\<lparr>wa_watch_id := assigned_id all_watch watch_start, wa_canceled := True,
        wa_compact_revision := compact_revision (snd (compact 2 one_key)),
        wa_cancel_reason := compacted_reason\<rparr>])
    \<and> handles (bump_id all_watch watch_start) = handles watch_start"
  by (rule watch_compacted_refused) (simp_all add: all_watch_def compact_def one_key_eq Let_def)

text \<open>Silence after the end: when a watch is cancelled by its client, or all of them by a lag of
  the broadcast channel, each cancelled watch is told once, and no later batch produces a response
  for it.\<close>
theorem watch_ended_silent:
  "watch_turn (Inbound (CancelRequest wid)) s t =
      (Some (fst (watch_cancel wid t)), [WatchResponse_default\<lparr>wa_watch_id := wid, wa_canceled := True\<rparr>])
   \<and> delivered wid (snd (watch_turn (Batch b) s (fst (watch_cancel wid t)))) = []
   \<and> map wa_watch_id (snd (watch_turn (Lagged n) s t)) = map wh_id (handles t)
   \<and> list_all wa_canceled (snd (watch_turn (Lagged n) s t))
   \<and> snd (watch_turn (Batch b) s (fst (watch_lagged t))) = []"
proof -
  have "filter (\<lambda>h. wh_id h = wid) (handles (fst (watch_cancel wid t))) = []"
    by (simp add: watch_cancel_def filter_empty_conv)
  then have "delivered wid (snd (watch_turn (Batch b) s (fst (watch_cancel wid t)))) = []"
    using fan_out_own(2) [of wid b "handles (fst (watch_cancel wid t))"]
    by (simp add: watch_turn_def watch_batch_fan_out delivered_def)
  then show ?thesis
    by (simp add: watch_turn_def watch_message_def watch_cancel_def watch_lagged_def watch_batch_def
        list_all_iff o_def)
qed

text \<open>An event is delivered to a handle exactly when its key lies in the watched interval and its
  kind is not filtered out, for the two filters the protocol defines.\<close>
theorem watch_match_iff:
  assumes "set (wc_filters cr) \<subseteq> {0, 1}"
  shows "wh_matches (create_handle cr wid d) et kv \<longleftrightarrow>
    in_range (wc_key cr) (wc_range_end cr) (key kv)
    \<and> \<not> (et = 0 \<and> 0 \<in> set (wc_filters cr)) \<and> \<not> (et = 1 \<and> 1 \<in> set (wc_filters cr))"
  using watch_filter_bits [OF assms] by (auto simp: wh_matches_def create_handle_def in_range_def)

theorem watch_match_iff_witness:
  "\<not> wh_matches (create_handle (all_watch\<lparr>wc_filters := [1]\<rparr>) 1 0) 1
      \<lparr>key = [5], val = [], create_revision = 2, mod_revision = 3, version = 0, lease = 0\<rparr>"
  using watch_match_iff [of "all_watch\<lparr>wc_filters := [1]\<rparr>" 1 0 1
      "\<lparr>key = [5], val = [], create_revision = 2, mod_revision = 3, version = 0, lease = 0\<rparr>"]
  by simp

text \<open>A start revision in the future is not honoured: the very next put is delivered to the watch
  although its revision lies below the one the client asked for.\<close>
theorem watch_future_start_early:
  assumes "store_reachable s" "revision s + 1 < wc_start_revision cr" "revision s < i64_max"
    and "compact_revision s < wc_start_revision cr" "wc_filters cr = []"
    and "in_range (wc_key cr) (wc_range_end cr) k"
    and "watch_turn (Inbound (CreateRequest cr)) s watch_start = (Some t, rs)"
  shows "\<exists>evs. evs \<noteq> [] \<and>
    snd (watch_turn (Batch (last (sent (snd (put k v lid w iv il s))))) (snd (put k v lid w iv il s)) t) =
      [event_response (assigned_id cr watch_start) (revision s + 1) evs]"
proof -
  have pos: "0 < wc_start_revision cr"
    using assms(2) store_reachable_inv [OF assms(1)] by (simp add: store_inv_def hist_ok_def)
  let ?h = "create_handle cr (assigned_id cr watch_start) (revision s)"
  have t: "handles t = [?h]"
    using assms(7) pos assms(4)
    by (auto simp: watch_turn_def watch_message_def watch_create_def bump_id_def watch_start_def Let_def
        split: if_splits)
  have "wh_matches ?h 0 (put_kv k v lid iv il s)"
    using assms(5,6) by (simp add: wh_matches_def create_handle_def watch_filter_def in_range_def)
  then have ev: "watch_events ?h [put_event k v lid iv il s] \<noteq> []"
    by (simp add: watch_events_def put_event_def)
  have "wh_delivered_through ?h = revision s" "wh_id ?h = assigned_id cr watch_start"
    by (simp_all add: create_handle_def)
  with ev assms(3) show ?thesis
    by (intro exI [of _ "watch_events ?h [put_event k v lid iv il s]"])
       (simp add: watch_turn_def watch_batch_fan_out t store_simps fan_out_single del: fan_out.simps)
qed

theorem watch_future_start_early_witness:
  "\<exists>t rs evs. watch_turn (Inbound (CreateRequest (all_watch\<lparr>wc_start_revision := 100\<rparr>))) one_key watch_start
      = (Some t, rs)
    \<and> snd (watch_turn (Batch (last (sent (snd (put [9] [1] 0 False False False one_key)))))
        (snd (put [9] [1] 0 False False False one_key)) t) = [event_response 1 3 evs]"
proof -
  let ?cr = "all_watch\<lparr>wc_start_revision := 100\<rparr>"
  obtain t rs where turn: "watch_turn (Inbound (CreateRequest ?cr)) one_key watch_start = (Some t, rs)"
    by (cases "watch_create ?cr one_key watch_start") (simp add: watch_turn_def watch_message_def)
  have "\<exists>evs. evs \<noteq> [] \<and>
    snd (watch_turn (Batch (last (sent (snd (put [9] [1] 0 False False False one_key)))))
        (snd (put [9] [1] 0 False False False one_key)) t) =
      [event_response (assigned_id ?cr watch_start) (revision one_key + 1) evs]"
    by (rule watch_future_start_early [OF one_key_reachable _ one_key_room _ _ _ turn])
       (simp_all add: one_key_eq all_watch_def in_range_def)
  with turn show ?thesis by (auto simp: assigned_id_def all_watch_def watch_start_def one_key_eq)
qed

end
