(* ===== verification/Clockstep.thy ===== *)
theory Clockstep
  imports Rust_Str
begin

text \<open>
  The time poke: \<open>kubenyx-snap\<close> sends it after a restore (\<open>send_time_pokes\<close>), and the daemon of
  \<open>kubenyx-clockstep\<close> decodes it and steps the guest's clock. Little-endian encoding is written
  out; the millisecond arithmetic is \<open>i64\<close> arithmetic of the release profile and wraps.
\<close>

section \<open>Little-endian integers\<close>

fun le_bytes :: "nat \<Rightarrow> int \<Rightarrow> bytes" where
  "le_bytes 0 x = []"
| "le_bytes (Suc n) x = word_of_int x # le_bytes n (x div 256)"

fun le_uint :: "bytes \<Rightarrow> int" where
  "le_uint [] = 0"
| "le_uint (b # bs) = uint b + 256 * le_uint bs"

text \<open>\<open>from_le_bytes\<close> of a signed type as wide as the bytes.\<close>

definition le_sint :: "bytes \<Rightarrow> int" where
  "le_sint bs = (let v = le_uint bs; m = 256 ^ length bs in if 2 * v < m then v else v - m)"

lemma length_le_bytes [simp]: "length (le_bytes n x) = n"
  by (induction n arbitrary: x) simp_all

lemma le_uint_le_bytes: "le_uint (le_bytes n x) = x mod 256 ^ n"
proof (induction n arbitrary: x)
  case (Suc n)
  have "x mod (256 * 256 ^ n) = 256 * (x div 256 mod 256 ^ n) + x mod 256"
    by (rule zmod_zmult2_eq) simp
  with Suc show ?case by (simp add: uint_word_of_int_eq take_bit_eq_mod mult.commute)
qed simp

lemma le_sint_le_bytes:
  assumes "- (256 ^ n) \<le> 2 * x" "2 * x < 256 ^ n"
  shows "le_sint (le_bytes n x) = x"
proof (cases "0 \<le> x")
  case True
  with assms have "x mod 256 ^ n = x" by simp
  with assms show ?thesis by (simp add: le_sint_def le_uint_le_bytes Let_def)
next
  case False
  have "x mod 256 ^ n = (x + 256 ^ n) mod 256 ^ n" by simp
  also have "\<dots> = x + 256 ^ n" using False assms by (intro mod_pos_pos_trivial) auto
  finally show ?thesis using False assms by (simp add: le_sint_def le_uint_le_bytes Let_def)
qed

section \<open>The sender\<close>

definition MAGIC :: bytes where
  "MAGIC = bytes_of ''KNXT1''"

text \<open>
  \<open>send_time_pokes\<close>: the datagram for a wall-clock time of \<open>secs\<close> seconds and \<open>nanos\<close> nanoseconds
  (\<open>as i64\<close> and \<open>as i32\<close> reinterpret the bits).
\<close>

definition poke_packet :: "int \<Rightarrow> int \<Rightarrow> bytes" where
  "poke_packet secs nanos = MAGIC @ le_bytes 8 (wrap_i64 secs) @ le_bytes 4 nanos"

text \<open>Times in nanoseconds since the epoch, and a clock's reading of one.\<close>

definition clock_reading :: "int \<Rightarrow> int \<times> int" where
  "clock_reading t = (t div 1000000000, t mod 1000000000)"

definition poke_at :: "int \<Rightarrow> bytes" where
  "poke_at t = (case clock_reading t of (secs, nanos) \<Rightarrow> poke_packet secs nanos)"

text \<open>The datagrams of one \<open>send_time_pokes\<close>; \<open>host i\<close> is the host's clock in round \<open>i\<close>.\<close>

definition send_time_pokes :: "bool \<Rightarrow> nat \<Rightarrow> (nat \<Rightarrow> int) \<Rightarrow> bytes list" where
  "send_time_pokes bound count host = (if bound then map (\<lambda>i. poke_at (host i)) [0..<count] else [])"

section \<open>The daemon\<close>

record ClockCfg =
  ck_listen :: string
  ck_allow_from :: "string option"
  ck_min_step_ms :: int

definition clock_defaults :: ClockCfg where
  "clock_defaults = \<lparr>ck_listen = ''0.0.0.0:10123'', ck_allow_from = None, ck_min_step_ms = 500\<rparr>"

text \<open>The argument loop; \<^term>\<open>Inl\<close> is the message \<open>die\<close> prints before exiting with code 2.\<close>

fun clock_args :: "string list \<Rightarrow> ClockCfg \<Rightarrow> string + ClockCfg" where
  "clock_args [] cfg = Inr cfg"
| "clock_args (a # as) cfg =
     (if a = ''--listen'' then
        (case as of [] \<Rightarrow> Inl ''--listen needs a value''
                  | v # r \<Rightarrow> clock_args r (cfg\<lparr>ck_listen := v\<rparr>))
      else if a = ''--allow-from'' then
        (case as of [] \<Rightarrow> Inl ''--allow-from needs a value''
                  | v # r \<Rightarrow> clock_args r (cfg\<lparr>ck_allow_from := Some v\<rparr>))
      else if a = ''--min-step-ms'' then
        (case as of [] \<Rightarrow> Inl ''--min-step-ms needs an integer''
                  | v # r \<Rightarrow> (case parse_i64 v of
                      None \<Rightarrow> Inl ''--min-step-ms needs an integer''
                    | Some n \<Rightarrow> clock_args r (cfg\<lparr>ck_min_step_ms := n\<rparr>)))
      else Inl (''unknown flag '' @ a))"

text \<open>Integer division of Rust truncates towards zero.\<close>

definition quot :: "int \<Rightarrow> int \<Rightarrow> int" where
  "quot a b = (if a < 0 then - ((- a) div b) else a div b)"

definition delta_ms :: "int \<Rightarrow> int \<Rightarrow> int \<Rightarrow> int \<Rightarrow> int" where
  "delta_ms sec nsec now_sec now_nsec =
     wrap_i64 (wrap_i64 (wrap_i64 (sec - now_sec) * 1000)
       + quot (wrap_i64 (nsec - now_nsec)) 1000000)"

definition i64_abs :: "int \<Rightarrow> int" where
  "i64_abs x = wrap_i64 \<bar>x\<bar>"

text \<open>
  One round of the receive loop: the datagram (its first 64 bytes), the sender's address and the
  time \<open>clock_gettime\<close> reads. The result is the time handed to \<open>clock_settime\<close> with the reported
  step, or \<^term>\<open>None\<close> for a \<open>continue\<close>.
\<close>

definition clock_poke :: "ClockCfg \<Rightarrow> string \<Rightarrow> bytes \<Rightarrow> int \<times> int \<Rightarrow> (int \<times> int \<times> int) option" where
  "clock_poke cfg src datagram now =
     (let buf = take 64 datagram; n = length buf
      in if n < 17 \<or> take 5 buf \<noteq> MAGIC then None
         else if (case ck_allow_from cfg of None \<Rightarrow> False | Some allow \<Rightarrow> src \<noteq> allow) then None
         else
           (let sec = le_sint (take 8 (drop 5 buf)); nsec = le_sint (take 4 (drop 13 buf))
            in if \<not> (0 \<le> nsec \<and> nsec < 1000000000) \<or> sec \<le> 0 then None
               else
                 (let d = delta_ms sec nsec (fst now) (snd now)
                  in if i64_abs d < ck_min_step_ms cfg then None else Some (sec, nsec, d))))"

text \<open>A round with its effect on the guest's clock, and what it reports on the console; the flag says
  whether \<open>clock_settime\<close> succeeds.\<close>

datatype Recv = RecvError | Datagram string bytes

datatype ClockLog = Stepped int | StepFailed int

definition clock_turn :: "ClockCfg \<Rightarrow> bool \<Rightarrow> Recv \<Rightarrow> int \<Rightarrow> int \<times> ClockLog list" where
  "clock_turn cfg settime_ok recv t =
     (case recv of
        RecvError \<Rightarrow> (t, [])
      | Datagram src datagram \<Rightarrow>
          (case clock_poke cfg src datagram (clock_reading t) of
             None \<Rightarrow> (t, [])
           | Some (sec, nsec, d) \<Rightarrow>
               if settime_ok then (sec * 1000000000 + nsec, [Stepped d]) else (t, [StepFailed d])))"

text \<open>The receive loop over its rounds, each after some time has passed on the guest's clock.\<close>

fun clock_loop :: "ClockCfg \<Rightarrow> int \<Rightarrow> (int \<times> Recv \<times> bool) list \<Rightarrow> int \<times> ClockLog list" where
  "clock_loop cfg t [] = (t, [])"
| "clock_loop cfg t ((elapsed, recv, settime_ok) # rounds) =
     (let (t1, logs1) = clock_turn cfg settime_ok recv (t + elapsed);
          (t2, logs2) = clock_loop cfg t1 rounds
      in (t2, logs1 @ logs2))"

section \<open>Lemmas\<close>

lemma length_MAGIC [simp]: "length MAGIC = 5"
  by (simp add: MAGIC_def)

lemma packet_parts:
  "length (poke_packet s n) = 17" "take 64 (poke_packet s n) = poke_packet s n"
  "take 5 (poke_packet s n) = MAGIC" "take 8 (drop 5 (poke_packet s n)) = le_bytes 8 (wrap_i64 s)"
  "take 4 (drop 13 (poke_packet s n)) = le_bytes 4 n"
  by (simp_all add: poke_packet_def)

lemma packet_fields:
  assumes "0 < s" "s \<le> i64_max" "0 \<le> n" "n < 1000000000"
  shows "le_sint (le_bytes 8 (wrap_i64 s)) = s" "le_sint (le_bytes 4 n) = n"
  using assms by (simp_all add: le_sint_le_bytes i64_max_def i64_min_def)

lemma quot_rem:
  assumes "0 < b"
  shows "\<bar>a - b * quot a b\<bar> < b"
proof (cases "a < 0")
  case True
  have "a - b * quot a b = - ((- a) mod b)"
    using True minus_mult_div_eq_mod [of "- a" b] by (simp add: quot_def)
  with assms show ?thesis by simp
next
  case False
  with assms show ?thesis by (simp add: quot_def minus_mult_div_eq_mod)
qed

text \<open>The offset in milliseconds without overflow.\<close>

lemma delta_ms_exact:
  assumes "\<bar>sec - now_sec\<bar> \<le> 9000000000000000" "0 \<le> nsec" "nsec < 1000000000"
    and "0 \<le> now_nsec" "now_nsec < 1000000000"
  shows "delta_ms sec nsec now_sec now_nsec =
    (sec - now_sec) * 1000 + quot (nsec - now_nsec) 1000000"
proof -
  have "\<bar>quot (nsec - now_nsec) 1000000\<bar> \<le> 1000"
    using assms(2-5) by (auto simp: quot_def)
  with assms show ?thesis by (simp add: delta_ms_def i64_max_def i64_min_def)
qed

section \<open>Properties\<close>

text \<open>The sender and the daemon agree on the wire: a poke sent for any time from the epoch on is
  accepted from an allowed address and decoded to exactly that time; it steps the clock when the
  offset is at least the threshold and is ignored otherwise.\<close>
theorem poke_roundtrip:
  assumes "0 < s" "s \<le> i64_max" "0 \<le> n" "n < 1000000000"
    and "case ck_allow_from cfg of None \<Rightarrow> True | Some a \<Rightarrow> src = a"
  shows "clock_poke cfg src (poke_packet s n) now =
    (if i64_abs (delta_ms s n (fst now) (snd now)) < ck_min_step_ms cfg then None
     else Some (s, n, delta_ms s n (fst now) (snd now)))"
  using assms
  by (auto simp: clock_poke_def packet_parts packet_fields Let_def split: option.splits)

theorem poke_roundtrip_witness:
  "clock_poke clock_defaults ''10.100.0.1'' (poke_packet 1700000000 5) (1699999000, 0) =
    Some (1700000000, 5, 1000000)"
  using poke_roundtrip [where s = 1700000000 and n = 5 and cfg = clock_defaults and now = "(1699999000, 0)"]
  by (simp add: clock_defaults_def delta_ms_exact i64_abs_def quot_def i64_max_def i64_min_def)

text \<open>A poke is idempotent: once the clock reads the poked time, or any time at least a
  millisecond less than the threshold away from it, the same poke changes nothing, so the repeated pokes of a resume and
  pokes to a correctly clocked guest are no-ops.\<close>
theorem poke_settles:
  assumes "0 < s" "s \<le> i64_max" "0 \<le> n" "n < 1000000000"
    and "0 \<le> n'" "n' < 1000000000" "\<bar>s - s'\<bar> \<le> 9000000000000000"
    and "\<bar>(s - s') * 1000000000 + (n - n')\<bar> \<le> (ck_min_step_ms cfg - 1) * 1000000"
  shows "clock_poke cfg src (poke_packet s n) (s', n') = None"
proof -
  let ?d = "(s - s') * 1000 + quot (n - n') 1000000"
  have d: "delta_ms s n s' n' = ?d" using assms by (intro delta_ms_exact) simp_all
  have small: "\<bar>quot (n - n') 1000000\<bar> \<le> 1000" using assms(3-6) by (auto simp: quot_def)
  let ?x = "(s - s') * 1000000000 + (n - n')"
  let ?r = "n - n' - 1000000 * quot (n - n') 1000000"
  have "?d * 1000000 = ?x - ?r" by simp
  then have "\<bar>?d\<bar> * 1000000 \<le> \<bar>?x\<bar> + \<bar>?r\<bar>" by linarith
  moreover have "\<bar>?r\<bar> < 1000000" by (rule quot_rem) simp
  moreover have "a < m * k" if "a \<le> b + c" "c < k" "b \<le> (m - 1) * k" for a b c k m :: int
    using that by (simp add: left_diff_distrib)
  ultimately have "\<bar>?d\<bar> * 1000000 < ck_min_step_ms cfg * 1000000"
    using assms(8) by blast
  then have "\<bar>?d\<bar> < ck_min_step_ms cfg" by simp
  moreover have "i64_abs ?d = \<bar>?d\<bar>"
    using assms(7) small by (auto simp: i64_abs_def i64_max_def i64_min_def intro!: wrap_i64_id)
  ultimately show ?thesis
    using assms(1-4) d
    by (auto simp: clock_poke_def packet_parts packet_fields Let_def split: option.splits)
qed

theorem poke_settles_witness:
  "clock_poke clock_defaults ''10.100.0.1'' (poke_packet 1700000000 0) (1700000000, 499000000) = None"
  by (rule poke_settles) (simp_all add: clock_defaults_def i64_max_def)

section \<open>A restored guest\<close>

text \<open>
  Pokes on their way: each entry is the time the host read for one and its delay, so it arrives at their sum
  on the host's clock. The guest's clock runs at the host's rate, at some offset.
\<close>

fun arrivals :: "string \<Rightarrow> int \<Rightarrow> (int \<times> int) list \<Rightarrow> (int \<times> Recv \<times> bool) list" where
  "arrivals src host [] = []"
| "arrivals src host ((h, d) # ps) = (h + d - host, Datagram src (poke_at h), True) # arrivals src (h + d) ps"

definition poke_ok :: "ClockCfg \<Rightarrow> string \<Rightarrow> int \<Rightarrow> int \<times> int \<Rightarrow> bool" where
  "poke_ok cfg src D p \<longleftrightarrow>
     1000000000 \<le> fst p \<and> fst p \<le> i64_max * 1000000000 \<and> 0 \<le> snd p \<and> snd p \<le> D
     \<and> (case ck_allow_from cfg of None \<Rightarrow> True | Some a \<Rightarrow> src = a)"

lemma reading_range [simp]: "0 \<le> snd (clock_reading t)" "snd (clock_reading t) < 1000000000"
  by (simp_all add: clock_reading_def)

lemma reading_back [simp]: "fst (clock_reading t) * 1000000000 + snd (clock_reading t) = t"
  by (simp add: clock_reading_def)

text \<open>The rounding of the offset to milliseconds is below one of them.\<close>

lemma delta_of_times:
  fixes a t :: int
  defines "d \<equiv> delta_ms (fst (clock_reading a)) (snd (clock_reading a)) (fst (clock_reading t)) (snd (clock_reading t))"
  assumes "\<bar>a - t\<bar> \<le> 8000000000000000 * 1000000000"
  shows "\<bar>a - t - 1000000 * d\<bar> < 1000000 \<and> i64_abs d = \<bar>d\<bar>"
proof -
  obtain s n s' n' where r: "clock_reading a = (s, n)" "clock_reading t = (s', n')" by (metis surj_pair)
  have n: "0 \<le> n" "n < 1000000000" "0 \<le> n'" "n' < 1000000000"
    using reading_range [of a] reading_range [of t] by (simp_all add: r)
  have at: "a = s * 1000000000 + n" "t = s' * 1000000000 + n'"
    using reading_back [of a] reading_back [of t] by (simp_all add: r)
  have far: "\<bar>s - s'\<bar> \<le> 8000000000000001" using assms(2) n unfolding at by linarith
  have d: "d = (s - s') * 1000 + quot (n - n') 1000000"
    using far n by (simp add: d_def r delta_ms_exact)
  have small: "\<bar>quot (n - n') 1000000\<bar> \<le> 1000" using n by (auto simp: quot_def)
  have "\<bar>n - n' - 1000000 * quot (n - n') 1000000\<bar> < 1000000" by (rule quot_rem) simp
  moreover have "a - t - 1000000 * d = n - n' - 1000000 * quot (n - n') 1000000" by (simp add: at d algebra_simps)
  moreover have "i64_abs d = \<bar>d\<bar>"
    using far small unfolding d by (auto simp: i64_abs_def i64_max_def i64_min_def intro!: wrap_i64_id)
  ultimately show ?thesis by simp
qed

text \<open>One arrival: the clock is set to the poked time, which needs an offset above the threshold less the
  rounding, or it is left, and then is off by less than the threshold.\<close>

lemma turn_of_poke:
  assumes "poke_ok cfg src D (h, d)" "\<bar>h - t\<bar> \<le> 8000000000000000 * 1000000000"
  shows "(\<exists>x. clock_turn cfg True (Datagram src (poke_at h)) t = (h, [Stepped x])
        \<and> (ck_min_step_ms cfg - 1) * 1000000 < \<bar>h - t\<bar>)
    \<or> clock_turn cfg True (Datagram src (poke_at h)) t = (t, []) \<and> \<bar>h - t\<bar> < ck_min_step_ms cfg * 1000000"
proof -
  let ?h = "clock_reading h" and ?t = "clock_reading t"
  let ?d = "delta_ms (fst ?h) (snd ?h) (fst ?t) (snd ?t)"
  have h: "0 < fst ?h" "fst ?h \<le> i64_max"
    using assms(1) zdiv_mono1 [of h "i64_max * 1000000000" 1000000000]
    by (simp_all add: poke_ok_def clock_reading_def pos_imp_zdiv_pos_iff)
  have "clock_poke cfg src (poke_at h) ?t =
      (if i64_abs ?d < ck_min_step_ms cfg then None else Some (fst ?h, snd ?h, ?d))"
    unfolding poke_at_def case_prod_beta
    using h assms(1) by (intro poke_roundtrip) (simp_all add: poke_ok_def)
  moreover note delta_of_times [OF assms(2)]
  ultimately show ?thesis by (auto simp: clock_turn_def)
qed

lemma loop_arrival:
  "clock_loop cfg (host + off) (arrivals src host ((h, d) # ps)) =
     (case clock_turn cfg True (Datagram src (poke_at h)) (h + d + off) of (t1, logs1) \<Rightarrow>
        case clock_loop cfg t1 (arrivals src (h + d) ps) of (t2, logs2) \<Rightarrow> (t2, logs1 @ logs2))"
  by (simp add: Let_def add.commute)

lemma settled_loop:
  assumes "\<forall>p \<in> set ps. poke_ok cfg src D p" "D \<le> (ck_min_step_ms cfg - 1) * 1000000"
    and "D \<le> 1000000000000000 * 1000000000" "- D \<le> off" "off \<le> 0"
  shows "clock_loop cfg (host + off) (arrivals src host ps) = (last (host # map (\<lambda>(h, d). h + d) ps) + off, [])"
  using assms
proof (induction ps arbitrary: host)
  case (Cons p ps)
  obtain h d where p: "p = (h, d)" by force
  then have ok: "poke_ok cfg src D (h, d)" and dd: "0 \<le> d" "d \<le> D" using Cons.prems(1) by (auto simp: poke_ok_def)
  have near: "\<bar>h - (h + d + off)\<bar> \<le> D" using dd Cons.prems(4,5) by linarith
  then have "clock_turn cfg True (Datagram src (poke_at h)) (h + d + off) = (h + d + off, [])"
    using turn_of_poke [OF ok, of "h + d + off"] Cons.prems(2,3) by linarith
  with Cons show ?case by (simp add: p loop_arrival del: arrivals.simps(2))
qed simp

text \<open>C32: the pokes of a resume, as many of them as arrive, each within a delay of \<open>D\<close> and in any order,
  step a restored guest's clock at most once, however far it is behind or ahead, and leave it off by less than
  the threshold and \<open>D\<close> together. The delay has to be a millisecond below the threshold.\<close>
theorem pokes_settle_clock:
  assumes "ps \<noteq> []" "\<forall>p \<in> set ps. poke_ok cfg src D p" "D \<le> (ck_min_step_ms cfg - 1) * 1000000"
    and "D \<le> 1000000000000000 * 1000000000" "\<bar>off\<bar> \<le> 7000000000000000 * 1000000000"
  shows "\<exists>off' logs. clock_loop cfg (host + off) (arrivals src host ps) =
      (last (map (\<lambda>(h, d). h + d) ps) + off', logs)
    \<and> length logs \<le> 1 \<and> \<bar>off'\<bar> < ck_min_step_ms cfg * 1000000 + D"
  using assms
proof (induction ps arbitrary: host)
  case (Cons p ps)
  obtain h d where p: "p = (h, d)" by force
  then have ok: "poke_ok cfg src D (h, d)" and dd: "0 \<le> d" "d \<le> D" using Cons.prems(2) by (auto simp: poke_ok_def)
  have "\<bar>h - (h + d + off)\<bar> \<le> 8000000000000000 * 1000000000" using dd Cons.prems(4,5) by linarith
  from turn_of_poke [OF ok this] consider
      (step) x where "clock_turn cfg True (Datagram src (poke_at h)) (h + d + off) = (h, [Stepped x])"
    | (stay) "clock_turn cfg True (Datagram src (poke_at h)) (h + d + off) = (h + d + off, [])"
        "\<bar>h - (h + d + off)\<bar> < ck_min_step_ms cfg * 1000000" by blast
  then show ?case
  proof cases
    case step
    have "clock_loop cfg h (arrivals src (h + d) ps) = (last ((h + d) # map (\<lambda>(h, d). h + d) ps) - d, [])"
      using settled_loop [of ps cfg src D "- d" "h + d"] Cons.prems dd by simp
    with step Cons.prems(3) dd show ?thesis
      by (intro exI [of _ "- d"] exI [of _ "[Stepped x]"]) (simp add: p loop_arrival del: arrivals.simps(2))
  next
    case stay
    show ?thesis
    proof (cases "ps = []")
      case True
      moreover have "\<bar>off\<bar> < ck_min_step_ms cfg * 1000000 + D" using stay(2) dd by linarith
      ultimately show ?thesis using stay(1)
        by (intro exI [of _ off] exI [of _ "[]"]) (simp add: p loop_arrival del: arrivals.simps(2))
    next
      case False
      with Cons.IH [of "h + d"] Cons.prems obtain off' logs where
        "clock_loop cfg (h + d + off) (arrivals src (h + d) ps) = (last (map (\<lambda>(h, d). h + d) ps) + off', logs)"
        "length logs \<le> 1" "\<bar>off'\<bar> < ck_min_step_ms cfg * 1000000 + D" by auto
      with stay(1) False show ?thesis
        by (intro exI [of _ off'] exI [of _ logs]) (simp add: p loop_arrival del: arrivals.simps(2))
    qed
  qed
qed simp

theorem pokes_settle_clock_witness:
  "\<exists>off' logs. clock_loop clock_defaults 1600000000000000000
      (arrivals ''10.100.0.1'' 1700000000000000000 [(1700000000000000000, 3000000), (1700000000020000000, 1000000)]) =
      (1700000000021000000 + off', logs)
    \<and> length logs \<le> 1 \<and> \<bar>off'\<bar> < 503000000"
  using pokes_settle_clock [of "[(1700000000000000000, 3000000), (1700000000020000000, 1000000)]" clock_defaults
      "''10.100.0.1''" 3000000 "- 100000000000000000" 1700000000000000000]
  by (simp add: clock_defaults_def poke_ok_def i64_max_def)

end
