(* ===== verification/Dispatch.thy ===== *)
theory Dispatch
  imports Rust_Str
begin

text \<open>
  The multicall binary, \<open>kubenyx/src/main.rs\<close>: which tool runs with which arguments. The tools
  themselves are the argument \<open>tools\<close> of \<open>run_verb\<close> (the \<open>run\<close> functions of the library crates,
  by verb); \<open>unreachable!\<close> is the outcome \<^term>\<open>None\<close>.
\<close>

section \<open>Routing\<close>

definition VERBS :: "(string \<times> string) list" where
  "VERBS =
     [(''snap'', ''kubenyx-snap''),
      (''pki'', ''kubenyx-pki''),
      (''ready'', ''kubenyx-ready''),
      (''clockstep'', ''kubenyx-clockstep''),
      (''lb'', ''kubenyx-lb''),
      (''etcd-mem'', ''etcd-mem'')]"

definition verb_for_argv0 :: "string \<Rightarrow> string option" where
  "verb_for_argv0 basename = map_option fst (List.find (\<lambda>(_, legacy). legacy = basename) VERBS)"

definition is_verb :: "string \<Rightarrow> bool" where
  "is_verb word \<longleftrightarrow> list_ex (\<lambda>(verb, _). verb = word) VERBS"

definition usage :: string where
  "usage = ''usage: kubenyx <verb> [args...]'' @ [CHR 0x0A] @ ''verbs: ''
     @ join '' | '' (map fst VERBS) @ [CHR 0x0A]
     @ ''Also callable through the legacy names ('' @ join '', '' (map snd VERBS)
     @ '') via argv[0].''"

datatype Route = Run string "string list" | Help | Usage

definition route :: "string \<Rightarrow> string list \<Rightarrow> Route" where
  "route argv0 rest =
     (case verb_for_argv0 (last_piece (CHR ''/'') argv0) of
        Some verb \<Rightarrow> Run verb rest
      | None \<Rightarrow>
          (case rest of
             [] \<Rightarrow> Usage
           | word # args \<Rightarrow>
               if word = ''--help'' \<or> word = ''-h'' then Help
               else if is_verb word then Run word args
               else Usage))"

definition run_verb ::
  "bool \<Rightarrow> (string \<Rightarrow> string list \<Rightarrow> int) \<Rightarrow> string \<Rightarrow> string list \<Rightarrow> int option" where
  "run_verb lb_feature tools verb args =
     (if verb \<in> {''snap'', ''pki'', ''ready'', ''clockstep'', ''etcd-mem''} then Some (tools verb args)
      else if verb = ''lb'' then (if lb_feature then Some (tools ''lb'' args) else Some 2)
      else None)"

text \<open>The exit code of the process.\<close>

definition main_exit ::
  "bool \<Rightarrow> (string \<Rightarrow> string list \<Rightarrow> int) \<Rightarrow> string list \<Rightarrow> int option" where
  "main_exit lb_feature tools argv =
     (let argv0 = (case argv of [] \<Rightarrow> [] | a # _ \<Rightarrow> a); rest = tl argv
      in case route argv0 rest of
           Run verb args \<Rightarrow> run_verb lb_feature tools verb args
         | Help \<Rightarrow> Some 0
         | Usage \<Rightarrow> Some 2)"

section \<open>Lemmas\<close>

lemma last_piece_path: "CHR ''/'' \<notin> set b \<Longrightarrow> last_piece (CHR ''/'') (d @ CHR ''/'' # b) = b"
proof -
  assume "CHR ''/'' \<notin> set b"
  then have "takeWhile (\<lambda>x. x \<noteq> CHR ''/'') (rev b @ CHR ''/'' # rev d) = rev b"
    by (subst takeWhile_append2) auto
  then show ?thesis by (simp add: last_piece_def)
qed

lemma last_piece_plain: "CHR ''/'' \<notin> set b \<Longrightarrow> last_piece (CHR ''/'') b = b"
  unfolding last_piece_def by (subst takeWhile_eq_all_conv [THEN iffD2]) auto

lemma verbs_table:
  assumes "(v, l) \<in> set VERBS"
  shows "verb_for_argv0 l = Some v" "is_verb v" "v \<noteq> ''--help''" "v \<noteq> ''-h''" "CHR ''/'' \<notin> set l"
  using assms by (auto simp: VERBS_def verb_for_argv0_def is_verb_def)

lemma route_verb: "route argv0 rest = Run v args \<Longrightarrow> v \<in> fst ` set VERBS"
  by (auto simp: route_def verb_for_argv0_def is_verb_def VERBS_def split: option.splits list.splits if_splits)

section \<open>Properties\<close>

text \<open>C33: a tool is reached the same way through its legacy name (at any path) and as a verb of the
  multicall binary (under any name that is not itself a legacy name), with the same arguments.\<close>
theorem multicall_equivalence:
  assumes "(v, legacy) \<in> set VERBS" "verb_for_argv0 (last_piece (CHR ''/'') argv0) = None"
  shows "route (dir @ CHR ''/'' # legacy) args = Run v args
    \<and> route legacy args = Run v args
    \<and> route argv0 (v # args) = Run v args"
  using assms verbs_table [OF assms(1)]
  by (simp add: route_def last_piece_path last_piece_plain)

theorem multicall_equivalence_witness:
  "route (''/run/current-system/sw/bin'' @ CHR ''/'' # ''kubenyx-pki'') [''server''] = Run ''pki'' [''server'']
    \<and> route ''kubenyx-pki'' [''server''] = Run ''pki'' [''server'']
    \<and> route ''./kubenyx'' (''pki'' # [''server'']) = Run ''pki'' [''server'']"
  by (rule multicall_equivalence) (simp_all add: VERBS_def verb_for_argv0_def last_piece_def)

text \<open>The dispatcher is total: for every command line the process has an exit code, that of the
  tool routed to, 0 for help and 2 for anything else; the \<open>unreachable!\<close> arm is never taken.\<close>
theorem dispatch_total:
  "(case route (case argv of [] \<Rightarrow> [] | a # _ \<Rightarrow> a) (tl argv) of
      Run v args \<Rightarrow> main_exit lb tools argv = Some (if v = ''lb'' \<and> \<not> lb then 2 else tools v args)
    | Help \<Rightarrow> main_exit lb tools argv = Some 0
    | Usage \<Rightarrow> main_exit lb tools argv = Some 2)"
proof (cases "route (case argv of [] \<Rightarrow> [] | a # _ \<Rightarrow> a) (tl argv)")
  case (Run v args)
  with route_verb [OF Run] show ?thesis
    by (auto simp: main_exit_def run_verb_def VERBS_def Let_def)
qed (simp_all add: main_exit_def Let_def)

end
