(* ===== verification/Lb.thy ===== *)
theory Lb
  imports Rust_Str "HOL-Library.Word"
begin

text \<open>
  The apiserver load balancer, \<open>kubenyx-lb/src/lib.rs\<close>: its configuration, the dial order of a
  connection, the health state of the backends and the forwarding loop. Name resolution, dialling
  and the probes' sockets are inputs: a probe is its outcome, a dial says which backends accept.
\<close>

section \<open>Configuration\<close>

record LbCfg =
  lc_listen :: string
  lc_backends :: "string list"
  lc_probe_interval :: nat
  lc_fail_threshold :: "32 word"
  lc_drain_timeout :: nat
  lc_dial_timeout :: nat
  lc_probe_http :: bool
  lc_probe_cert :: "string option"
  lc_probe_key :: "string option"

definition lb_defaults :: LbCfg where
  "lb_defaults =
     \<lparr>lc_listen = ''127.0.0.1:6444'', lc_backends = [], lc_probe_interval = 500,
      lc_fail_threshold = 3, lc_drain_timeout = 10000, lc_dial_timeout = 3000,
      lc_probe_http = False, lc_probe_cert = None, lc_probe_key = None\<rparr>"

definition bad_value :: "string \<Rightarrow> string \<Rightarrow> string" where
  "bad_value flag v = ''bad '' @ flag @ '' value '' @ v"

function lb_flags :: "string list \<Rightarrow> LbCfg \<Rightarrow> string + LbCfg" where
  "lb_flags [] cfg = Inr cfg"
| "lb_flags (flag # rest) cfg =
     (if flag = ''--probe-http'' then lb_flags rest (cfg\<lparr>lc_probe_http := True\<rparr>)
      else if flag \<in> {''--listen'', ''--backend'', ''--probe-interval-ms'', ''--fail-threshold'',
                      ''--drain-timeout-ms'', ''--dial-timeout-ms'', ''--probe-cert'', ''--probe-key''} then
        (case rest of
           [] \<Rightarrow> Inl (''missing value for '' @ flag)
         | v # r \<Rightarrow>
             if flag = ''--listen'' then lb_flags r (cfg\<lparr>lc_listen := v\<rparr>)
             else if flag = ''--backend'' then
               lb_flags r (cfg\<lparr>lc_backends := lc_backends cfg @ [v]\<rparr>)
             else if flag = ''--probe-cert'' then lb_flags r (cfg\<lparr>lc_probe_cert := Some v\<rparr>)
             else if flag = ''--probe-key'' then lb_flags r (cfg\<lparr>lc_probe_key := Some v\<rparr>)
             else if flag = ''--fail-threshold'' then
               (case parse_unsigned 32 v of
                  None \<Rightarrow> Inl (bad_value flag v)
                | Some n \<Rightarrow> lb_flags r (cfg\<lparr>lc_fail_threshold := of_nat n\<rparr>))
             else
               (case parse_unsigned 64 v of
                  None \<Rightarrow> Inl (bad_value flag v)
                | Some n \<Rightarrow>
                    lb_flags r
                      (if flag = ''--probe-interval-ms'' then cfg\<lparr>lc_probe_interval := n\<rparr>
                       else if flag = ''--drain-timeout-ms'' then cfg\<lparr>lc_drain_timeout := n\<rparr>
                       else cfg\<lparr>lc_dial_timeout := n\<rparr>)))
      else Inl (''unknown flag '' @ flag))"
  by pat_completeness auto
termination by (relation "measure (\<lambda>(as, _). length as)") (simp_all split: list.splits)

definition lb_parse_args :: "string list \<Rightarrow> string + LbCfg" where
  "lb_parse_args args =
     (case lb_flags args lb_defaults of
        Inl e \<Rightarrow> Inl e
      | Inr cfg \<Rightarrow>
          if lc_backends cfg = [] then Inl ''at least one --backend is required''
          else if lc_fail_threshold cfg = 0 then Inl ''--fail-threshold must be >= 1''
          else if (lc_probe_cert cfg = None) \<noteq> (lc_probe_key cfg = None)
               then Inl ''--probe-cert and --probe-key must be given together''
          else Inr cfg)"

section \<open>Backends\<close>

record Backend =
  be_spec :: string
  be_host :: string
  be_healthy :: bool
  be_fails :: "32 word"

text \<open>The host part of a backend, without the port and the brackets of an IPv6 literal.\<close>

definition backend_host :: "string \<Rightarrow> string" where
  "backend_host spec =
     trim_end_matches (CHR '']'') (trim_start_matches (CHR ''['')
       (case rsplit_once (CHR '':'') spec of None \<Rightarrow> spec | Some (h, _) \<Rightarrow> h))"

definition resolve_backend :: "string \<Rightarrow> Backend" where
  "resolve_backend spec =
     \<lparr>be_spec = spec, be_host = backend_host spec, be_healthy = False, be_fails = 0\<rparr>"

text \<open>\<open>pick_order\<close>: \<open>usize\<close> addition, then the remainder.\<close>

definition rotated :: "bool list \<Rightarrow> nat \<Rightarrow> nat list" where
  "rotated healthy cursor =
     map (\<lambda>i. (cursor + i) mod 2 ^ 64 mod length healthy) [0..<length healthy]"

definition pick_order :: "bool list \<Rightarrow> nat \<Rightarrow> nat list" where
  "pick_order healthy cursor =
     filter (\<lambda>i. healthy ! i = True) (rotated healthy cursor)
     @ filter (\<lambda>i. healthy ! i = False) (rotated healthy cursor)"

text \<open>
  \<open>handle\<close>: the shared cursor is read and advanced by one (a 64-bit atomic), then the backends are
  dialled in order until one accepts. The result is the one the connection is forwarded to, if any accepts
  and both sockets can be duplicated (\<open>cloned\<close>, the two \<open>try_clone\<close> calls); otherwise the client is dropped.
\<close>

definition lb_handle :: "Backend list \<Rightarrow> 64 word \<Rightarrow> (nat \<Rightarrow> bool) \<Rightarrow> bool \<Rightarrow> nat option \<times> 64 word" where
  "lb_handle backends cursor accepts cloned =
     (let healthy = map be_healthy backends;
          start = unat cursor mod length backends
      in (case List.find accepts (pick_order healthy start) of
            None \<Rightarrow> None
          | Some i \<Rightarrow> if cloned then Some i else None,
          cursor + 1))"

section \<open>Health\<close>

text \<open>The answer of a probe counts when the first read holds at least 12 bytes and status 200.\<close>

definition probe_request :: "string \<Rightarrow> string" where
  "probe_request host =
     ''GET /readyz HTTP/1.1'' @ [CHR 0x0D, CHR 0x0A] @ ''Host: '' @ host @ [CHR 0x0D, CHR 0x0A]
     @ ''Connection: close'' @ [CHR 0x0D, CHR 0x0A, CHR 0x0D, CHR 0x0A]"

definition probe_serving :: "string \<Rightarrow> bool" where
  "probe_serving answer \<longleftrightarrow> 12 \<le> length (take 64 answer) \<and> take 3 (drop 9 answer) = ''200''"

definition probe_timeout :: "nat \<Rightarrow> nat" where
  "probe_timeout interval = min (max interval 250) 1500"

datatype LbEvent = Readmit string | Ready string | Evict string "32 word"

definition sat_succ :: "32 word \<Rightarrow> 32 word" where
  "sat_succ x = (if x = - 1 then - 1 else x + 1)"

text \<open>The body of the loop over the backends, for the probe outcome \<open>ok\<close> of one backend.\<close>

definition health_one ::
  "32 word \<Rightarrow> bool \<Rightarrow> bool \<Rightarrow> Backend \<Rightarrow> Backend \<times> bool \<times> LbEvent list" where
  "health_one fail_threshold ever_ready ok b =
     (if ok then
        (b\<lparr>be_fails := 0, be_healthy := True\<rparr>, True,
         (if be_healthy b then [] else [Readmit (be_spec b)])
         @ (if ever_ready then [] else [Ready (be_spec b)]))
      else
        (let f = sat_succ (be_fails b);
             b' = b\<lparr>be_fails := be_fails b + 1\<rparr>
         in if fail_threshold \<le> f then
              (b'\<lparr>be_healthy := False\<rparr>, ever_ready,
               if be_healthy b then [Evict (be_spec b) f] else [])
            else (b', ever_ready, [])))"

fun health_round ::
  "32 word \<Rightarrow> bool \<Rightarrow> (Backend \<times> bool) list \<Rightarrow> Backend list \<times> bool \<times> LbEvent list" where
  "health_round th ready [] = ([], ready, [])"
| "health_round th ready ((b, ok) # bs) =
     (case health_one th ready ok b of (b', ready', ev) \<Rightarrow>
        (case health_round th ready' bs of (bs', ready'', ev') \<Rightarrow> (b' # bs', ready'', ev @ ev')))"

section \<open>Forwarding and draining\<close>

datatype ReadResult = Data bytes | Eof | Retry | ReadError

text \<open>
  \<open>pump\<close>: one entry per turn of its loop: what the read returned, how the write that follows ends
  (a failed \<open>write_all\<close> has written some prefix), and whether the drain deadline has passed. The
  result is the bytes written to the destination and whether the loop ended, in which case the
  write side of the destination and the read side of the source are shut down.
\<close>

datatype WriteResult = WriteOk | WriteFail nat

fun pump :: "(ReadResult \<times> WriteResult \<times> bool) list \<Rightarrow> bytes \<times> bool" where
  "pump [] = ([], False)"
| "pump ((r, w, expired) # rest) =
     (case r of
        Eof \<Rightarrow> ([], True)
      | Data bs \<Rightarrow>
          (case w of WriteOk \<Rightarrow> apfst (append bs) (pump rest) | WriteFail k \<Rightarrow> (take k bs, True))
      | Retry \<Rightarrow> if expired then ([], True) else pump rest
      | ReadError \<Rightarrow> ([], True))"

definition drain_expired :: "bool \<Rightarrow> nat \<Rightarrow> nat \<Rightarrow> bool" where
  "drain_expired draining elapsed_ms deadline_ms \<longleftrightarrow> draining \<and> deadline_ms \<le> elapsed_ms"

definition drain_deadline :: "nat \<Rightarrow> nat \<Rightarrow> nat" where
  "drain_deadline elapsed_ms drain_timeout = min (elapsed_ms + drain_timeout) (2 ^ 64 - 1)"

text \<open>The wait at the end of \<open>run\<close>: keep waiting while connections are open and time is left.\<close>

definition drain_waits :: "nat \<Rightarrow> nat \<Rightarrow> nat \<Rightarrow> bool" where
  "drain_waits active elapsed_ms deadline_ms \<longleftrightarrow>
     0 < active \<and> \<not> drain_expired True elapsed_ms deadline_ms"

section \<open>Dial order\<close>

lemma rotated_rotate:
  assumes "cursor < length h" "length h \<le> 2 ^ 63"
  shows "rotated h cursor = rotate cursor [0..<length h]"
proof (rule nth_equalityI)
  fix i
  assume "i < length (rotated h cursor)"
  then have i: "i < length h" by (simp add: rotated_def)
  with assms have "(cursor + i) mod 2 ^ 64 = cursor + i" by simp
  moreover have "(cursor + i) mod length h < length h" using i by (intro mod_less_divisor) auto
  ultimately show "rotated h cursor ! i = rotate cursor [0..<length h] ! i"
    using i by (simp add: rotated_def nth_rotate)
qed (simp add: rotated_def)

lemma pick_order_set:
  assumes "cursor < length h" "length h \<le> 2 ^ 63"
  shows "distinct (pick_order h cursor)" "set (pick_order h cursor) = {..<length h}"
  using rotated_rotate [OF assms] by (auto simp: pick_order_def)

lemma find_append: "List.find P (xs @ ys) = (case List.find P xs of None \<Rightarrow> List.find P ys | Some x \<Rightarrow> Some x)"
  by (induction xs) auto

lemma find_Some: "List.find P xs = Some x \<Longrightarrow> x \<in> set xs \<and> P x"
  by (auto simp: find_Some_iff)

lemma pick_order_find:
  assumes "cursor < length h" "length h \<le> 2 ^ 63"
  shows "List.find accepts (pick_order h cursor) = None \<longleftrightarrow> (\<forall>i < length h. \<not> accepts i)"
    and "List.find accepts (pick_order h cursor) = Some i \<Longrightarrow>
      i < length h \<and> accepts i \<and> ((\<exists>j < length h. accepts j \<and> h ! j) \<longrightarrow> h ! i)"
proof -
  have set: "set (pick_order h cursor) = {..<length h}" by (rule pick_order_set(2) [OF assms])
  have "set (rotated h cursor) = {..<length h}"
    by (subst rotated_rotate [OF assms]) (simp add: atLeast0LessThan)
  then have mem: "j \<in> set (filter (\<lambda>i. h ! i = True) (rotated h cursor)) \<longleftrightarrow> j < length h \<and> h ! j" for j
    by simp
  show "List.find accepts (pick_order h cursor) = None \<longleftrightarrow> (\<forall>i < length h. \<not> accepts i)"
    unfolding find_None_iff set by blast
  assume i: "List.find accepts (pick_order h cursor) = Some i"
  let ?up = "List.find accepts (filter (\<lambda>i. h ! i = True) (rotated h cursor))"
  have up: "?up = None \<or> ?up = Some i"
    using i unfolding pick_order_def find_append by (cases ?up) simp_all
  show "i < length h \<and> accepts i \<and> ((\<exists>j < length h. accepts j \<and> h ! j) \<longrightarrow> h ! i)"
  proof (intro conjI impI)
    show "i < length h" "accepts i" using find_Some [OF i] unfolding set by simp_all
    assume "\<exists>j < length h. accepts j \<and> h ! j"
    then have "?up \<noteq> None" using mem by (metis find_None_iff)
    with up have "?up = Some i" by blast
    then show "h ! i" using find_Some mem by metis
  qed
qed

section \<open>Health over time\<close>

text \<open>One backend under a sequence of probe outcomes, oldest first.\<close>

definition health_run :: "32 word \<Rightarrow> bool list \<Rightarrow> Backend \<Rightarrow> Backend" where
  "health_run th oks b = fold (\<lambda>ok b. fst (health_one th True ok b)) oks b"

definition trailing_failures :: "bool list \<Rightarrow> nat" where
  "trailing_failures oks = length (takeWhile Not (rev oks))"

lemma trailing_snoc [simp]:
  "trailing_failures (oks @ [ok]) = (if ok then 0 else Suc (trailing_failures oks))"
  by (simp add: trailing_failures_def)

lemma sat_succ_of_nat:
  "n + 1 < 2 ^ 32 \<Longrightarrow> unat (sat_succ (of_nat n)) = n + 1"
proof -
  assume n: "n + 1 < 2 ^ 32"
  have val: "unat (of_nat (n + 1) :: 32 word) = n + 1" using n by (simp only: unat_of_nat) simp
  have "(of_nat n :: 32 word) \<noteq> - 1"
  proof
    assume "(of_nat n :: 32 word) = - 1"
    then have "(of_nat (n + 1) :: 32 word) = 0" by simp
    with val show False by (simp only: unat_0)
  qed
  with val show ?thesis by (simp add: sat_succ_def add.commute)
qed

lemma health_run_state:
  assumes "th \<noteq> 0" "be_fails b = 0" "\<not> be_healthy b"
  shows "be_fails (health_run th oks b) = of_nat (trailing_failures oks)
    \<and> (be_healthy (health_run th oks b) \<longleftrightarrow> True \<in> set oks \<and> trailing_failures oks < unat th)"
proof (induction oks rule: rev_induct)
  case Nil
  with assms show ?case by (simp add: health_run_def trailing_failures_def)
next
  case (snoc ok oks)
  let ?b = "health_run th oks b" and ?n = "trailing_failures oks"
  have run: "health_run th (oks @ [ok]) b = fst (health_one th True ok ?b)" by (simp add: health_run_def)
  show ?case
  proof (cases ok)
    case True
    with assms(1) run show ?thesis by (simp add: health_one_def unat_gt_0)
  next
    case False
    have th: "unat th < 2 ^ 32" using unsigned_less [of th] by simp
    have fails: "be_fails (fst (health_one th True False ?b)) = of_nat (Suc ?n)"
      using snoc by (simp add: health_one_def Let_def add.commute)
    have "be_healthy (fst (health_one th True False ?b)) \<longleftrightarrow> True \<in> set oks \<and> Suc ?n < unat th"
    proof (cases "Suc ?n \<le> unat th")
      case True
      with th sat_succ_of_nat [of ?n] have "unat (sat_succ (of_nat ?n)) = Suc ?n" by simp
      then have "th \<le> sat_succ (of_nat ?n) \<longleftrightarrow> unat th \<le> Suc ?n" by (simp add: word_le_nat_alt)
      with True snoc show ?thesis by (auto simp: health_one_def Let_def)
    next
      case False
      with snoc show ?thesis by (auto simp: health_one_def Let_def)
    qed
    with False fails run show ?thesis by simp
  qed
qed

fun is_ready_event :: "LbEvent \<Rightarrow> bool" where
  "is_ready_event (Ready s) = True"
| "is_ready_event _ = False"

lemma health_one_ready:
  "health_one th r ok b = (b', r', ev) \<Longrightarrow>
     r' = (r \<or> ok) \<and> filter is_ready_event ev = (if ok \<and> \<not> r then [Ready (be_spec b)] else [])"
  by (auto simp: health_one_def Let_def split: if_splits)

lemma health_round_ready:
  "health_round th r items = (bs, r', ev) \<Longrightarrow>
     r' = (r \<or> (\<exists>i \<in> set items. snd i))
     \<and> filter is_ready_event ev =
        (if r then [] else case List.find snd items of None \<Rightarrow> [] | Some (b, _) \<Rightarrow> [Ready (be_spec b)])"
proof (induction th r items arbitrary: bs r' ev rule: health_round.induct)
  case (2 th r b ok items)
  obtain b1 r1 e1 where one: "health_one th r ok b = (b1, r1, e1)" by (metis prod_cases3)
  obtain bs2 r2 e2 where rest: "health_round th r1 items = (bs2, r2, e2)" by (metis prod_cases3)
  from 2 one rest have "r' = r2" "ev = e1 @ e2" by auto
  with health_one_ready [OF one] 2(1) [OF one [symmetric] refl rest] show ?case by auto
qed simp

section \<open>Properties\<close>

text \<open>The dial order tries every backend exactly once, all healthy ones before any unhealthy one,
  each group in rotation from the cursor.\<close>
theorem pick_order_healthy_first:
  assumes "cursor < length h" "length h \<le> 2 ^ 63"
  shows "distinct (pick_order h cursor) \<and> set (pick_order h cursor) = {..<length h}
    \<and> pick_order h cursor =
        filter (\<lambda>i. h ! i) (rotate cursor [0..<length h])
        @ filter (\<lambda>i. \<not> h ! i) (rotate cursor [0..<length h])"
  using pick_order_set [OF assms] rotated_rotate [OF assms] by (simp add: pick_order_def)

theorem pick_order_healthy_first_witness:
  "distinct (pick_order [True, False, True] 2)
   \<and> set (pick_order [True, False, True] 2) = {..<length [True, False, True]}
   \<and> pick_order [True, False, True] 2 =
     filter (\<lambda>i. [True, False, True] ! i) (rotate 2 [0..<length [True, False, True]])
     @ filter (\<lambda>i. \<not> [True, False, True] ! i) (rotate 2 [0..<length [True, False, True]])"
  by (rule pick_order_healthy_first) simp_all

text \<open>C28: a connection is dropped exactly when every backend refuses it or its sockets cannot be duplicated;
  otherwise it goes to a backend that accepts, and to a healthy one whenever a healthy one accepts.\<close>
theorem handle_serves:
  assumes "backends \<noteq> []" "length backends \<le> 2 ^ 63"
  shows "(fst (lb_handle backends c accepts cloned) = None \<longleftrightarrow> (\<forall>i < length backends. \<not> accepts i) \<or> \<not> cloned)
    \<and> (\<forall>i. fst (lb_handle backends c accepts cloned) = Some i \<longrightarrow>
          i < length backends \<and> accepts i
          \<and> ((\<exists>j < length backends. accepts j \<and> be_healthy (backends ! j)) \<longrightarrow> be_healthy (backends ! i)))"
proof -
  let ?h = "map be_healthy backends" and ?s = "unat c mod length backends"
  have lt: "?s < length ?h" "length ?h \<le> 2 ^ 63" using assms by simp_all
  have "fst (lb_handle backends c accepts cloned) = (if cloned then List.find accepts (pick_order ?h ?s) else None)"
    by (simp add: lb_handle_def Let_def split: option.split)
  with pick_order_find [OF lt, of accepts] show ?thesis by (auto split: if_splits)
qed

theorem handle_serves_witness:
  "fst (lb_handle [resolve_backend ''10.0.0.1:6443'', (resolve_backend ''10.0.0.2:6443'')\<lparr>be_healthy := True\<rparr>] 0
     (\<lambda>i. True) True) \<noteq> None"
  using handle_serves [of "[resolve_backend ''10.0.0.1:6443'', (resolve_backend ''10.0.0.2:6443'')\<lparr>be_healthy := True\<rparr>]"
      0 "\<lambda>i. True" True] by auto

text \<open>Round robin: with every backend healthy and accepting, as many successive connections as
  there are backends go to each of them exactly once, in rotation (while the 64-bit cursor does
  not wrap).\<close>
theorem round_robin:
  assumes "backends \<noteq> []" "length backends \<le> 2 ^ 63" "\<forall>b \<in> set backends. be_healthy b"
    and "unat c + length backends \<le> 2 ^ 64"
  shows "map (\<lambda>k. fst (lb_handle backends (c + of_nat k) (\<lambda>_. True) True)) [0..<length backends] =
    map Some (rotate (unat c mod length backends) [0..<length backends])"
proof (rule nth_equalityI)
  let ?n = "length backends"
  fix k
  assume "k < length (map (\<lambda>k. fst (lb_handle backends (c + of_nat k) (\<lambda>_. True) True)) [0..<?n])"
  then have k: "k < ?n" by simp
  have cursor: "unat (c + of_nat k) = unat c + k"
    using k assms(4) by (subst unat_add_lem [THEN iffD1]) (simp_all add: unat_of_nat)
  let ?s = "(unat c + k) mod ?n"
  have s: "?s < ?n" using assms(1) by simp
  have "map be_healthy backends = replicate ?n True"
    using assms(3) by (intro replicate_eqI) auto
  then have "pick_order (map be_healthy backends) ?s = rotate ?s [0..<?n]"
    using rotated_rotate [of ?s "map be_healthy backends"] s assms(2)
    by (auto simp: pick_order_def filter_empty_conv filter_id_conv)
  moreover have "rotate ?s [0..<?n] \<noteq> []" "hd (rotate ?s [0..<?n]) = ?s"
    using s assms(1) by (auto simp: hd_rotate_conv_nth)
  ultimately have "List.find (\<lambda>_. True) (pick_order (map be_healthy backends) ?s) = Some ?s"
    by (cases "rotate ?s [0..<?n]") auto
  then show "map (\<lambda>k. fst (lb_handle backends (c + of_nat k) (\<lambda>_. True) True)) [0..<?n] ! k =
      map Some (rotate (unat c mod ?n) [0..<?n]) ! k"
    using k cursor s by (simp add: lb_handle_def Let_def nth_rotate mod_add_left_eq)
qed simp

theorem round_robin_witness:
  "map (\<lambda>k. fst (lb_handle (replicate 3 ((resolve_backend ''a:1'')\<lparr>be_healthy := True\<rparr>)) (5 + of_nat k) (\<lambda>_. True) True))
     [0..<length (replicate 3 ((resolve_backend ''a:1'')\<lparr>be_healthy := True\<rparr>))] =
    map Some (rotate (unat (5 :: 64 word) mod length (replicate 3 ((resolve_backend ''a:1'')\<lparr>be_healthy := True\<rparr>)))
      [0..<length (replicate 3 ((resolve_backend ''a:1'')\<lparr>be_healthy := True\<rparr>))])"
  by (rule round_robin) simp_all

text \<open>C29: hysteresis: after any sequence of probes a backend counts as healthy exactly when some probe
  succeeded and fewer than the threshold have failed since the last success. This holds for any
  number of failures: the 32-bit counter may wrap without readmitting the backend.\<close>
theorem health_hysteresis:
  assumes "th \<noteq> 0"
  shows "be_healthy (health_run th oks (resolve_backend spec)) \<longleftrightarrow>
    True \<in> set oks \<and> trailing_failures oks < unat th"
  using health_run_state [OF assms] by (simp add: resolve_backend_def)

theorem health_hysteresis_witness:
  "be_healthy (health_run 3 [True, False, False] (resolve_backend ''a:1''))
   \<and> \<not> be_healthy (health_run 3 [True, False, False, False] (resolve_backend ''a:1''))"
  using health_hysteresis [of 3 "[True, False, False]" "''a:1''"]
    health_hysteresis [of 3 "[True, False, False, False]" "''a:1''"]
  by (simp add: trailing_failures_def)

text \<open>Readiness is announced once: a round announces READY exactly when none was announced before
  and a probe of the round succeeds, for the first such backend, and never again afterwards.\<close>
theorem ready_once:
  "case health_round th r items of (bs, r', ev) \<Rightarrow>
     r' = (r \<or> (\<exists>i \<in> set items. snd i))
     \<and> filter is_ready_event ev =
        (if r then [] else case List.find snd items of None \<Rightarrow> [] | Some (b, _) \<Rightarrow> [Ready (be_spec b)])"
proof -
  obtain bs r' ev where h: "health_round th r items = (bs, r', ev)" by (metis prod_cases3)
  from health_round_ready [OF h] h show ?thesis by simp
qed

theorem ready_once_witness:
  "case health_round 3 False [(resolve_backend ''a:1'', False), (resolve_backend ''b:1'', True)] of (bs, r', ev) \<Rightarrow>
     r' = (False \<or> (\<exists>i \<in> set [(resolve_backend ''a:1'', False), (resolve_backend ''b:1'', True)]. snd i))
     \<and> filter is_ready_event ev =
        (if False then [] else case List.find snd [(resolve_backend ''a:1'', False), (resolve_backend ''b:1'', True)] of
           None \<Rightarrow> [] | Some (b, _) \<Rightarrow> [Ready (be_spec b)])"
  by (rule ready_once)

text \<open>Forwarding keeps the stream: while writes succeed and the drain deadline has not passed, the
  bytes read are written unchanged and in order, idle polls add nothing, and the end of the input
  ends the loop.\<close>
theorem pump_forwards:
  assumes "\<forall>(r, w, expired) \<in> set turns. r \<noteq> Eof \<and> r \<noteq> ReadError \<and> w = WriteOk \<and> \<not> expired"
  shows "pump (turns @ (Eof, w, e) # rest) =
    (concat (map (\<lambda>(r, _). case r of Data bs \<Rightarrow> bs | _ \<Rightarrow> []) turns), True)"
  using assms by (induction turns) (auto split: ReadResult.splits)

theorem pump_forwards_witness:
  "pump ([(Data [1, 2], WriteOk, False), (Retry, WriteOk, False), (Data [3], WriteOk, False)] @ (Eof, WriteOk, False) # [])
    = ([1, 2, 3], True)"
  using pump_forwards [of "[(Data [1, 2], WriteOk, False), (Retry, WriteOk, False), (Data [3], WriteOk, False)]"
      WriteOk False "[]"] by simp

end
