(* ===== verification/Ready.thy ===== *)
theory Ready
  imports Rust_Str
begin

text \<open>
  \<open>kubenyx-ready/src/lib.rs\<close>: the wrapper that runs a control-plane component, probes its health endpoint
  and tells systemd when it is ready, and its \<open>--wait\<close> form that only probes; and the builder of
  \<open>kubenyx-tls/src/lib.rs\<close> for probes that do not verify the server. The TLS and PEM libraries, the files,
  the network and the child process are fields of the environments; what they answer over time is a
  function of the number of the probing round. A loop that never ends is \<^const>\<open>None\<close>.
\<close>

section \<open>TLS configurations\<close>

text \<open>A provider of cryptography is what it says about handshake signatures.\<close>

record CryptoProvider =
  cp_verify12 :: "bytes \<Rightarrow> bytes \<Rightarrow> bytes \<Rightarrow> bool"
  cp_verify13 :: "bytes \<Rightarrow> bytes \<Rightarrow> bytes \<Rightarrow> bool"
  cp_schemes :: "nat list"

record ServerVerifier =
  sv_server_cert :: "bytes \<Rightarrow> bytes list \<Rightarrow> string \<Rightarrow> bool"
  sv_tls12_signature :: "bytes \<Rightarrow> bytes \<Rightarrow> bytes \<Rightarrow> bool"
  sv_tls13_signature :: "bytes \<Rightarrow> bytes \<Rightarrow> bytes \<Rightarrow> bool"
  sv_schemes :: "nat list"

definition NoVerify :: "CryptoProvider \<Rightarrow> ServerVerifier" where
  "NoVerify provider =
     \<lparr>sv_server_cert = (\<lambda>end_entity intermediates server_name. True),
      sv_tls12_signature = (\<lambda>message cert dss. cp_verify12 provider message cert dss),
      sv_tls13_signature = (\<lambda>message cert dss. cp_verify13 provider message cert dss),
      sv_schemes = cp_schemes provider\<rparr>"

datatype Trust = Verifier ServerVerifier | RootCerts "bytes list"

record TlsConfig =
  tc_trust :: Trust
  tc_auth :: "(bytes list \<times> bytes) option"

definition insecure_client_builder :: "CryptoProvider \<Rightarrow> Trust" where
  "insecure_client_builder provider = Verifier (NoVerify provider)"

record TlsEnv =
  te_provider :: CryptoProvider
  te_read :: "string \<Rightarrow> bytes option"
  te_certs :: "bytes \<Rightarrow> bytes list option"
  te_key :: "bytes \<Rightarrow> bytes option"
  te_root_ok :: "bytes \<Rightarrow> bool"
  te_auth_ok :: "bytes list \<Rightarrow> bytes \<Rightarrow> bool"

definition load_pem_certs :: "TlsEnv \<Rightarrow> string \<Rightarrow> string + bytes list" where
  "load_pem_certs te path =
     (case te_read te path of
        None \<Rightarrow> Inl (''read '' @ path)
      | Some data \<Rightarrow> (case te_certs te data of None \<Rightarrow> Inl (''parse '' @ path) | Some cs \<Rightarrow> Inr cs))"

section \<open>The probe\<close>

record Probe =
  p_host :: string
  p_port :: "16 word"
  p_path :: string
  p_tls :: bool
  p_config :: "TlsConfig option"

definition server_trust :: "TlsEnv \<Rightarrow> string option \<Rightarrow> bool \<Rightarrow> string + Trust" where
  "server_trust te cacert insecure =
     (if insecure then Inr (insecure_client_builder (te_provider te))
      else case cacert of
             None \<Rightarrow> Inl ''https probe requires --cacert or --insecure''
           | Some ca \<Rightarrow>
               (case load_pem_certs te ca of
                  Inl e \<Rightarrow> Inl e
                | Inr cs \<Rightarrow> if list_all (te_root_ok te) cs then Inr (RootCerts cs) else Inl ''bad CA cert''))"

definition client_auth :: "TlsEnv \<Rightarrow> string option \<Rightarrow> string option \<Rightarrow> string + (bytes list \<times> bytes) option" where
  "client_auth te cert key =
     (case (cert, key) of
        (Some c, Some k) \<Rightarrow>
          (case load_pem_certs te c of
             Inl e \<Rightarrow> Inl e
           | Inr certs \<Rightarrow>
               (case te_read te k of
                  None \<Rightarrow> Inl (''read '' @ k)
                | Some data \<Rightarrow>
                    (case te_key te data of
                       None \<Rightarrow> Inl (''no private key in '' @ k)
                     | Some der \<Rightarrow> if te_auth_ok te certs der then Inr (Some (certs, der)) else Inl ''client auth'')))
      | _ \<Rightarrow> Inr None)"

definition tls_config :: "TlsEnv \<Rightarrow> string option \<Rightarrow> string option \<Rightarrow> string option \<Rightarrow> bool \<Rightarrow> string + TlsConfig" where
  "tls_config te cacert cert key insecure =
     (case server_trust te cacert insecure of
        Inl e \<Rightarrow> Inl e
      | Inr trust \<Rightarrow>
          (case client_auth te cert key of
             Inl e \<Rightarrow> Inl e
           | Inr auth \<Rightarrow> Inr \<lparr>tc_trust = trust, tc_auth = auth\<rparr>))"

definition split_scheme :: "string \<Rightarrow> string + (bool \<times> string)" where
  "split_scheme url =
     (case strip_prefix ''https://'' url of
        Some r \<Rightarrow> Inr (True, r)
      | None \<Rightarrow>
          (case strip_prefix ''http://'' url of
             Some r \<Rightarrow> Inr (False, r)
           | None \<Rightarrow> Inl (''unsupported URL '' @ url)))"

definition split_path :: "string \<Rightarrow> string \<times> string" where
  "split_path rest = (case split_once ''/'' rest of Some (h, p) \<Rightarrow> (h, ''/'' @ p) | None \<Rightarrow> (rest, ''/''))"

definition split_port :: "bool \<Rightarrow> string \<Rightarrow> string + (string \<times> 16 word)" where
  "split_port tls hostport =
     (case rsplit_once (CHR '':'') hostport of
        None \<Rightarrow> Inr (hostport, if tls then 443 else 80)
      | Some (h, p) \<Rightarrow>
          (case parse_unsigned 16 p of None \<Rightarrow> Inl ''bad port'' | Some n \<Rightarrow> Inr (h, word_of_nat n)))"

definition build_probe :: "TlsEnv \<Rightarrow> string \<Rightarrow> string option \<Rightarrow> string option \<Rightarrow> string option \<Rightarrow> bool \<Rightarrow> string + Probe" where
  "build_probe te url cacert cert key insecure =
     (case strip_prefix ''unix://'' url of
        Some path \<Rightarrow> Inr \<lparr>p_host = path, p_port = 0, p_path = [], p_tls = False, p_config = None\<rparr>
      | None \<Rightarrow>
          (case split_scheme url of
             Inl e \<Rightarrow> Inl e
           | Inr (tls, rest) \<Rightarrow>
               (case split_path rest of (hostport, path) \<Rightarrow>
                 (case split_port tls hostport of
                    Inl e \<Rightarrow> Inl e
                  | Inr (host, port) \<Rightarrow>
                      (case (if tls then map_sum id Some (tls_config te cacert cert key insecure) else Inr None) of
                         Inl e \<Rightarrow> Inl e
                       | Inr config \<Rightarrow>
                           Inr \<lparr>p_host = host, p_port = port, p_path = path, p_tls = tls, p_config = config\<rparr>)))))"

text \<open>What the network does to one probe: connections by address, TLS sessions, and the first read.\<close>

record Net =
  n_unix :: "string \<Rightarrow> bool"
  n_tcp :: "string \<Rightarrow> bool"
  n_name :: "string \<Rightarrow> bool"
  n_session :: "TlsConfig \<Rightarrow> string \<Rightarrow> bool"
  n_write :: "string \<Rightarrow> bool"
  n_read :: "string option"

definition ready_request :: "Probe \<Rightarrow> string" where
  "ready_request p =
     ''GET '' @ p_path p @ '' HTTP/1.1'' @ [CHR 0x0D, CHR 0x0A] @ ''Host: '' @ p_host p @ [CHR 0x0D, CHR 0x0A]
     @ ''Connection: close'' @ [CHR 0x0D, CHR 0x0A, CHR 0x0D, CHR 0x0A]"

definition exchange :: "Probe \<Rightarrow> Net \<Rightarrow> bool" where
  "exchange p net =
     (if \<not> n_write net (ready_request p) then False
      else case n_read net of
             None \<Rightarrow> False
           | Some data \<Rightarrow>
               let buf = take 64 data
               in 12 \<le> length buf \<and> take 3 (drop 9 buf) = ''200'')"

definition check :: "Probe \<Rightarrow> Net \<Rightarrow> string + bool" where
  "check p net =
     (if p_port p = 0 then Inr (n_unix net (p_host p))
      else if \<not> n_tcp net (p_host p @ '':'' @ show_nat (unat (p_port p))) then Inr False
      else if p_tls p then
        (case p_config p of
           None \<Rightarrow> Inl ''called Option::unwrap() on a None value''
         | Some config \<Rightarrow>
             if \<not> n_name net (p_host p) then Inl ''bad server name''
             else if \<not> n_session net config (p_host p) then Inr False
             else Inr (exchange p net))
      else Inr (exchange p net))"

section \<open>Readiness and exit status\<close>

datatype NotifyAddr = AbstractName string | SocketPath string

text \<open>Where the datagram goes, if it is sent: \<open>NOTIFY_SOCKET\<close>, whether a socket can be made, and which
  abstract names are valid.\<close>

definition sd_notify_ready :: "string option \<Rightarrow> bool \<Rightarrow> (string \<Rightarrow> bool) \<Rightarrow> NotifyAddr option" where
  "sd_notify_ready notify_socket unbound abstract_ok =
     (case notify_socket of
        None \<Rightarrow> None
      | Some sock_path \<Rightarrow>
          if \<not> unbound then None
          else case strip_prefix ''@'' sock_path of
                 Some name \<Rightarrow> if abstract_ok name then Some (AbstractName name) else None
               | None \<Rightarrow> Some (SocketPath sock_path))"

unbundle bit_operations_syntax

text \<open>A wait status as the kernel reports it: \<open>ExitStatus::code\<close> and \<open>ExitStatus::signal\<close>.\<close>

definition status_code :: "32 word \<Rightarrow> int option" where
  "status_code st = (if st AND 0x7F = 0 then Some (uint (drop_bit 8 st AND 0xFF)) else None)"

definition status_signal :: "32 word \<Rightarrow> int option" where
  "status_signal st =
     (if 2 \<le> sint (ucast ((st AND 0x7F) + 1) :: 8 word) then Some (uint (st AND 0x7F)) else None)"

definition exit_code :: "32 word \<Rightarrow> int" where
  "exit_code st =
     (case status_code st of
        Some c \<Rightarrow> c
      | None \<Rightarrow> 128 + (case status_signal st of Some s \<Rightarrow> s | None \<Rightarrow> 1))"

definition forward_signal :: "int \<Rightarrow> int \<Rightarrow> (int \<times> int) option" where
  "forward_signal child_pid sig = (if 0 < child_pid then Some (child_pid, sig) else None)"

section \<open>The two loops\<close>

text \<open>\<open>--wait\<close>: from round \<open>k\<close> on, until a probe succeeds (or dies on a bad name).\<close>

partial_function (option) wait_probe :: "(nat \<Rightarrow> string + bool) \<Rightarrow> nat \<Rightarrow> (string + unit) option" where
  "wait_probe probe k =
     (case probe k of
        Inl e \<Rightarrow> Some (Inl e)
      | Inr ok \<Rightarrow> if ok then Some (Inr ()) else wait_probe probe (Suc k))"

text \<open>The supervising loop up to its end: the child is gone, or a probe succeeded, or it died.\<close>

datatype Watched = ChildGone "32 word" | ProbedReady nat | ProbeDied string

partial_function (option) watch_child ::
  "(nat \<Rightarrow> 32 word option) \<Rightarrow> (nat \<Rightarrow> string + bool) \<Rightarrow> nat \<Rightarrow> Watched option" where
  "watch_child try_wait probe k =
     (case try_wait k of
        Some st \<Rightarrow> Some (ChildGone st)
      | None \<Rightarrow>
          (case probe k of
             Inl e \<Rightarrow> Some (ProbeDied e)
           | Inr ok \<Rightarrow> if ok then Some (ProbedReady k) else watch_child try_wait probe (Suc k)))"

section \<open>The command\<close>

record ReadyArgs =
  r_url :: "string option"
  r_cacert :: "string option"
  r_cert :: "string option"
  r_key :: "string option"
  r_insecure :: bool
  r_wait :: bool
  r_cmd :: "string list option"

definition no_args :: ReadyArgs where
  "no_args = \<lparr>r_url = None, r_cacert = None, r_cert = None, r_key = None, r_insecure = False, r_wait = False, r_cmd = None\<rparr>"

fun parse_args :: "ReadyArgs \<Rightarrow> string list \<Rightarrow> string + ReadyArgs" where
  "parse_args a [] = Inr a"
| "parse_args a (f # rest) =
     (if f = ''--url'' then
        (case rest of [] \<Rightarrow> Inl ''--url needs a value'' | v # rest' \<Rightarrow> parse_args (a\<lparr>r_url := Some v\<rparr>) rest')
      else if f = ''--cacert'' then
        (case rest of [] \<Rightarrow> Inl ''--cacert needs a value'' | v # rest' \<Rightarrow> parse_args (a\<lparr>r_cacert := Some v\<rparr>) rest')
      else if f = ''--cert'' then
        (case rest of [] \<Rightarrow> Inl ''--cert needs a value'' | v # rest' \<Rightarrow> parse_args (a\<lparr>r_cert := Some v\<rparr>) rest')
      else if f = ''--key'' then
        (case rest of [] \<Rightarrow> Inl ''--key needs a value'' | v # rest' \<Rightarrow> parse_args (a\<lparr>r_key := Some v\<rparr>) rest')
      else if f = ''--insecure'' then parse_args (a\<lparr>r_insecure := True\<rparr>) rest
      else if f = ''--wait'' then parse_args (a\<lparr>r_wait := True\<rparr>) rest
      else if f = ''--'' then Inr (a\<lparr>r_cmd := Some rest\<rparr>)
      else Inl (''unknown flag '' @ f))"

record ReadyHost =
  h_tls :: TlsEnv
  h_net :: "nat \<Rightarrow> Net"
  h_spawn :: "string \<Rightarrow> string list \<Rightarrow> bool"
  h_try_wait :: "nat \<Rightarrow> 32 word option"
  h_wait :: "nat \<Rightarrow> (string + 32 word) option"
  h_notify :: "string option"
  h_unbound :: bool
  h_abstract :: "string \<Rightarrow> bool"

datatype ReadyEffect =
    SpawnChild string "string list"
  | SendReady NotifyAddr
  | ExitWith int

definition die_ready :: "string \<Rightarrow> ReadyEffect list" where
  "die_ready msg = [ExitWith 2]"

definition notify :: "ReadyHost \<Rightarrow> ReadyEffect list" where
  "notify h =
     (case sd_notify_ready (h_notify h) (h_unbound h) (h_abstract h) of
        None \<Rightarrow> []
      | Some addr \<Rightarrow> [SendReady addr])"

text \<open>
  The end of a round that learnt something. After the notification the wrapper blocks in \<open>child.wait()\<close>, still
  inside the loop: \<open>h_wait h k = None\<close> says that this call never returns, and then the wrapper never exits and the
  list of its effects has no \<open>ExitWith\<close>.
\<close>

definition after_watch :: "ReadyHost \<Rightarrow> Watched \<Rightarrow> ReadyEffect list" where
  "after_watch h r =
     (case r of
        ChildGone st \<Rightarrow> [ExitWith (exit_code st)]
      | ProbeDied e \<Rightarrow> die_ready e
      | ProbedReady k \<Rightarrow>
          notify h @ (case h_wait h k of
                        None \<Rightarrow> []
                      | Some (Inl e) \<Rightarrow> die_ready (''wait: '' @ e)
                      | Some (Inr st) \<Rightarrow> [ExitWith (exit_code st)]))"

text \<open>The effects of the supervising loop, up to the exit of the wrapper or the wait that never returns;
  \<^const>\<open>None\<close> when it polls for ever.\<close>

definition supervise :: "ReadyHost \<Rightarrow> Probe \<Rightarrow> string \<Rightarrow> string list \<Rightarrow> ReadyEffect list option" where
  "supervise h p prog args =
     (if \<not> h_spawn h prog args then Some (die_ready (''spawn '' @ prog))
      else map_option (\<lambda>r. SpawnChild prog args # after_watch h r)
             (watch_child (h_try_wait h) (\<lambda>k. check p (h_net h k)) 0))"

definition wait_only :: "ReadyHost \<Rightarrow> Probe \<Rightarrow> ReadyEffect list option" where
  "wait_only h p =
     map_option (\<lambda>r. case r of Inl e \<Rightarrow> die_ready e | Inr _ \<Rightarrow> [ExitWith 0]) (wait_probe (\<lambda>k. check p (h_net h k)) 0)"

definition ready_run :: "ReadyHost \<Rightarrow> string list \<Rightarrow> ReadyEffect list option" where
  "ready_run h args =
     (case parse_args no_args args of
        Inl e \<Rightarrow> Some (die_ready e)
      | Inr a \<Rightarrow>
          (case r_url a of
             None \<Rightarrow> Some (die_ready ''--url is required'')
           | Some url \<Rightarrow>
               let probe = build_probe (h_tls h) url (r_cacert a) (r_cert a) (r_key a) (r_insecure a)
               in if r_wait a then
                    (if r_cmd a \<noteq> None then Some (die_ready ''--wait takes no -- command'')
                     else case probe of Inl e \<Rightarrow> Some (die_ready e) | Inr p \<Rightarrow> wait_only h p)
                  else
                    (case r_cmd a of
                       None \<Rightarrow> Some (die_ready ''missing -- command'')
                     | Some [] \<Rightarrow> Some (die_ready ''empty command after --'')
                     | Some (prog # cargs) \<Rightarrow>
                         (case probe of Inl e \<Rightarrow> Some (die_ready e) | Inr p \<Rightarrow> supervise h p prog cargs))))"

end
