(* ===== verification/Lb_Run.thy ===== *)
theory Lb_Run
  imports Lb Ready
begin

text \<open>
  The load balancer as a process: start-up, the health thread, the accept loop, one thread per connection and
  the drain, all of \<open>kubenyx-lb/src/lib.rs\<close> around the pure parts of \<open>Lb\<close>. The threads are a step relation:
  a step is one turn of the health thread, one visit of the accept loop, one stage of a connection's thread (its
  dial, the end of its forwarding, its exit), the passing of time, or the signal that begins the drain. Which connections arrive,
  what a dial or a probe meets, and the clock are inputs of the steps.
\<close>

section \<open>Probing\<close>

text \<open>\<open>tls_probe_config\<close>: \<^const>\<open>None\<close> until both files of the client certificate load.\<close>

definition lb_tls_config :: "TlsEnv \<Rightarrow> (string \<times> string) option \<Rightarrow> TlsConfig option" where
  "lb_tls_config te client_cert =
     (case client_cert of
        None \<Rightarrow> Some \<lparr>tc_trust = insecure_client_builder (te_provider te), tc_auth = None\<rparr>
      | Some (cert_path, key_path) \<Rightarrow>
          (case Option.bind (te_read te cert_path) (te_certs te) of
             None \<Rightarrow> None
           | Some certs \<Rightarrow>
               if certs = [] then None
               else case Option.bind (te_read te key_path) (te_key te) of
                      None \<Rightarrow> None
                    | Some key \<Rightarrow>
                        if te_auth_ok te certs key
                        then Some \<lparr>tc_trust = insecure_client_builder (te_provider te), tc_auth = Some (certs, key)\<rparr>
                        else None))"

definition lb_exchange :: "Backend \<Rightarrow> Net \<Rightarrow> bool" where
  "lb_exchange b net =
     (n_write net (probe_request (be_host b))
      \<and> (case n_read net of None \<Rightarrow> False | Some data \<Rightarrow> probe_serving (take 64 data)))"

definition lb_probe :: "Backend \<Rightarrow> string \<Rightarrow> TlsConfig option \<Rightarrow> Net \<Rightarrow> bool" where
  "lb_probe b addr tls net =
     (if \<not> n_tcp net addr then False
      else case tls of
             Some config \<Rightarrow> n_name net (be_host b) \<and> n_session net config (be_host b) \<and> lb_exchange b net
           | None \<Rightarrow> lb_exchange b net)"

record ProbePolicy =
  pp_interval :: nat
  pp_fail_threshold :: "32 word"
  pp_http :: bool
  pp_client_cert :: "(string \<times> string) option"

definition probe_policy :: "LbCfg \<Rightarrow> ProbePolicy" where
  "probe_policy cfg =
     \<lparr>pp_interval = lc_probe_interval cfg, pp_fail_threshold = lc_fail_threshold cfg, pp_http = lc_probe_http cfg,
      pp_client_cert = (case (lc_probe_cert cfg, lc_probe_key cfg) of (Some c, Some k) \<Rightarrow> Some (c, k) | _ \<Rightarrow> None)\<rparr>"

text \<open>What the health thread keeps between rounds.\<close>

record Health =
  he_with_cert :: "TlsConfig option"
  he_ever_ready :: bool

definition load_cert :: "TlsEnv \<Rightarrow> ProbePolicy \<Rightarrow> Health \<Rightarrow> Health" where
  "load_cert te pol he =
     (if \<not> pp_http pol \<and> he_with_cert he = None \<and> pp_client_cert pol \<noteq> None
      then he\<lparr>he_with_cert := lb_tls_config te (pp_client_cert pol)\<rparr>
      else he)"

definition probe_config :: "TlsEnv \<Rightarrow> ProbePolicy \<Rightarrow> Health \<Rightarrow> TlsConfig option" where
  "probe_config te pol he =
     (case he_with_cert he of
        Some c \<Rightarrow> Some c
      | None \<Rightarrow> if pp_http pol then None else lb_tls_config te None)"

text \<open>The outcomes of the probes of one turn; \<open>net i\<close> is what the probe of backend \<open>i\<close> meets.\<close>

definition probe_round ::
  "TlsEnv \<Rightarrow> ProbePolicy \<Rightarrow> (nat \<Rightarrow> Net) \<Rightarrow> string list \<Rightarrow> Backend list \<Rightarrow> Health \<Rightarrow> bool list" where
  "probe_round te pol net addrs bs he =
     map (\<lambda>(i, b, a). lb_probe b a (probe_config te pol (load_cert te pol he)) (net i)) (enumerate 0 (zip bs addrs))"

text \<open>One turn of \<open>health_loop\<close>.\<close>

definition health_turn ::
  "TlsEnv \<Rightarrow> ProbePolicy \<Rightarrow> (nat \<Rightarrow> Net) \<Rightarrow> string list \<Rightarrow> Backend list \<Rightarrow> Health \<Rightarrow> Backend list \<times> Health \<times> LbEvent list" where
  "health_turn te pol net addrs bs he =
     (let he1 = load_cert te pol he;
          oks = probe_round te pol net addrs bs he
      in case health_round (pp_fail_threshold pol) (he_ever_ready he1) (zip bs oks) of
           (bs', ready, ev) \<Rightarrow> (bs', he1\<lparr>he_ever_ready := ready\<rparr>, ev))"

section \<open>The process\<close>

datatype Conn = Dialling | Forwarding nat | Closing

datatype Phase = LoopHead | Accepting | DrainWait nat | Exited

record LbState =
  ls_cfg :: LbCfg
  ls_addrs :: "string list"
  ls_backends :: "Backend list"
  ls_health :: Health
  ls_health_on :: bool
  ls_cursor :: "64 word"
  ls_active :: nat
  ls_conns :: "Conn list"
  ls_draining :: bool
  ls_now :: nat
  ls_phase :: Phase
  ls_events :: "LbEvent list"

text \<open>Resolution: the first address of a backend.\<close>

fun resolve_all :: "(string \<Rightarrow> string + string list) \<Rightarrow> string list \<Rightarrow> string + (Backend \<times> string) list" where
  "resolve_all lookup [] = Inr []"
| "resolve_all lookup (spec # specs) =
     (case lookup spec of
        Inl e \<Rightarrow> Inl (''resolve backend '' @ spec @ '': '' @ e)
      | Inr [] \<Rightarrow> Inl (''backend '' @ spec @ '' resolved to no address'')
      | Inr (addr # _) \<Rightarrow>
          (case resolve_all lookup specs of
             Inl e \<Rightarrow> Inl e
           | Inr rest \<Rightarrow> Inr ((resolve_backend spec, addr) # rest)))"

text \<open>\<open>run\<close> up to the accept loop; \<open>bind\<close> is the error of setting up the listener, if any.\<close>

definition lb_start :: "(string \<Rightarrow> string + string list) \<Rightarrow> (string \<Rightarrow> string option) \<Rightarrow> string list \<Rightarrow> string + LbState" where
  "lb_start lookup bind args =
     (case lb_parse_args args of
        Inl e \<Rightarrow> Inl e
      | Inr cfg \<Rightarrow>
          (case resolve_all lookup (lc_backends cfg) of
             Inl e \<Rightarrow> Inl e
           | Inr found \<Rightarrow>
               (case bind (lc_listen cfg) of
                  Some e \<Rightarrow> Inl e
                | None \<Rightarrow>
                    Inr \<lparr>ls_cfg = cfg, ls_addrs = map snd found, ls_backends = map fst found,
                      ls_health = \<lparr>he_with_cert = None, he_ever_ready = False\<rparr>, ls_health_on = True, ls_cursor = 0,
                      ls_active = 0, ls_conns = [], ls_draining = False, ls_now = 0, ls_phase = LoopHead, ls_events = []\<rparr>)))"

definition on_drain_signal :: "LbState \<Rightarrow> LbState" where
  "on_drain_signal s = s\<lparr>ls_draining := True\<rparr>"

definition lb_health :: "TlsEnv \<Rightarrow> (nat \<Rightarrow> Net) \<Rightarrow> LbState \<Rightarrow> LbState" where
  "lb_health te net s =
     (case health_turn te (probe_policy (ls_cfg s)) net (ls_addrs s) (ls_backends s) (ls_health s) of
        (bs, he, ev) \<Rightarrow>
          s\<lparr>ls_backends := bs, ls_health := he, ls_health_on := \<not> ls_draining s, ls_events := ls_events s @ ev\<rparr>)"

text \<open>The head of the accept loop: it goes on to accept, or closes the listener and sets the deadline.\<close>

definition lb_loop_head :: "LbState \<Rightarrow> LbState" where
  "lb_loop_head s =
     (if ls_draining s
      then s\<lparr>ls_phase := DrainWait (drain_deadline (ls_now s) (lc_drain_timeout (ls_cfg s)))\<rparr>
      else s\<lparr>ls_phase := Accepting\<rparr>)"

datatype AcceptResult = Incoming | WouldBlock | AcceptError

definition lb_accept :: "AcceptResult \<Rightarrow> LbState \<Rightarrow> LbState" where
  "lb_accept r s =
     (case r of
        Incoming \<Rightarrow> s\<lparr>ls_active := ls_active s + 1, ls_conns := ls_conns s @ [Dialling], ls_phase := LoopHead\<rparr>
      | WouldBlock \<Rightarrow> s\<lparr>ls_phase := LoopHead\<rparr>
      | AcceptError \<Rightarrow> s\<lparr>ls_phase := LoopHead\<rparr>)"

text \<open>A connection's thread: it dials (\<open>cloned\<close>: its sockets can be duplicated), forwards, and ends.\<close>

definition lb_dial :: "(nat \<Rightarrow> bool) \<Rightarrow> bool \<Rightarrow> nat \<Rightarrow> LbState \<Rightarrow> LbState" where
  "lb_dial accepts cloned c s =
     (case lb_handle (ls_backends s) (ls_cursor s) accepts cloned of
        (target, cursor) \<Rightarrow>
          s\<lparr>ls_cursor := cursor,
            ls_conns := (ls_conns s)[c := (case target of Some i \<Rightarrow> Forwarding i | None \<Rightarrow> Closing)]\<rparr>)"

definition lb_pumped :: "nat \<Rightarrow> LbState \<Rightarrow> LbState" where
  "lb_pumped c s = s\<lparr>ls_conns := (ls_conns s)[c := Closing]\<rparr>"

definition lb_close :: "nat \<Rightarrow> LbState \<Rightarrow> LbState" where
  "lb_close c s = s\<lparr>ls_active := ls_active s - 1, ls_conns := take c (ls_conns s) @ drop (Suc c) (ls_conns s)\<rparr>"

text \<open>The actions; a turn of the health thread shows the outcomes of its probes.\<close>

datatype LbAction = Probed "bool list" | Quiet

inductive lb_act :: "LbState \<Rightarrow> LbAction \<Rightarrow> LbState \<Rightarrow> bool" where
  tick: "ls_phase s \<noteq> Exited \<Longrightarrow> ls_now s \<le> now \<Longrightarrow> lb_act s Quiet (s\<lparr>ls_now := now\<rparr>)"
| signal: "ls_phase s \<noteq> Exited \<Longrightarrow> lb_act s Quiet (on_drain_signal s)"
| health: "ls_phase s \<noteq> Exited \<Longrightarrow> ls_health_on s \<Longrightarrow>
    lb_act s (Probed (probe_round te (probe_policy (ls_cfg s)) net (ls_addrs s) (ls_backends s) (ls_health s)))
      (lb_health te net s)"
| head: "ls_phase s = LoopHead \<Longrightarrow> lb_act s Quiet (lb_loop_head s)"
| accept: "ls_phase s = Accepting \<Longrightarrow> lb_act s Quiet (lb_accept r s)"
| dial: "ls_phase s \<noteq> Exited \<Longrightarrow> c < length (ls_conns s) \<Longrightarrow> ls_conns s ! c = Dialling \<Longrightarrow>
    lb_act s Quiet (lb_dial accepts cloned c s)"
| pumped: "ls_phase s \<noteq> Exited \<Longrightarrow> c < length (ls_conns s) \<Longrightarrow> ls_conns s ! c = Forwarding i \<Longrightarrow>
    lb_act s Quiet (lb_pumped c s)"
| closed: "ls_phase s \<noteq> Exited \<Longrightarrow> c < length (ls_conns s) \<Longrightarrow> ls_conns s ! c = Closing \<Longrightarrow>
    lb_act s Quiet (lb_close c s)"
| drained: "ls_phase s = DrainWait deadline \<Longrightarrow> \<not> drain_waits (ls_active s) (ls_now s) deadline \<Longrightarrow>
    lb_act s Quiet (s\<lparr>ls_phase := Exited\<rparr>)"

definition lb_step :: "LbState \<Rightarrow> LbState \<Rightarrow> bool" where
  "lb_step s t \<longleftrightarrow> (\<exists>l. lb_act s l t)"

inductive lb_reach :: "LbState \<Rightarrow> bool" where
  start: "lb_start lookup bind args = Inr s \<Longrightarrow> lb_reach s"
| step: "lb_reach s \<Longrightarrow> lb_step s t \<Longrightarrow> lb_reach t"

text \<open>A run with its rounds of probes, oldest first.\<close>

fun rounds_of :: "LbAction \<Rightarrow> bool list list" where
  "rounds_of (Probed oks) = [oks]"
| "rounds_of Quiet = []"

inductive lb_run :: "bool list list \<Rightarrow> LbState \<Rightarrow> bool" where
  run_start: "lb_start lookup bind args = Inr s \<Longrightarrow> lb_run [] s"
| run_act: "lb_run rs s \<Longrightarrow> lb_act s l t \<Longrightarrow> lb_run (rs @ rounds_of l) t"

section \<open>The invariant\<close>

text \<open>The probes of backend \<open>i\<close>; whether any probe of a run succeeded.\<close>

definition probes_of :: "nat \<Rightarrow> bool list list \<Rightarrow> bool list" where
  "probes_of i rs = map (\<lambda>r. r ! i) rs"

definition some_success :: "bool list list \<Rightarrow> bool" where
  "some_success rs \<longleftrightarrow> (\<exists>r \<in> set rs. True \<in> set r)"

text \<open>The backends as their probes make them.\<close>

definition probed_backends :: "LbCfg \<Rightarrow> bool list list \<Rightarrow> Backend list" where
  "probed_backends cfg rs =
     map (\<lambda>i. health_run (lc_fail_threshold cfg) (probes_of i rs) (resolve_backend (lc_backends cfg ! i)))
       [0..<length (lc_backends cfg)]"

lemma length_probed_backends [simp]: "length (probed_backends cfg rs) = length (lc_backends cfg)"
  by (simp add: probed_backends_def)

definition lb_inv :: "bool list list \<Rightarrow> LbState \<Rightarrow> bool" where
  "lb_inv rs s \<longleftrightarrow>
     ls_active s = length (ls_conns s)
     \<and> lc_backends (ls_cfg s) \<noteq> [] \<and> lc_fail_threshold (ls_cfg s) \<noteq> 0
     \<and> length (ls_addrs s) = length (lc_backends (ls_cfg s))
     \<and> (\<forall>r \<in> set rs. length r = length (lc_backends (ls_cfg s)))
     \<and> ls_backends s = probed_backends (ls_cfg s) rs
     \<and> (\<forall>c \<in> set (ls_conns s). \<forall>i. c = Forwarding i \<longrightarrow> i < length (ls_backends s))
     \<and> (he_ever_ready (ls_health s) \<longleftrightarrow> some_success rs)
     \<and> length (filter is_ready_event (ls_events s)) = (if some_success rs then 1 else 0)
     \<and> ((\<exists>d. ls_phase s = DrainWait d) \<or> ls_phase s = Exited \<or> \<not> ls_health_on s \<longrightarrow> ls_draining s)"

lemma pick_order_below: "h \<noteq> [] \<Longrightarrow> i \<in> set (pick_order h c) \<Longrightarrow> i < length h"
  by (auto simp: pick_order_def rotated_def)

lemma lb_handle_below:
  assumes "bs \<noteq> []" "lb_handle bs cursor accepts cloned = (Some i, c)"
  shows "i < length bs"
proof -
  have "List.find accepts (pick_order (map be_healthy bs) (unat cursor mod length bs)) = Some i"
    using assms(2) by (auto simp: lb_handle_def Let_def split: option.splits if_splits)
  from find_Some [OF this] have "i \<in> set (pick_order (map be_healthy bs) (unat cursor mod length bs))" ..
  with pick_order_below [of "map be_healthy bs" i] assms(1) show ?thesis by simp
qed

lemma health_one_backend: "fst (health_one th r ok b) = fst (health_one th True ok b)"
  by (simp add: health_one_def Let_def)

lemma health_round_backends:
  "health_round th r items = (bs, r', ev) \<Longrightarrow> bs = map (\<lambda>(b, ok). fst (health_one th True ok b)) items"
proof (induction th r items arbitrary: bs r' ev rule: health_round.induct)
  case (2 th r b ok items)
  obtain b1 r1 e1 where one: "health_one th r ok b = (b1, r1, e1)" by (metis prod_cases3)
  obtain bs2 r2 e2 where rest: "health_round th r1 items = (bs2, r2, e2)" by (metis prod_cases3)
  from 2(2) one rest have "bs = b1 # bs2" by auto
  with 2(1) [OF one [symmetric] refl rest] one health_one_backend [of th r ok b] show ?case by simp
qed simp

lemma health_round_announces:
  assumes "health_round th r items = (bs, r', ev)"
  shows "length (filter is_ready_event ev) = (if r' \<and> \<not> r then 1 else 0)"
proof (cases "List.find snd items")
  case None
  then have "\<not> (\<exists>i \<in> set items. snd i)" unfolding find_None_iff by blast
  then have "r' = r" using health_round_ready [OF assms] by blast
  with None health_round_ready [OF assms] show ?thesis by simp
next
  case (Some i)
  from find_Some [OF Some] have "r'" using health_round_ready [OF assms] by blast
  with Some health_round_ready [OF assms] show ?thesis by (cases i) simp
qed

lemma length_probe_round [simp]:
  "length addrs = length bs \<Longrightarrow> length (probe_round te pol net addrs bs he) = length bs"
  by (simp add: probe_round_def)

text \<open>A turn probes every backend once and notes the outcome; READY goes out with the first success.\<close>

lemma health_turn_facts:
  assumes "health_turn te pol net addrs bs he = (bs', he', ev)" "length addrs = length bs"
  shows "bs' = map (\<lambda>(b, ok). fst (health_one (pp_fail_threshold pol) True ok b))
      (zip bs (probe_round te pol net addrs bs he))"
    and "he_ever_ready he' \<longleftrightarrow> he_ever_ready he \<or> True \<in> set (probe_round te pol net addrs bs he)"
    and "length (filter is_ready_event ev) = (if he_ever_ready he' \<and> \<not> he_ever_ready he then 1 else 0)"
proof -
  let ?oks = "probe_round te pol net addrs bs he"
  have er: "he_ever_ready (load_cert te pol he) = he_ever_ready he" by (simp add: load_cert_def)
  obtain r where run: "health_round (pp_fail_threshold pol) (he_ever_ready he) (zip bs ?oks) = (bs', r, ev)"
    and he': "he_ever_ready he' = r"
    using assms(1) by (auto simp: health_turn_def Let_def er split: prod.splits)
  show "bs' = map (\<lambda>(b, ok). fst (health_one (pp_fail_threshold pol) True ok b)) (zip bs ?oks)"
    by (rule health_round_backends [OF run])
  have "(\<exists>i \<in> set (zip bs ?oks). snd i) \<longleftrightarrow> True \<in> set (map snd (zip bs ?oks))" by force
  then have "(\<exists>i \<in> set (zip bs ?oks). snd i) \<longleftrightarrow> True \<in> set ?oks" using assms(2) by simp
  then show "he_ever_ready he' \<longleftrightarrow> he_ever_ready he \<or> True \<in> set ?oks"
    using health_round_ready [OF run] he' by blast
  show "length (filter is_ready_event ev) = (if he_ever_ready he' \<and> \<not> he_ever_ready he then 1 else 0)"
    using health_round_announces [OF run] by (simp add: he')
qed

lemma resolve_all_parts:
  "resolve_all lookup specs = Inr found \<Longrightarrow> map fst found = map resolve_backend specs"
  by (induction lookup specs arbitrary: found rule: resolve_all.induct) (auto split: sum.splits list.splits)

lemma lb_inv_start: "lb_start lookup bind args = Inr s \<Longrightarrow> lb_inv [] s"
proof -
  assume "lb_start lookup bind args = Inr s"
  then obtain cfg found where c: "lb_parse_args args = Inr cfg" "resolve_all lookup (lc_backends cfg) = Inr found"
    and s: "s = \<lparr>ls_cfg = cfg, ls_addrs = map snd found, ls_backends = map fst found,
      ls_health = \<lparr>he_with_cert = None, he_ever_ready = False\<rparr>, ls_health_on = True, ls_cursor = 0, ls_active = 0,
      ls_conns = [], ls_draining = False, ls_now = 0, ls_phase = LoopHead, ls_events = []\<rparr>"
    by (auto simp: lb_start_def split: sum.splits option.splits)
  have "lc_backends cfg \<noteq> []" "lc_fail_threshold cfg \<noteq> 0"
    using c(1) by (auto simp: lb_parse_args_def split: sum.splits if_splits)
  moreover have fst: "map fst found = map resolve_backend (lc_backends cfg)" by (rule resolve_all_parts [OF c(2)])
  moreover have "length found = length (lc_backends cfg)" using arg_cong [OF fst, of length] by simp
  moreover have "probed_backends cfg [] = map resolve_backend (lc_backends cfg)"
    by (rule nth_equalityI) (simp_all add: probed_backends_def probes_of_def health_run_def)
  ultimately show ?thesis unfolding lb_inv_def s by (simp add: some_success_def)
qed

lemma health_run_snoc: "health_run th (oks @ [ok]) b = fst (health_one th True ok (health_run th oks b))"
  by (simp add: health_run_def)

lemma lb_inv_health:
  assumes "lb_inv rs s"
  shows "lb_inv (rs @ [probe_round te (probe_policy (ls_cfg s)) net (ls_addrs s) (ls_backends s) (ls_health s)])
    (lb_health te net s)"
proof -
  let ?r = "probe_round te (probe_policy (ls_cfg s)) net (ls_addrs s) (ls_backends s) (ls_health s)"
  let ?n = "length (lc_backends (ls_cfg s))"
  obtain bs he ev where t: "health_turn te (probe_policy (ls_cfg s)) net (ls_addrs s) (ls_backends s) (ls_health s) = (bs, he, ev)"
    by (rule prod_cases3)
  have eq: "lb_health te net s =
      s\<lparr>ls_backends := bs, ls_health := he, ls_health_on := \<not> ls_draining s, ls_events := ls_events s @ ev\<rparr>"
    by (simp add: lb_health_def t)
  have old: "ls_backends s = probed_backends (ls_cfg s) rs"
    and len: "length (ls_addrs s) = length (ls_backends s)" and ever: "he_ever_ready (ls_health s) \<longleftrightarrow> some_success rs"
    and sent: "length (filter is_ready_event (ls_events s)) = (if some_success rs then 1 else 0)"
    using assms by (simp_all add: lb_inv_def)
  note f = health_turn_facts [OF t len]
  have n: "length (ls_backends s) = ?n" "length ?r = ?n" using old len by simp_all
  have "length bs = ?n" using f(1) n by simp
  moreover have "bs ! i = probed_backends (ls_cfg s) (rs @ [?r]) ! i" if "i < ?n" for i
  proof -
    have "bs ! i = fst (health_one (lc_fail_threshold (ls_cfg s)) True (?r ! i) (ls_backends s ! i))"
      using f(1) n that by (simp add: probe_policy_def)
    with that show ?thesis by (simp add: old probed_backends_def probes_of_def health_run_snoc)
  qed
  ultimately have "bs = probed_backends (ls_cfg s) (rs @ [?r])" by (intro nth_equalityI) simp_all
  moreover have some: "some_success (rs @ [?r]) \<longleftrightarrow> some_success rs \<or> True \<in> set ?r" by (auto simp: some_success_def)
  moreover have "he_ever_ready he \<longleftrightarrow> some_success (rs @ [?r])" using f(2) ever some by simp
  moreover have "length (filter is_ready_event (ls_events s @ ev)) = (if some_success (rs @ [?r]) then 1 else 0)"
    using f(2,3) ever sent some by simp
  ultimately show ?thesis using assms n(2) old unfolding lb_inv_def eq by (simp del: length_probe_round)
qed

lemma lb_inv_conns:
  assumes "lb_inv rs s" "length cs = length (ls_conns s)"
    and "\<And>i. Forwarding i \<in> set cs \<Longrightarrow> i < length (ls_backends s)"
  shows "lb_inv rs (s\<lparr>ls_cursor := cursor, ls_conns := cs\<rparr>)"
proof -
  have "\<forall>c \<in> set cs. \<forall>i. c = Forwarding i \<longrightarrow> i < length (ls_backends s)" using assms(3) by blast
  with assms(1,2) show ?thesis unfolding lb_inv_def by simp
qed

lemma lb_inv_dial:
  assumes "lb_inv rs s" "c < length (ls_conns s)"
  shows "lb_inv rs (lb_dial accepts cloned c s)"
proof -
  obtain target cursor where h: "lb_handle (ls_backends s) (ls_cursor s) accepts cloned = (target, cursor)" by force
  let ?new = "case target of Some i \<Rightarrow> Forwarding i | None \<Rightarrow> Closing"
  have "ls_backends s = probed_backends (ls_cfg s) rs" "lc_backends (ls_cfg s) \<noteq> []"
    and old: "\<And>i. Forwarding i \<in> set (ls_conns s) \<Longrightarrow> i < length (ls_backends s)"
    using assms(1) unfolding lb_inv_def by blast+
  then have ne: "ls_backends s \<noteq> []" by (metis length_0_conv length_probed_backends)
  have "i < length (ls_backends s)" if "Forwarding i \<in> set ((ls_conns s)[c := ?new])" for i
  proof -
    have "Forwarding i = ?new \<or> Forwarding i \<in> set (ls_conns s)"
      using that set_update_subset_insert [of "ls_conns s" c ?new] by blast
    then show ?thesis
      using old lb_handle_below [OF ne, of "ls_cursor s" accepts cloned i cursor] h by (cases target) auto
  qed
  then have "lb_inv rs (s\<lparr>ls_cursor := cursor, ls_conns := (ls_conns s)[c := ?new]\<rparr>)"
    by (intro lb_inv_conns [OF assms(1)]) simp_all
  then show ?thesis by (simp add: lb_dial_def h)
qed

lemma lb_inv_pumped: "lb_inv rs s \<Longrightarrow> lb_inv rs (lb_pumped c s)"
  using set_update_subset_insert [of "ls_conns s" c Closing] by (auto simp: lb_inv_def lb_pumped_def)

lemma lb_inv_close: "lb_inv rs s \<Longrightarrow> c < length (ls_conns s) \<Longrightarrow> lb_inv rs (lb_close c s)"
  by (auto simp: lb_inv_def lb_close_def dest!: in_set_takeD in_set_dropD)

lemma lb_inv_act: "lb_act s l t \<Longrightarrow> lb_inv rs s \<Longrightarrow> lb_inv (rs @ rounds_of l) t"
proof (induction rule: lb_act.induct)
  case (health s te net)
  then show ?case using lb_inv_health by simp
next
  case (dial s c accepts cloned)
  then show ?case by (simp add: lb_inv_dial)
next
  case (closed s c)
  then show ?case by (simp add: lb_inv_close)
next
  case (pumped s c i)
  then show ?case by (simp add: lb_inv_pumped)
qed (auto simp: lb_inv_def on_drain_signal_def lb_loop_head_def lb_accept_def split: AcceptResult.splits if_splits)

lemma lb_run_inv: "lb_run rs s \<Longrightarrow> lb_inv rs s"
  by (induction rule: lb_run.induct) (auto intro: lb_inv_start lb_inv_act)

lemma lb_reach_run: "lb_reach s \<Longrightarrow> \<exists>rs. lb_run rs s"
  by (induction rule: lb_reach.induct) (auto simp: lb_step_def intro: lb_run.intros)

text \<open>C26: in every state the load balancer reaches, under any interleaving of its threads, signals and
  clock, after the rounds of probes \<open>rs\<close>: the count of open connections that the drain waits on is exact and
  every forwarded connection has a backend; systemd has been told READY once if some probe of the run succeeded
  and not at all otherwise; a backend is healthy exactly when one of its probes succeeded and fewer than the
  threshold have failed since; and the process has only begun to drain when it was told to.\<close>
theorem lb_reachable_invariant:
  assumes "lb_run rs s"
  shows "lb_inv rs s
    \<and> length (filter is_ready_event (ls_events s)) = (if \<exists>r \<in> set rs. True \<in> set r then 1 else 0)
    \<and> (\<forall>i < length (ls_backends s). be_healthy (ls_backends s ! i) \<longleftrightarrow>
         True \<in> set (probes_of i rs) \<and> trailing_failures (probes_of i rs) < unat (lc_fail_threshold (ls_cfg s)))"
proof -
  have inv: "lb_inv rs s" using assms by (rule lb_run_inv)
  then have "be_healthy (ls_backends s ! i) \<longleftrightarrow>
      True \<in> set (probes_of i rs) \<and> trailing_failures (probes_of i rs) < unat (lc_fail_threshold (ls_cfg s))"
    if "i < length (ls_backends s)" for i
    using that health_run_state [of "lc_fail_threshold (ls_cfg s)" "resolve_backend (lc_backends (ls_cfg s) ! i)" "probes_of i rs"]
    by (simp add: lb_inv_def probed_backends_def resolve_backend_def)
  moreover have "length (filter is_ready_event (ls_events s)) = (if \<exists>r \<in> set rs. True \<in> set r then 1 else 0)"
    using inv by (simp add: lb_inv_def some_success_def)
  ultimately show ?thesis using inv by blast
qed

lemma step_frames [simp]:
  "ls_phase (lb_health te net s) = ls_phase s" "ls_conns (lb_health te net s) = ls_conns s"
  "ls_phase (on_drain_signal s) = ls_phase s" "ls_conns (on_drain_signal s) = ls_conns s"
  "ls_phase (lb_dial accepts cloned c s) = ls_phase s" "length (ls_conns (lb_dial accepts cloned c s)) = length (ls_conns s)"
  "ls_phase (lb_pumped c s) = ls_phase s" "length (ls_conns (lb_pumped c s)) = length (ls_conns s)"
  "ls_phase (lb_close c s) = ls_phase s" "length (ls_conns (lb_close c s)) \<le> length (ls_conns s)"
  by (simp_all add: lb_health_def on_drain_signal_def lb_dial_def lb_pumped_def lb_close_def split: prod.split)

lemma drain_step:
  assumes "lb_step s t" "ls_phase s = DrainWait d" "ls_active s = length (ls_conns s)"
  shows "length (ls_conns t) \<le> length (ls_conns s)
    \<and> (ls_phase t = DrainWait d \<or> ls_phase t = Exited \<and> t = s\<lparr>ls_phase := Exited\<rparr> \<and> (ls_conns s = [] \<or> d \<le> ls_now s))"
proof -
  obtain l where "lb_act s l t" using assms(1) by (auto simp: lb_step_def)
  then show ?thesis
  proof cases
    case (drained deadline)
    with assms(2,3) show ?thesis by (simp add: drain_waits_def drain_expired_def)
  qed (use assms(2) in \<open>simp_all\<close>)
qed

text \<open>C27: the drain is orderly: once the listener is closed no connection is added, the deadline does not
  move, and the process exits only when every connection has ended or the deadline has passed, which it can
  then always do.\<close>
theorem lb_drain_orderly:
  assumes "lb_reach s" "ls_phase s = DrainWait d"
  shows "(\<forall>t. lb_step s t \<longrightarrow> length (ls_conns t) \<le> length (ls_conns s)
      \<and> (ls_phase t = DrainWait d \<or> ls_phase t = Exited \<and> t = s\<lparr>ls_phase := Exited\<rparr> \<and> (ls_conns s = [] \<or> d \<le> ls_now s)))
    \<and> (ls_conns s = [] \<or> d \<le> ls_now s \<longrightarrow> lb_step s (s\<lparr>ls_phase := Exited\<rparr>))"
proof -
  obtain rs where "lb_inv rs s" using lb_reach_run [OF assms(1)] lb_run_inv by blast
  then have act: "ls_active s = length (ls_conns s)" by (simp add: lb_inv_def)
  have "lb_step s (s\<lparr>ls_phase := Exited\<rparr>)" if "ls_conns s = [] \<or> d \<le> ls_now s"
    using that act assms(2) lb_act.drained [of s d] by (auto simp: lb_step_def drain_waits_def drain_expired_def)
  with drain_step [OF _ assms(2) act] show ?thesis by blast
qed

definition demo_lb :: LbState where
  "demo_lb = (case lb_start (\<lambda>spec. Inr [spec]) (\<lambda>_. None) [''--backend'', ''10.0.0.1:6443''] of Inr s \<Rightarrow> s)"

lemma demo_lb_start: "lb_start (\<lambda>spec. Inr [spec]) (\<lambda>_. None) [''--backend'', ''10.0.0.1:6443''] = Inr demo_lb"
  by (simp add: demo_lb_def lb_start_def lb_parse_args_def lb_defaults_def)

lemma lb_start_fresh: "lb_start lookup bind args = Inr s \<Longrightarrow> ls_phase s = LoopHead \<and> ls_conns s = []"
  unfolding lb_start_def by (auto split: sum.splits option.splits)

lemma demo_lb_signalled: "lb_act demo_lb Quiet (on_drain_signal demo_lb)"
  using lb_start_fresh [OF demo_lb_start] by (intro lb_act.signal) simp

text \<open>A round in which the probe succeeds: the backend is healthy and READY has been sent once.\<close>

definition demo_answers :: "nat \<Rightarrow> Net" where
  "demo_answers i = \<lparr>n_unix = (\<lambda>_. False), n_tcp = (\<lambda>_. True), n_name = (\<lambda>_. True), n_session = (\<lambda>_ _. True),
     n_write = (\<lambda>_. True), n_read = Some ''HTTP/1.1 200 OK''\<rparr>"

theorem lb_reachable_invariant_witness:
  "\<forall>te. be_healthy (ls_backends (lb_health te demo_answers demo_lb) ! 0)
   \<and> length (filter is_ready_event (ls_events (lb_health te demo_answers demo_lb))) = 1"
proof
  fix te
  let ?r = "probe_round te (probe_policy (ls_cfg demo_lb)) demo_answers (ls_addrs demo_lb) (ls_backends demo_lb) (ls_health demo_lb)"
  have f: "ls_addrs demo_lb = [''10.0.0.1:6443'']" "ls_backends demo_lb = [resolve_backend ''10.0.0.1:6443'']"
    "ls_health_on demo_lb" "ls_phase demo_lb = LoopHead" "lc_fail_threshold (ls_cfg demo_lb) = 3"
    by (simp_all add: demo_lb_def lb_start_def lb_parse_args_def lb_defaults_def)
  have ok: "?r = [True]"
    by (simp add: probe_round_def f enumerate_eq_zip lb_probe_def lb_exchange_def demo_answers_def probe_serving_def
        split: option.split)
  have run: "lb_run ([] @ rounds_of (Probed ?r)) (lb_health te demo_answers demo_lb)"
    using f by (intro lb_run.run_act [OF lb_run.run_start [OF demo_lb_start]] lb_act.health) simp_all
  have "length (ls_backends (lb_health te demo_answers demo_lb)) = 1"
    using lb_run_inv [OF run] lb_run_inv [OF lb_run.run_start [OF demo_lb_start]] f
    by (simp add: lb_inv_def lb_health_def split: prod.split)
  with lb_reachable_invariant [OF run] ok f show "be_healthy (ls_backends (lb_health te demo_answers demo_lb) ! 0)
      \<and> length (filter is_ready_event (ls_events (lb_health te demo_answers demo_lb))) = 1"
    by (simp add: probes_of_def trailing_failures_def lb_health_def split: prod.split)
qed

text \<open>Stopped by a signal while nothing is in flight, it exits at once.\<close>

theorem lb_drain_orderly_witness:
  "\<exists>s d. lb_reach s \<and> ls_phase s = DrainWait d \<and> lb_step s (s\<lparr>ls_phase := Exited\<rparr>)"
proof -
  let ?s = "lb_loop_head (on_drain_signal demo_lb)"
  have d: "ls_phase demo_lb = LoopHead" "ls_conns demo_lb = []" using lb_start_fresh [OF demo_lb_start] by simp_all
  have "lb_reach (on_drain_signal demo_lb)"
    using lb_reach.step [OF lb_reach.start [OF demo_lb_start]] demo_lb_signalled by (auto simp: lb_step_def)
  moreover have "lb_act (on_drain_signal demo_lb) Quiet ?s" using d by (intro lb_act.head) simp
  ultimately have r: "lb_reach ?s" by (meson lb_step_def lb_reach.step)
  obtain deadline where p: "ls_phase ?s = DrainWait deadline" by (simp add: lb_loop_head_def on_drain_signal_def)
  have "ls_conns ?s = []" using d by (simp add: lb_loop_head_def on_drain_signal_def)
  with lb_drain_orderly [OF r p] r p show ?thesis by blast
qed

end
