(* ===== verification/Snap_Identity.thy ===== *)
theory Snap_Identity
  imports Rust_Str
begin

text \<open>
  The identity of a snapshot, \<open>kubenyx-snap/src/lib.rs\<close> lines 416-991: what a take records in the
  manifest, how it is read back, and the gate that compares it with the resuming host before any
  VMM is started. Files and \<open>/proc\<close> are arguments (their contents); SHA-256, which is not part of
  the sources, is the parameter \<open>sha256\<close>.
\<close>

section \<open>Identity\<close>

definition CPU_FEATURE_WATCHLIST :: "string list" where
  "CPU_FEATURE_WATCHLIST =
     [''avx'', ''avx2'', ''avx512f'', ''amx_tile'', ''amx_bf16'', ''amx_int8'', ''xsave'', ''xsavec'',
      ''xsaves'', ''shstk'', ''ibt'', ''pku'', ''la57'']"

definition IDENTITY_PREFIX :: string where
  "IDENTITY_PREFIX = ''identity ''"

record SnapIdentity =
  si_closure :: "string option"
  si_vmm :: "string option"
  si_cpu :: "string option"
  si_cpu_host :: "string option"

definition no_identity :: SnapIdentity where
  "no_identity = \<lparr>si_closure = None, si_vmm = None, si_cpu = None, si_cpu_host = None\<rparr>"

definition identity_is_empty :: "SnapIdentity \<Rightarrow> bool" where
  "identity_is_empty i \<longleftrightarrow>
     si_closure i = None \<and> si_vmm i = None \<and> si_cpu i = None \<and> si_cpu_host i = None"

text \<open>The first line \<open>key : value\<close> of a text, trimmed; \<open>unknown\<close> without one.\<close>

fun cpuinfo_field :: "string \<Rightarrow> string list \<Rightarrow> string" where
  "cpuinfo_field k [] = ''unknown''"
| "cpuinfo_field k (l # ls) =
     (case split_once '':'' l of
        Some (a, v) \<Rightarrow> if trim a = k then trim v else cpuinfo_field k ls
      | None \<Rightarrow> cpuinfo_field k ls)"

definition cpu_fingerprint_from :: "string \<Rightarrow> string" where
  "cpu_fingerprint_from cpuinfo =
     (let first = (case split_once [CHR 0x0A, CHR 0x0A] cpuinfo of None \<Rightarrow> cpuinfo | Some (a, _) \<Rightarrow> a);
          fld = (\<lambda>k. cpuinfo_field k (str_lines first));
          flags = words_of (fld ''flags'');
          have_flags = filter (\<lambda>f. f \<in> set flags) CPU_FEATURE_WATCHLIST
      in fld ''vendor_id'' @ ''/'' @ fld ''cpu family'' @ ''/'' @ fld ''model'' @ ''+''
         @ join '','' have_flags)"

definition identity_line :: "string \<Rightarrow> string option \<Rightarrow> string" where
  "identity_line k v =
     (case v of None \<Rightarrow> [] | Some x \<Rightarrow> IDENTITY_PREFIX @ k @ '' '' @ x @ [CHR 0x0A])"

definition identity_lines :: "SnapIdentity \<Rightarrow> string" where
  "identity_lines i =
     identity_line ''closure'' (si_closure i) @ identity_line ''vmm'' (si_vmm i)
     @ identity_line ''cpu'' (si_cpu i) @ identity_line ''cpu-host'' (si_cpu_host i)"

definition identity_from_line :: "string \<Rightarrow> SnapIdentity \<Rightarrow> SnapIdentity" where
  "identity_from_line line i =
     (case strip_prefix IDENTITY_PREFIX line of
        None \<Rightarrow> i
      | Some rest \<Rightarrow>
          (case split_once '' '' rest of
             None \<Rightarrow> i
           | Some (k, v) \<Rightarrow>
               (let x = Some (trim v)
                in if k = ''closure'' then i\<lparr>si_closure := x\<rparr>
                   else if k = ''vmm'' then i\<lparr>si_vmm := x\<rparr>
                   else if k = ''cpu'' then i\<lparr>si_cpu := x\<rparr>
                   else if k = ''cpu-host'' then i\<lparr>si_cpu_host := x\<rparr>
                   else i)))"

definition parse_identity :: "string \<Rightarrow> SnapIdentity" where
  "parse_identity manifest = fold identity_from_line (str_lines manifest) no_identity"

section \<open>CPU templates\<close>

definition TEMPLATE_PREFIX :: string where
  "TEMPLATE_PREFIX = ''template:''"

text \<open>The scan of \<open>canonicalize_json\<close> with its two flags.\<close>

fun canon_scan :: "bool \<Rightarrow> bool \<Rightarrow> string \<Rightarrow> string" where
  "canon_scan in_str esc [] = []"
| "canon_scan in_str esc (c # cs) =
     (if in_str then
        c # (if esc then canon_scan True False cs
             else if c = CHR 0x5C then canon_scan True True cs
             else if c = CHR 0x22 then canon_scan False False cs
             else canon_scan True False cs)
      else if c = CHR 0x22 then c # canon_scan True False cs
      else if \<not> is_ws c then c # canon_scan False False cs
      else canon_scan False False cs)"

definition canonicalize_json :: "string \<Rightarrow> string" where
  "canonicalize_json raw = canon_scan False False raw"

definition hex_byte :: "byte \<Rightarrow> string" where
  "hex_byte b = [digit_char (unat b div 16), digit_char (unat b mod 16)]"

definition template_hash :: "(string \<Rightarrow> bytes) \<Rightarrow> string \<Rightarrow> string" where
  "template_hash sha256 raw = ''sha256:'' @ concat (map hex_byte (sha256 (canonicalize_json raw)))"

text \<open>The length of the balanced-brace slice a text starts with, counted by the scan of lines 626-646.\<close>

fun brace_scan :: "nat \<Rightarrow> bool \<Rightarrow> bool \<Rightarrow> nat \<Rightarrow> string \<Rightarrow> nat option" where
  "brace_scan depth in_str esc i [] = None"
| "brace_scan depth in_str esc i (c # cs) =
     (if in_str then
        (if esc then brace_scan depth True False (i + 1) cs
         else if c = CHR 0x5C then brace_scan depth True True (i + 1) cs
         else if c = CHR 0x22 then brace_scan depth False esc (i + 1) cs
         else brace_scan depth True esc (i + 1) cs)
      else if c = CHR 0x22 then brace_scan depth True esc (i + 1) cs
      else if c = CHR 0x7B then brace_scan (depth + 1) False esc (i + 1) cs
      else if c = CHR 0x7D then
        (if depth = 1 then Some (i + 1) else brace_scan (depth - 1) False esc (i + 1) cs)
      else brace_scan depth False esc (i + 1) cs)"

definition json_value_after_key :: "string \<Rightarrow> string \<Rightarrow> string option" where
  "json_value_after_key obj k =
     (case split_once ([CHR 0x22] @ k @ [CHR 0x22]) obj of
        None \<Rightarrow> None
      | Some (_, after_key) \<Rightarrow>
          (case strip_prefix '':'' (trim_start after_key) of
             None \<Rightarrow> None
           | Some r \<Rightarrow>
               (let rest = trim_start r
                in case rest of
                     [] \<Rightarrow> None
                   | c # cs \<Rightarrow>
                       if c = CHR 0x22 then
                         (case split_once [CHR 0x22] cs of
                            None \<Rightarrow> None | Some (a, _) \<Rightarrow> Some ([CHR 0x22] @ a @ [CHR 0x22]))
                       else if c = CHR 0x7B then
                         map_option (\<lambda>n. take n rest) (brace_scan 0 False False 0 rest)
                       else None)))"

text \<open>
  \<open>vmm_cpu_template\<close>: the process's command line if it can be read, and the reading of files, with
  an error text when one cannot be read. \<^term>\<open>Inl\<close> is the message of \<open>die\<close>.
\<close>

fun config_file_arg :: "string list \<Rightarrow> string option" where
  "config_file_arg (a # b # rest) =
     (if a = ''--config-file'' then Some b else config_file_arg (b # rest))"
| "config_file_arg _ = None"

definition vmm_cpu_template ::
  "(string \<Rightarrow> bytes) \<Rightarrow> (string \<Rightarrow> string + string) \<Rightarrow> string option \<Rightarrow> string + string option" where
  "vmm_cpu_template sha256 read cmdline =
     (case cmdline of
        None \<Rightarrow> Inr None
      | Some raw \<Rightarrow>
          (case config_file_arg (split_char (CHR 0x00) raw) of
             None \<Rightarrow> Inr None
           | Some cfg_path \<Rightarrow>
               (case read cfg_path of
                  Inl e \<Rightarrow> Inl (''read VMM config '' @ cfg_path @ '': '' @ e)
                | Inr cfg \<Rightarrow>
                    (case json_value_after_key cfg ''cpu-config'' of
                       None \<Rightarrow> Inr None
                     | Some v \<Rightarrow>
                         (case strip_prefix [CHR 0x22] v of
                            Some quoted \<Rightarrow>
                              (let path = (if quoted \<noteq> [] \<and> last quoted = CHR 0x22 then butlast quoted else quoted)
                               in if CHR 0x5C \<in> set path
                                  then Inl (''cpu-config path '' @ path @ '': unexpected escape'')
                                  else case read path of
                                         Inl e \<Rightarrow> Inl (''read cpu-config '' @ path @ '': '' @ e)
                                       | Inr json \<Rightarrow> Inr (Some (template_hash sha256 json)))
                          | None \<Rightarrow> Inr (Some (template_hash sha256 v)))))))"

text \<open>
  \<open>take_cpu_identity\<close>, with the host's fingerprint as an argument, and \<open>resolve_template_spec\<close>,
  with what is known of the file the argument names (\<^term>\<open>None\<close> when it is not one).
\<close>

definition take_cpu_identity :: "string \<Rightarrow> string option \<Rightarrow> string option \<times> string option" where
  "take_cpu_identity fingerprint template =
     (case template of
        Some t \<Rightarrow> (Some (TEMPLATE_PREFIX @ t), Some fingerprint)
      | None \<Rightarrow> (Some fingerprint, None))"

definition resolve_template_spec ::
  "(string \<Rightarrow> bytes) \<Rightarrow> (string \<Rightarrow> (string + string) option) \<Rightarrow> string \<Rightarrow> string + string" where
  "resolve_template_spec sha256 file arg =
     (case file arg of
        Some (Inr raw) \<Rightarrow> Inr (template_hash sha256 raw)
      | Some (Inl e) \<Rightarrow> Inl (''read --cpu-template '' @ arg @ '': '' @ e)
      | None \<Rightarrow>
          if contains ''/'' arg
          then Inl (''--cpu-template '' @ arg @ '': looks like a path but is not a readable file'')
          else Inr arg)"

section \<open>The comparison\<close>

record IdentityMismatch =
  im_field :: string
  im_recorded :: string
  im_live :: string
  im_why :: string

definition section_sign :: string where
  "section_sign = [CHR 0xC2, CHR 0xA7]"

definition em_dash :: string where
  "em_dash = [CHR 0xE2, CHR 0x80, CHR 0x94]"

definition WHY_CLOSURE :: string where
  "WHY_CLOSURE = ''the snapshot is a booted instance of one exact node closure; ''
     @ ''a different closure means the guest inside is not the system being asked for (closure lock)''"

definition WHY_VMM :: string where
  "WHY_VMM = ''snap.vmstate is written by and locked to one exact firecracker build; ''
     @ ''a different VMM misparses or refuses the device state (VMM version lock)''"

definition WHY_CPU :: string where
  "WHY_CPU = ''snap.mem freezes guest xstate/CPUID against the take host's CPU ''
     @ ''features; restoring under a different feature set has a measured history of guest ''
     @ ''XRSTORS #GP kernel panics (CPU-feature lock)''"

definition WHY_TEMPLATE :: string where
  "WHY_TEMPLATE = ''the snapshot's CPU identity is keyed to a firecracker CPU ''
     @ ''template (portable-snapshots.org '' @ section_sign @ ''D3); resume must present the same template via ''
     @ ''--cpu-template '' @ em_dash @ '' exact string, no subset logic, because a half-right compatibility ''
     @ ''check fails as a guest panic instead of an error message (template lock)''"

definition WHY_NOT_TEMPLATED :: string where
  "WHY_NOT_TEMPLATED = ''--cpu-template was passed but this snapshot was minted ''
     @ ''WITHOUT a template '' @ em_dash @ '' its frozen xstate is keyed to the minting host, and claiming a ''
     @ ''template it never ran under would fake portability the artifact does not have ''
     @ ''(template lock)''"

definition field_mismatch ::
  "string \<Rightarrow> string option \<Rightarrow> string option \<Rightarrow> string \<Rightarrow> IdentityMismatch list" where
  "field_mismatch fld rec liv why =
     (case (rec, liv) of
        (Some r, Some l) \<Rightarrow>
          if r \<noteq> l then [\<lparr>im_field = fld, im_recorded = r, im_live = l, im_why = why\<rparr>] else []
      | _ \<Rightarrow> [])"

definition identity_mismatches :: "SnapIdentity \<Rightarrow> SnapIdentity \<Rightarrow> IdentityMismatch list" where
  "identity_mismatches recorded live =
     field_mismatch ''closure'' (si_closure recorded) (si_closure live) WHY_CLOSURE
     @ field_mismatch ''vmm'' (si_vmm recorded) (si_vmm live) WHY_VMM"

definition host_differs_warning :: "string \<Rightarrow> string \<Rightarrow> string" where
  "host_differs_warning rh live_cpu =
     ''template-keyed identities match but the host CPU ''
     @ ''differs from the minting host'' @ [CHR 0x0A] @ ''  minted on: '' @ rh @ [CHR 0x0A]
     @ ''  this host: '' @ live_cpu @ [CHR 0x0A] @ ''  proceeding '' @ em_dash @ '' the template is ''
     @ ''the lock; cross-host restore remains unproven ''
     @ ''(portable-snapshots.org '' @ section_sign @ ''D4)''"

definition cpu_mismatch :: "string \<Rightarrow> string \<Rightarrow> string \<Rightarrow> IdentityMismatch" where
  "cpu_mismatch recorded live why =
     \<lparr>im_field = ''cpu'', im_recorded = recorded, im_live = live, im_why = why\<rparr>"

definition cpu_identity_check ::
  "string option \<Rightarrow> string option \<Rightarrow> string \<Rightarrow> string option \<Rightarrow> IdentityMismatch list \<times> string list" where
  "cpu_identity_check recorded_cpu recorded_cpu_host live_cpu resume_template =
     (case recorded_cpu of
        None \<Rightarrow>
          (case resume_template of
             Some rt \<Rightarrow>
               ([cpu_mismatch ''(no cpu identity recorded)'' (TEMPLATE_PREFIX @ rt) WHY_NOT_TEMPLATED], [])
           | None \<Rightarrow> ([], []))
      | Some rc \<Rightarrow>
          (case strip_prefix TEMPLATE_PREFIX rc of
             Some recorded_template \<Rightarrow>
               (case resume_template of
                  None \<Rightarrow>
                    ([cpu_mismatch rc ''(resume passed no --cpu-template)'' WHY_TEMPLATE], [])
                | Some rt \<Rightarrow>
                    if rt \<noteq> recorded_template
                    then ([cpu_mismatch rc (TEMPLATE_PREFIX @ rt) WHY_TEMPLATE], [])
                    else
                      ([], case recorded_cpu_host of
                             None \<Rightarrow> []
                           | Some rh \<Rightarrow> if rh \<noteq> live_cpu then [host_differs_warning rh live_cpu] else []))
           | None \<Rightarrow>
               (case resume_template of
                  Some rt \<Rightarrow> ([cpu_mismatch rc (TEMPLATE_PREFIX @ rt) WHY_NOT_TEMPLATED], [])
                | None \<Rightarrow>
                    if rc \<noteq> live_cpu then ([cpu_mismatch rc live_cpu WHY_CPU], []) else ([], []))))"

section \<open>The gate\<close>

text \<open>
  \<open>enforce_identity\<close>: the manifest's contents (if it can be read), the VMM binary \<open>--firecracker\<close>
  resolves to (if it does), the host's fingerprint, the resolved template and the override. The
  outcome is to proceed or to die, with the mismatches found and the warnings printed.
\<close>

datatype Gate = Proceed | DieNoIdentity | DieMismatch

definition live_identity :: "string option \<Rightarrow> string \<Rightarrow> SnapIdentity" where
  "live_identity vmm fingerprint =
     \<lparr>si_closure = None, si_vmm = vmm, si_cpu = Some fingerprint, si_cpu_host = None\<rparr>"

definition read_snapshot_identity :: "string option \<Rightarrow> SnapIdentity option" where
  "read_snapshot_identity manifest =
     (case manifest of
        None \<Rightarrow> None
      | Some raw \<Rightarrow> (let i = parse_identity raw in if identity_is_empty i then None else Some i))"

definition enforce_identity ::
  "string option \<Rightarrow> string option \<Rightarrow> string \<Rightarrow> string option \<Rightarrow> bool
    \<Rightarrow> IdentityMismatch list \<times> string list \<times> Gate" where
  "enforce_identity manifest vmm fingerprint cpu_template allow_mismatch =
     (case read_snapshot_identity manifest of
        None \<Rightarrow>
          if cpu_template \<noteq> None \<and> \<not> allow_mismatch then ([], [], DieNoIdentity)
          else ([], [], Proceed)
      | Some recorded \<Rightarrow>
          (let live = live_identity vmm fingerprint;
               (cpu_mismatches, warnings) =
                 cpu_identity_check (si_cpu recorded) (si_cpu_host recorded)
                   (case si_cpu live of None \<Rightarrow> [] | Some c \<Rightarrow> c) cpu_template;
               mismatches = identity_mismatches recorded live @ cpu_mismatches
           in if mismatches = [] then ([], warnings, Proceed)
              else if allow_mismatch then (mismatches, warnings, Proceed)
              else (mismatches, warnings, DieMismatch)))"

section \<open>Reading back what was written\<close>

text \<open>A value the manifest can hold: one line, no white space at its ends.\<close>

definition plain :: "string \<Rightarrow> bool" where
  "plain v \<longleftrightarrow> CHR 0x0A \<notin> set v \<and> (v = [] \<or> \<not> is_ws (hd v) \<and> \<not> is_ws (last v))"

definition plain_identity :: "SnapIdentity \<Rightarrow> bool" where
  "plain_identity i \<longleftrightarrow>
     pred_option plain (si_closure i) \<and> pred_option plain (si_vmm i)
     \<and> pred_option plain (si_cpu i) \<and> pred_option plain (si_cpu_host i)"

lemma trim_plain: "plain v \<Longrightarrow> trim v = v"
  unfolding plain_def trim_def by (auto simp: trim_start_id trim_end_id)

lemma plain_no_cr: "plain v \<Longrightarrow> v \<noteq> [] \<Longrightarrow> last v \<noteq> CHR 0x0D"
  by (auto simp: plain_def is_ws_def)

lemma identity_line_lines:
  assumes "pred_option plain v" "CHR 0x0A \<notin> set k"
  shows "str_lines (identity_line k v @ r) =
    (case v of None \<Rightarrow> [] | Some x \<Rightarrow> [IDENTITY_PREFIX @ k @ '' '' @ x]) @ str_lines r"
proof (cases v)
  case None
  then show ?thesis by (simp add: identity_line_def)
next
  case (Some x)
  let ?l = "IDENTITY_PREFIX @ k @ '' '' @ x"
  have x: "plain x" using assms(1) Some by simp
  have "CHR 0x0A \<notin> set ?l" using assms(2) x by (simp add: IDENTITY_PREFIX_def plain_def)
  moreover have "strip_cr ?l = ?l"
    using plain_no_cr [OF x] by (cases "x = []") (auto simp: strip_cr_def)
  ultimately have "str_lines (?l @ CHR 0x0A # r) = ?l # str_lines r" using str_lines_line by metis
  with Some show ?thesis by (simp add: identity_line_def)
qed

lemma identity_from_own_line:
  assumes "plain v" "CHR 0x20 \<notin> set k"
  shows "identity_from_line (IDENTITY_PREFIX @ k @ '' '' @ v) i =
    (if k = ''closure'' then i\<lparr>si_closure := Some v\<rparr>
     else if k = ''vmm'' then i\<lparr>si_vmm := Some v\<rparr>
     else if k = ''cpu'' then i\<lparr>si_cpu := Some v\<rparr>
     else if k = ''cpu-host'' then i\<lparr>si_cpu_host := Some v\<rparr>
     else i)"
  using split_once_char [OF assms(2), of v] trim_plain [OF assms(1)]
  by (simp add: identity_from_line_def Let_def)

lemma identity_from_lines:
  "pred_option plain v \<Longrightarrow>
    fold identity_from_line (case v of None \<Rightarrow> [] | Some x \<Rightarrow> [IDENTITY_PREFIX @ ''closure'' @ '' '' @ x]) i =
      (case v of None \<Rightarrow> i | Some x \<Rightarrow> i\<lparr>si_closure := Some x\<rparr>)"
  "pred_option plain v \<Longrightarrow>
    fold identity_from_line (case v of None \<Rightarrow> [] | Some x \<Rightarrow> [IDENTITY_PREFIX @ ''vmm'' @ '' '' @ x]) i =
      (case v of None \<Rightarrow> i | Some x \<Rightarrow> i\<lparr>si_vmm := Some x\<rparr>)"
  "pred_option plain v \<Longrightarrow>
    fold identity_from_line (case v of None \<Rightarrow> [] | Some x \<Rightarrow> [IDENTITY_PREFIX @ ''cpu'' @ '' '' @ x]) i =
      (case v of None \<Rightarrow> i | Some x \<Rightarrow> i\<lparr>si_cpu := Some x\<rparr>)"
  "pred_option plain v \<Longrightarrow>
    fold identity_from_line (case v of None \<Rightarrow> [] | Some x \<Rightarrow> [IDENTITY_PREFIX @ ''cpu-host'' @ '' '' @ x]) i =
      (case v of None \<Rightarrow> i | Some x \<Rightarrow> i\<lparr>si_cpu_host := Some x\<rparr>)"
  using identity_from_own_line [of _ "''closure''" i] identity_from_own_line [of _ "''vmm''" i]
    identity_from_own_line [of _ "''cpu''" i] identity_from_own_line [of _ "''cpu-host''" i]
  by (auto split: option.split)

lemma identity_lines_fold:
  assumes "plain_identity i"
  shows "fold identity_from_line (str_lines (identity_lines i)) no_identity = i"
  using assms
  by (cases i)
     (auto simp: plain_identity_def identity_lines_def identity_line_lines identity_from_lines
        identity_line_lines [where r = "[]", simplified] no_identity_def split: option.split)

lemma identity_lines_prefixed:
  assumes "plain_identity i" "l \<in> set (str_lines (identity_lines i))"
  shows "starts_with IDENTITY_PREFIX l"
  using assms
  by (auto simp: plain_identity_def identity_lines_def identity_line_lines starts_with_def
      identity_line_lines [where r = "[]", simplified] split: option.splits)

section \<open>Canonical JSON\<close>

text \<open>The flags of the scan after a text.\<close>

fun canon_state :: "bool \<Rightarrow> bool \<Rightarrow> string \<Rightarrow> bool \<times> bool" where
  "canon_state in_str esc [] = (in_str, esc)"
| "canon_state in_str esc (c # cs) =
     (if in_str then
        (if esc then canon_state True False cs
         else if c = CHR 0x5C then canon_state True True cs
         else if c = CHR 0x22 then canon_state False False cs
         else canon_state True False cs)
      else if c = CHR 0x22 then canon_state True False cs
      else canon_state False False cs)"

lemma canon_scan_esc: "canon_scan False e cs = canon_scan False False cs"
  by (cases cs) auto

lemma canon_idem: "canon_scan st esc (canon_scan st esc raw) = canon_scan st esc raw"
proof (induction st esc raw rule: canon_scan.induct)
  case (2 in_str esc c cs)
  then show ?case using canon_scan_esc [of esc "canon_scan False False cs"] by auto
qed simp

lemma canon_append:
  "canon_scan st esc (a @ b) =
     canon_scan st esc a @ canon_scan (fst (canon_state st esc a)) (snd (canon_state st esc a)) b"
  by (induction st esc a rule: canon_state.induct) auto

lemma canon_outside: "\<forall>c \<in> set w. is_ws c \<Longrightarrow> canon_scan False e (w @ b) = canon_scan False e b"
proof (induction w arbitrary: e)
  case (Cons c w)
  then have "c \<noteq> CHR 0x22" by (auto simp: is_ws_def)
  with Cons show ?case using canon_scan_esc [of e b] by simp
qed simp

lemma canon_inside:
  "\<forall>c \<in> set w. is_ws c \<Longrightarrow> canon_scan True e (w @ b) = w @ canon_scan True (e \<and> w = []) b"
proof (induction w arbitrary: e)
  case (Cons c w)
  then have "c \<noteq> CHR 0x22" "c \<noteq> CHR 0x5C" by (auto simp: is_ws_def)
  with Cons show ?case by simp
qed simp

section \<open>The rule table\<close>

lemma cpu_identity_check_iff:
  "fst (cpu_identity_check rc rh live rt) = [] \<longleftrightarrow>
     (case rc of
        None \<Rightarrow> rt = None
      | Some c \<Rightarrow> (case strip_prefix TEMPLATE_PREFIX c of
                     Some t \<Rightarrow> rt = Some t
                   | None \<Rightarrow> rt = None \<and> c = live))"
  by (auto simp: cpu_identity_check_def split: option.split)

lemma identity_mismatches_iff:
  "identity_mismatches r (live_identity vmm fp) = [] \<longleftrightarrow>
     (si_vmm r = None \<or> vmm = None \<or> si_vmm r = vmm)"
  by (auto simp: identity_mismatches_def field_mismatch_def live_identity_def split: option.split)

section \<open>Properties\<close>

text \<open>The CPU lock: a snapshot minted without a template resumes only on a host with the same
  fingerprint and without a template claim, one minted under a template only under exactly that
  template; the host fingerprint then only warns, and only when it differs.\<close>
theorem cpu_lock:
  "(fst (cpu_identity_check rc rh live rt) = [] \<longleftrightarrow>
     (case rc of
        None \<Rightarrow> rt = None
      | Some c \<Rightarrow> (case strip_prefix TEMPLATE_PREFIX c of
                     Some t \<Rightarrow> rt = Some t
                   | None \<Rightarrow> rt = None \<and> c = live)))
   \<and> (snd (cpu_identity_check rc rh live rt) \<noteq> [] \<longleftrightarrow>
      (\<exists>t h. rc = Some (TEMPLATE_PREFIX @ t) \<and> rt = Some t \<and> rh = Some h \<and> h \<noteq> live))"
  using cpu_identity_check_iff [of rc rh live rt]
  by (auto simp: cpu_identity_check_def strip_prefix_Some split: option.split)

text \<open>C30: the gate lets a resume through exactly when it is overridden, or there is no recorded identity
  and no template claim, or the VMM lock (where both sides know their binary) and the CPU lock
  hold.\<close>
theorem gate_proceeds_iff:
  "snd (snd (enforce_identity manifest vmm fp rt allow)) = Proceed \<longleftrightarrow>
     allow \<or> (case read_snapshot_identity manifest of
               None \<Rightarrow> rt = None
             | Some r \<Rightarrow>
                 (si_vmm r = None \<or> vmm = None \<or> si_vmm r = vmm)
                 \<and> (case si_cpu r of
                      None \<Rightarrow> rt = None
                    | Some c \<Rightarrow> (case strip_prefix TEMPLATE_PREFIX c of
                                   Some t \<Rightarrow> rt = Some t
                                 | None \<Rightarrow> rt = None \<and> c = fp)))"
proof (cases "read_snapshot_identity manifest")
  case None
  then show ?thesis by (auto simp: enforce_identity_def)
next
  case (Some r)
  let ?cpu = "cpu_identity_check (si_cpu r) (si_cpu_host r) fp rt"
  have "snd (snd (enforce_identity manifest vmm fp rt allow)) = Proceed \<longleftrightarrow>
      allow \<or> identity_mismatches r (live_identity vmm fp) = [] \<and> fst ?cpu = []"
    using Some
    by (simp add: enforce_identity_def live_identity_def Let_def split: prod.split)
  with Some show ?thesis
    unfolding identity_mismatches_iff cpu_identity_check_iff by simp
qed

text \<open>A snapshot resumes where it was taken: what a take records, written to the manifest and read
  back, passes the gate on the same host with the same VMM, given the template it was taken under
  (and given none, when it was taken under none and the fingerprint is not spelled like a
  template).\<close>
theorem take_then_resume:
  assumes "take_cpu_identity fp tmpl = (cpu, host)"
    and "plain_identity \<lparr>si_closure = cl, si_vmm = vmm, si_cpu = cpu, si_cpu_host = host\<rparr>"
    and "strip_prefix TEMPLATE_PREFIX fp = None"
  shows "enforce_identity
      (Some (identity_lines \<lparr>si_closure = cl, si_vmm = vmm, si_cpu = cpu, si_cpu_host = host\<rparr>))
      vmm fp tmpl False = ([], [], Proceed)"
proof -
  let ?i = "\<lparr>si_closure = cl, si_vmm = vmm, si_cpu = cpu, si_cpu_host = host\<rparr>"
  have parse: "parse_identity (identity_lines ?i) = ?i"
    unfolding parse_identity_def by (rule identity_lines_fold [OF assms(2)])
  moreover have "\<not> identity_is_empty ?i"
    using assms(1) by (auto simp: identity_is_empty_def take_cpu_identity_def split: option.splits)
  ultimately have "read_snapshot_identity (Some (identity_lines ?i)) = Some ?i"
    by (simp add: read_snapshot_identity_def)
  moreover have "cpu_identity_check cpu host fp tmpl = ([], [])"
    using assms(1,3) by (auto simp: take_cpu_identity_def cpu_identity_check_def split: option.splits)
  moreover have "identity_mismatches ?i (live_identity vmm fp) = []"
    by (simp add: identity_mismatches_iff)
  ultimately show ?thesis by (simp add: enforce_identity_def live_identity_def)
qed

theorem take_then_resume_witness:
  "enforce_identity
      (Some (identity_lines \<lparr>si_closure = None, si_vmm = Some ''/nix/store/fc/bin/firecracker'',
         si_cpu = Some ''template:T2'', si_cpu_host = Some ''GenuineIntel/6/143+avx''\<rparr>))
      (Some ''/nix/store/fc/bin/firecracker'') ''GenuineIntel/6/143+avx'' (Some ''T2'') False = ([], [], Proceed)"
  by (rule take_then_resume)
     (simp_all add: take_cpu_identity_def TEMPLATE_PREFIX_def plain_identity_def plain_def is_ws_def
        strip_prefix_def)

text \<open>Canonical JSON is canonical: canonicalising twice changes nothing, white space outside string
  literals changes neither the canonical form nor the template hash, and white space inside a
  literal is kept.\<close>
theorem canonicalize_whitespace:
  assumes "\<forall>c \<in> set w. is_ws c"
  shows "canonicalize_json (canonicalize_json (a @ w @ b)) = canonicalize_json (a @ w @ b)
    \<and> (if fst (canon_state False False a)
       then canonicalize_json (a @ w @ b) =
              canonicalize_json a @ w @ canon_scan True (snd (canon_state False False a) \<and> w = []) b
       else canonicalize_json (a @ w @ b) = canonicalize_json (a @ b)
            \<and> template_hash sha256 (a @ w @ b) = template_hash sha256 (a @ b))"
proof -
  let ?st = "canon_state False False a"
  have idem: "canonicalize_json (canonicalize_json (a @ w @ b)) = canonicalize_json (a @ w @ b)"
    by (simp add: canonicalize_json_def canon_idem del: append_assoc)
  have split: "canonicalize_json (a @ x) = canonicalize_json a @ canon_scan (fst ?st) (snd ?st) x" for x
    unfolding canonicalize_json_def by (rule canon_append)
  show ?thesis
  proof (cases "fst ?st")
    case True
    with idem split [of "w @ b"] canon_inside [OF assms, of "snd ?st" b] show ?thesis by simp
  next
    case False
    then have "canonicalize_json (a @ w @ b) = canonicalize_json (a @ b)"
      using split [of "w @ b"] split [of b] canon_outside [OF assms, of "snd ?st" b] by simp
    with False idem show ?thesis by (simp add: template_hash_def)
  qed
qed

theorem canonicalize_whitespace_witness:
  "canonicalize_json (''{'' @ '' '' @ ''}'') = canonicalize_json (''{'' @ ''}'')"
  using canonicalize_whitespace [where w = "'' ''" and a = "''{''" and b = "''}''"]
  by (simp add: is_ws_def)

end
