(* ===== verification/Snap_Mesh.thy ===== *)
theory Snap_Mesh
  imports Snap_Identity "HOL-Library.Char_ord" "HOL-Library.Product_Lexorder"
begin

text \<open>
  The mesh verbs of \<open>kubenyx-snap/src/lib.rs\<close>: node names and addresses, the launcher's posture
  manifest, which nodes a take covers and whether it may run, and the snapshot manifest. \<^term>\<open>Inl\<close>
  is the message of \<open>die\<close> (or of a returned \<open>Err\<close>) without the path some of them begin with;
  directory listings and files are arguments.
\<close>

section \<open>Flags\<close>

text \<open>\<open>Flags::get\<close>: the argument after the first occurrence; \<open>die\<close> when there is none.\<close>

fun flag_get :: "string list \<Rightarrow> string \<Rightarrow> string + string option" where
  "flag_get [] name = Inr None"
| "flag_get (a # as) name =
     (if a = name then (case as of [] \<Rightarrow> Inl (name @ '' needs a value'') | v # _ \<Rightarrow> Inr (Some v))
      else flag_get as name)"

definition flag_has :: "string list \<Rightarrow> string \<Rightarrow> bool" where
  "flag_has flags name \<longleftrightarrow> name \<in> set flags"

section \<open>Nodes\<close>

record MeshNode =
  mn_name :: string
  mn_ip :: string

definition number_suffix :: "string \<Rightarrow> string \<Rightarrow> nat option" where
  "number_suffix name prefix =
     (case strip_prefix prefix name of
        None \<Rightarrow> None
      | Some r \<Rightarrow> (case parse_unsigned 32 r of None \<Rightarrow> None | Some n \<Rightarrow> if 1 \<le> n then Some n else None))"

definition is_server_name :: "string \<Rightarrow> bool" where
  "is_server_name name \<longleftrightarrow> name = ''server'' \<or> number_suffix name ''server'' \<noteq> None"

text \<open>The sums are \<open>u32\<close> sums.\<close>

definition conventional_ip :: "string \<Rightarrow> nat \<Rightarrow> string option" where
  "conventional_ip name servers =
     (if name = ''server'' then Some ''10.100.0.2''
      else case number_suffix name ''server'' of
             Some n \<Rightarrow> Some (''10.100.0.'' @ show_nat ((1 + n) mod 2 ^ 32))
           | None \<Rightarrow>
               map_option (\<lambda>n. ''10.100.0.'' @ show_nat ((1 + servers + n) mod 2 ^ 32))
                 (number_suffix name ''agent''))"

definition mesh_order_key :: "string \<Rightarrow> nat \<times> nat" where
  "mesh_order_key name =
     (if name = ''server'' then (0, 0)
      else case number_suffix name ''server'' of
             Some n \<Rightarrow> (0, n)
           | None \<Rightarrow> (case number_suffix name ''agent'' of Some n \<Rightarrow> (1, n) | None \<Rightarrow> (2, 0)))"

section \<open>The launcher's manifest\<close>

record RunManifest =
  rm_posture :: string
  rm_nodes :: "MeshNode list"

definition json_str_field :: "string \<Rightarrow> string \<Rightarrow> string option" where
  "json_str_field obj k =
     (case split_once ([CHR 0x22] @ k @ [CHR 0x22, CHR '':'', CHR 0x22]) obj of
        None \<Rightarrow> None
      | Some (_, rest) \<Rightarrow> map_option fst (split_once [CHR 0x22] rest))"

fun manifest_nodes :: "string list \<Rightarrow> string + MeshNode list" where
  "manifest_nodes [] = Inr []"
| "manifest_nodes (obj # objs) =
     (case json_str_field obj ''name'' of
        None \<Rightarrow> Inl ''node without name''
      | Some nm \<Rightarrow>
          (case json_str_field obj ''ip'' of
             None \<Rightarrow> Inl ''node without ip''
           | Some ip \<Rightarrow> map_sum id (Cons \<lparr>mn_name = nm, mn_ip = ip\<rparr>) (manifest_nodes objs)))"

definition parse_run_manifest :: "string \<Rightarrow> string + RunManifest" where
  "parse_run_manifest json =
     (case json_str_field json ''posture'' of
        None \<Rightarrow> Inl ''no posture field''
      | Some posture \<Rightarrow>
          (case split_once ([CHR 0x22] @ ''nodes'' @ [CHR 0x22] @ '':['') json of
             None \<Rightarrow> Inl ''no nodes field''
           | Some (_, rest) \<Rightarrow>
               (case split_once '']'' rest of
                  None \<Rightarrow> Inl ''unterminated nodes array''
                | Some (arr, _) \<Rightarrow>
                    (case manifest_nodes (filter (\<lambda>s. trim s \<noteq> []) (split_char (CHR ''{'') arr)) of
                       Inl e \<Rightarrow> Inl e
                     | Inr nodes \<Rightarrow>
                         if nodes = [] then Inl ''empty nodes array''
                         else Inr \<lparr>rm_posture = posture, rm_nodes = nodes\<rparr>))))"

definition RUN_MANIFEST :: string where
  "RUN_MANIFEST = ''kubenyx-mesh.json''"

datatype TakeRefusal = NeedsManifest | NotVolatile string

definition assert_volatile_mesh_take :: "nat \<Rightarrow> RunManifest option \<Rightarrow> TakeRefusal option" where
  "assert_volatile_mesh_take server_count manifest =
     (if server_count \<le> 1 then None
      else case manifest of
             None \<Rightarrow> Some NeedsManifest
           | Some m \<Rightarrow> if rm_posture m \<noteq> ''volatile'' then Some (NotVolatile (rm_posture m)) else None)"

section \<open>Which nodes a verb covers\<close>

text \<open>The loop over \<open>--node name=ip\<close>.\<close>

fun explicit_nodes :: "string list \<Rightarrow> string + MeshNode list" where
  "explicit_nodes [] = Inr []"
| "explicit_nodes (a # as) =
     (if a = ''--node'' then
        (case as of
           [] \<Rightarrow> Inl ''--node needs name=ip''
         | v # rest \<Rightarrow>
             (case split_once ''='' v of
                None \<Rightarrow> Inl (''--node '' @ v @ '': expected name=ip'')
              | Some (nm, ip) \<Rightarrow> map_sum id (Cons \<lparr>mn_name = nm, mn_ip = ip\<rparr>) (explicit_nodes rest)))
      else explicit_nodes as)"

fun address_nodes :: "nat \<Rightarrow> string list \<Rightarrow> string + MeshNode list" where
  "address_nodes servers [] = Inr []"
| "address_nodes servers (name # names) =
     (case conventional_ip name servers of
        None \<Rightarrow> Inl (''cannot infer address for node '' @ [CHR 0x27] @ name @ [CHR 0x27] @ '' '' @ em_dash
               @ '' pass --node '' @ name @ ''=<ip>'')
      | Some ip \<Rightarrow> map_sum id (Cons \<lparr>mn_name = name, mn_ip = ip\<rparr>) (address_nodes servers names))"

definition mesh_sort :: "MeshNode list \<Rightarrow> MeshNode list" where
  "mesh_sort nodes = sort_key (\<lambda>n. (mesh_order_key (mn_name n), mn_name n)) nodes"

text \<open>\<open>names\<close>: the node directories found in the run directory, when there is one.\<close>

definition mesh_nodes ::
  "string list \<Rightarrow> string list option \<Rightarrow> RunManifest option \<Rightarrow> string + MeshNode list" where
  "mesh_nodes flags names manifest =
     (case explicit_nodes flags of
        Inl e \<Rightarrow> Inl e
      | Inr explicit \<Rightarrow>
          (case (if explicit \<noteq> [] then Inr explicit
                 else case manifest of
                        Some m \<Rightarrow> Inr (rm_nodes m)
                      | None \<Rightarrow>
                          (case names of
                             None \<Rightarrow> Inr []
                           | Some ns \<Rightarrow>
                               (let servers = max (length (filter is_server_name ns)) 1 mod 2 ^ 32
                                in address_nodes servers ns))) of
             Inl e \<Rightarrow> Inl e
           | Inr nodes \<Rightarrow>
               if nodes = []
               then Inl ''no mesh nodes found (no --node flags and no node workdirs with kubenyx.sock)''
               else Inr (mesh_sort nodes)))"

text \<open>
  The first part of \<open>cmd_mesh_take\<close>, up to the pause: the nodes it will pause and snapshot, or the
  refusal. \<open>run_manifest\<close> is the contents of the launcher's manifest when it can be read.
\<close>

definition mesh_take_nodes ::
  "string list \<Rightarrow> string list \<Rightarrow> string option \<Rightarrow> (string + TakeRefusal) + MeshNode list" where
  "mesh_take_nodes flags names run_manifest =
     (case (case run_manifest of None \<Rightarrow> Inr None | Some raw \<Rightarrow> map_sum id Some (parse_run_manifest raw)) of
        Inl e \<Rightarrow> Inl (Inl e)
      | Inr manifest \<Rightarrow>
          (case mesh_nodes flags (Some names) manifest of
             Inl e \<Rightarrow> Inl (Inl e)
           | Inr nodes \<Rightarrow>
               (case assert_volatile_mesh_take
                       (length (filter (\<lambda>n. is_server_name (mn_name n)) nodes)) manifest of
                  Some r \<Rightarrow> Inl (Inr r)
                | None \<Rightarrow> Inr nodes)))"

section \<open>The snapshot manifest\<close>

definition manifest_body :: "MeshNode list \<Rightarrow> SnapIdentity \<Rightarrow> string" where
  "manifest_body nodes identity =
     concat (map (\<lambda>n. mn_name n @ '' '' @ mn_ip n @ [CHR 0x0A]) nodes) @ identity_lines identity"

fun manifest_lines :: "string list \<Rightarrow> string + MeshNode list" where
  "manifest_lines [] = Inr []"
| "manifest_lines (l # ls) =
     (case split_once '' '' l of
        None \<Rightarrow> Inl (''bad manifest line: '' @ l)
      | Some (nm, ip) \<Rightarrow> map_sum id (Cons \<lparr>mn_name = nm, mn_ip = ip\<rparr>) (manifest_lines ls))"

definition read_manifest :: "string \<Rightarrow> string + MeshNode list" where
  "read_manifest data =
     (case manifest_lines
             (filter (\<lambda>l. trim l \<noteq> [] \<and> \<not> starts_with IDENTITY_PREFIX l) (str_lines data)) of
        Inl e \<Rightarrow> Inl e
      | Inr nodes \<Rightarrow>
          if nodes = [] then Inl (''manifest has no node lines '' @ em_dash @ '' not a mesh snapshot'')
          else Inr nodes)"

section \<open>Lemmas\<close>

definition plain_node :: "MeshNode \<Rightarrow> bool" where
  "plain_node n \<longleftrightarrow>
     mn_name n \<noteq> [] \<and> (\<forall>c \<in> set (mn_name n). \<not> is_ws c) \<and> mn_name n \<noteq> ''identity'' \<and> plain (mn_ip n)"

lemma plain_node_line:
  assumes "plain_node n"
  shows "CHR 0x0A \<notin> set (mn_name n @ '' '' @ mn_ip n)"
    and "strip_cr (mn_name n @ '' '' @ mn_ip n) = mn_name n @ '' '' @ mn_ip n"
    and "trim (mn_name n @ '' '' @ mn_ip n) \<noteq> []"
    and "\<not> starts_with IDENTITY_PREFIX (mn_name n @ '' '' @ mn_ip n)"
    and "split_once '' '' (mn_name n @ '' '' @ mn_ip n) = Some (mn_name n, mn_ip n)"
proof -
  from assms have name: "mn_name n \<noteq> []" "\<forall>c \<in> set (mn_name n). \<not> is_ws c" "mn_name n \<noteq> ''identity''"
    and ip: "plain (mn_ip n)"
    by (auto simp: plain_node_def)
  have sp: "CHR 0x20 \<notin> set (mn_name n)" and nl: "CHR 0x0A \<notin> set (mn_name n)"
    using name(2) by (auto simp: is_ws_def)
  show split: "split_once '' '' (mn_name n @ '' '' @ mn_ip n) = Some (mn_name n, mn_ip n)"
    using split_once_char [OF sp] by simp
  show "CHR 0x0A \<notin> set (mn_name n @ '' '' @ mn_ip n)" using nl ip by (simp add: plain_def)
  show "strip_cr (mn_name n @ '' '' @ mn_ip n) = mn_name n @ '' '' @ mn_ip n"
    using plain_no_cr [OF ip] by (cases "mn_ip n = []") (auto simp: strip_cr_def)
  have "hd (mn_name n) \<in> set (mn_name n)" using name(1) by simp
  then have hd: "\<not> is_ws (hd (mn_name n))" using name(2) by blast
  then have "trim_start (mn_name n @ '' '' @ mn_ip n) = mn_name n @ '' '' @ mn_ip n"
    using name(1) by (intro trim_start_id) simp
  moreover have "trim_end s \<noteq> []" if "c \<in> set s" "\<not> is_ws c" for c s
    using that by (auto simp: trim_end_def dropWhile_eq_Nil_conv)
  ultimately show "trim (mn_name n @ '' '' @ mn_ip n) \<noteq> []"
    using hd name(1) unfolding trim_def by (metis Un_iff hd_in_set set_append)
  show "\<not> starts_with IDENTITY_PREFIX (mn_name n @ '' '' @ mn_ip n)"
  proof
    assume "starts_with IDENTITY_PREFIX (mn_name n @ '' '' @ mn_ip n)"
    then obtain r where "mn_name n @ '' '' @ mn_ip n = ''identity'' @ '' '' @ r"
      by (metis IDENTITY_PREFIX_def append_Cons append_Nil append_take_drop_id starts_with_def)
    then have "split_once '' '' (''identity'' @ '' '' @ r) = Some (mn_name n, mn_ip n)"
      using split by metis
    moreover have "split_once '' '' (''identity'' @ '' '' @ r) = Some (''identity'', r)"
      using split_once_char [of "CHR '' ''" "''identity''" r] by simp
    ultimately show False using name(3) by simp
  qed
qed

lemma node_lines:
  "\<forall>n \<in> set nodes. plain_node n \<Longrightarrow>
     str_lines (concat (map (\<lambda>n. mn_name n @ '' '' @ mn_ip n @ [CHR 0x0A]) nodes) @ r) =
       map (\<lambda>n. mn_name n @ '' '' @ mn_ip n) nodes @ str_lines r"
proof (induction nodes)
  case (Cons n nodes)
  let ?l = "mn_name n @ '' '' @ mn_ip n"
  let ?r = "concat (map (\<lambda>n. mn_name n @ '' '' @ mn_ip n @ [CHR 0x0A]) nodes) @ r"
  have "str_lines (?l @ CHR 0x0A # ?r) = strip_cr ?l # str_lines ?r"
    using Cons.prems plain_node_line(1) by (intro str_lines_line) simp
  with Cons plain_node_line(2) [of n] show ?case by simp
qed simp

lemma manifest_lines_nodes:
  "\<forall>n \<in> set nodes. plain_node n \<Longrightarrow> manifest_lines (map (\<lambda>n. mn_name n @ '' '' @ mn_ip n) nodes) = Inr nodes"
proof (induction nodes)
  case (Cons n nodes)
  then show ?case using plain_node_line(5) [of n] by (cases n) simp
qed simp

lemma number_suffix_show:
  "1 \<le> n \<Longrightarrow> n < 2 ^ 32 \<Longrightarrow> number_suffix (p @ show_nat n) p = Some n"
  by (simp add: number_suffix_def parse_unsigned_show)

lemma show_nat_inject: "show_nat a = show_nat b \<longleftrightarrow> a = b"
  by (metis parse_show_nat option.inject show_nat_def)

lemma show_nat_nonempty: "show_nat n \<noteq> []"
  by (simp add: show_nat_def show_base_nonempty)

lemma server_ip:
  assumes "1 \<le> n" "n < 2 ^ 31"
  shows "conventional_ip (''server'' @ show_nat n) servers = Some (''10.100.0.'' @ show_nat (1 + n))"
  using assms number_suffix_show [of n "''server''"] show_nat_nonempty [of n]
  by (simp add: conventional_ip_def)

lemma agent_ip:
  assumes "1 \<le> n" "n + servers < 2 ^ 31"
  shows "conventional_ip (''agent'' @ show_nat n) servers = Some (''10.100.0.'' @ show_nat (1 + servers + n))"
proof -
  have "number_suffix (''agent'' @ show_nat n) ''server'' = None"
    by (simp add: number_suffix_def strip_prefix_def)
  with assms number_suffix_show [of n "''agent''"] show ?thesis
    by (simp add: conventional_ip_def)
qed

lemma map_sum_Inr: "map_sum f g x = Inr y \<longleftrightarrow> (\<exists>z. x = Inr z \<and> y = g z)"
  by (cases x) auto

lemma order_key_server: "is_server_name x \<longleftrightarrow> fst (mesh_order_key x) = 0"
  by (auto simp: is_server_name_def mesh_order_key_def split: option.splits)

section \<open>Properties\<close>

text \<open>C31: the snapshot manifest round-trips: the nodes and the identity a take writes are the nodes and
  the identity a resume reads, for names without white space (other than the reserved word
  \<open>identity\<close>) and one-line values.\<close>
theorem manifest_roundtrip:
  assumes "nodes \<noteq> []" "\<forall>n \<in> set nodes. plain_node n" "plain_identity i"
  shows "read_manifest (manifest_body nodes i) = Inr nodes
    \<and> parse_identity (manifest_body nodes i) = i"
proof -
  let ?ls = "map (\<lambda>n. mn_name n @ '' '' @ mn_ip n) nodes"
  have lines: "str_lines (manifest_body nodes i) = ?ls @ str_lines (identity_lines i)"
    unfolding manifest_body_def by (rule node_lines [OF assms(2)])
  have "filter (\<lambda>l. trim l \<noteq> [] \<and> \<not> starts_with IDENTITY_PREFIX l) ?ls = ?ls"
    using assms(2) plain_node_line(3,4) by (auto simp: filter_id_conv simp del: append_Cons append_Nil)
  moreover have "filter (\<lambda>l. trim l \<noteq> [] \<and> \<not> starts_with IDENTITY_PREFIX l) (str_lines (identity_lines i)) = []"
    using identity_lines_prefixed [OF assms(3)] by (auto simp: filter_empty_conv)
  ultimately have "read_manifest (manifest_body nodes i) = Inr nodes"
    using assms(1) manifest_lines_nodes [OF assms(2)] by (simp add: read_manifest_def lines)
  moreover have "fold identity_from_line ?ls j = j" for j
  proof -
    have "identity_from_line l j = j" if "l \<in> set ?ls" for l j
      using that assms(2) plain_node_line(4)
      by (auto simp: identity_from_line_def strip_prefix_def starts_with_def simp del: append_Cons append_Nil)
    then show ?thesis by (induction ?ls arbitrary: j rule: list.induct) (auto intro: fold_invariant)
  qed
  ultimately show ?thesis
    using identity_lines_fold [OF assms(3)] by (simp add: parse_identity_def lines)
qed

definition sample_nodes :: "MeshNode list" where
  "sample_nodes = [\<lparr>mn_name = ''server1'', mn_ip = ''10.100.0.2''\<rparr>, \<lparr>mn_name = ''agent1'', mn_ip = ''10.100.0.3''\<rparr>]"

definition sample_identity :: SnapIdentity where
  "sample_identity = \<lparr>si_closure = Some ''/nix/store/vm'', si_vmm = Some ''/bin/firecracker'',
     si_cpu = Some ''template:T2'', si_cpu_host = Some ''AMD 7''\<rparr>"

theorem manifest_roundtrip_witness:
  "read_manifest (manifest_body sample_nodes sample_identity) = Inr sample_nodes
   \<and> parse_identity (manifest_body sample_nodes sample_identity) = sample_identity"
  by (rule manifest_roundtrip)
     (simp_all add: sample_nodes_def sample_identity_def plain_node_def plain_def plain_identity_def is_ws_def)

text \<open>A mesh with more than one server is taken only when the launcher's manifest says it is
  volatile, and the nodes taken come with a server first whenever there is one (the resume probes
  the first node), in role and number order.\<close>
theorem mesh_take_safe:
  assumes "mesh_take_nodes flags names run_manifest = Inr nodes"
  shows "(1 < length (filter (\<lambda>n. is_server_name (mn_name n)) nodes) \<longrightarrow>
      (\<exists>raw m. run_manifest = Some raw \<and> parse_run_manifest raw = Inr m \<and> rm_posture m = ''volatile''))
    \<and> nodes \<noteq> [] \<and> sorted (map (\<lambda>n. mesh_order_key (mn_name n)) nodes)
    \<and> ((\<exists>n \<in> set nodes. is_server_name (mn_name n)) \<longrightarrow> is_server_name (mn_name (hd nodes)))"
proof -
  from assms obtain manifest where
    nodes: "mesh_nodes flags (Some names) manifest = Inr nodes"
    and gate: "assert_volatile_mesh_take (length (filter (\<lambda>n. is_server_name (mn_name n)) nodes)) manifest = None"
    and man: "manifest = None \<or> (\<exists>raw m. run_manifest = Some raw \<and> parse_run_manifest raw = Inr m \<and> manifest = Some m)"
    unfolding mesh_take_nodes_def by (auto simp: map_sum_Inr split: option.splits sum.splits)
  obtain ns where ns: "nodes = mesh_sort ns" "ns \<noteq> []"
    using nodes unfolding mesh_nodes_def by (auto split: sum.splits option.splits if_splits)
  have "sorted (map (\<lambda>n. (mesh_order_key (mn_name n), mn_name n)) nodes)" by (simp add: ns mesh_sort_def)
  then have sorted: "sorted (map (\<lambda>n. mesh_order_key (mn_name n)) nodes)"
    unfolding sorted_map by (rule sorted_wrt_mono_rel [rotated]) auto
  have ne: "nodes \<noteq> []" using ns by (simp add: mesh_sort_def) (metis length_0_conv length_sort)
  have "is_server_name (mn_name (hd nodes))" if "n \<in> set nodes" "is_server_name (mn_name n)" for n
  proof -
    have "mesh_order_key (mn_name (hd nodes)) \<le> mesh_order_key (mn_name n)"
      using sorted ne that(1) by (cases nodes) auto
    then have "fst (mesh_order_key (mn_name (hd nodes))) \<le> fst (mesh_order_key (mn_name n))"
      by (auto simp: less_eq_prod_def)
    with that(2) show ?thesis by (simp add: order_key_server)
  qed
  with gate man sorted ne show ?thesis
    by (auto simp: assert_volatile_mesh_take_def split: option.splits if_splits)
qed

theorem mesh_take_safe_witness:
  "\<exists>nodes. mesh_take_nodes [] [''agent1'', ''server''] None = Inr nodes \<and> is_server_name (mn_name (hd nodes))"
proof -
  have "\<exists>nodes. mesh_take_nodes [] [''agent1'', ''server''] None = Inr nodes \<and> (\<exists>n \<in> set nodes. is_server_name (mn_name n))"
    by (simp add: mesh_take_nodes_def mesh_nodes_def conventional_ip_def number_suffix_def strip_prefix_def
        parse_unsigned_def digit_of_def is_server_name_def assert_volatile_mesh_take_def mesh_sort_def Let_def)
  then obtain nodes where n: "mesh_take_nodes [] [''agent1'', ''server''] None = Inr nodes"
    and s: "\<exists>n \<in> set nodes. is_server_name (mn_name n)" by blast
  from mesh_take_safe [OF n] s n show ?thesis by blast
qed

text \<open>The address convention is consistent: in a mesh of \<open>s\<close> servers and any number of agents, all
  node addresses are different.\<close>
theorem mesh_addresses_distinct:
  assumes "s + a < 2 ^ 31"
  shows "distinct (map (\<lambda>n. conventional_ip (''server'' @ show_nat n) s) [1..<Suc s]
    @ map (\<lambda>n. conventional_ip (''agent'' @ show_nat n) s) [1..<Suc a])"
proof -
  have "map (\<lambda>n. conventional_ip (''server'' @ show_nat n) s) [1..<Suc s] =
      map (\<lambda>n. Some (''10.100.0.'' @ show_nat (1 + n))) [1..<Suc s]"
    using assms by (intro map_cong refl server_ip) auto
  moreover have "map (\<lambda>n. conventional_ip (''agent'' @ show_nat n) s) [1..<Suc a] =
      map (\<lambda>n. Some (''10.100.0.'' @ show_nat (1 + s + n))) [1..<Suc a]"
    using assms by (intro map_cong refl agent_ip) auto
  ultimately show ?thesis
    by (auto simp: distinct_map inj_on_def show_nat_inject)
qed

theorem mesh_addresses_distinct_witness:
  "distinct (map (\<lambda>n. conventional_ip (''server'' @ show_nat n) 3) [1..<Suc 3]
    @ map (\<lambda>n. conventional_ip (''agent'' @ show_nat n) 3) [1..<Suc 2])"
  by (rule mesh_addresses_distinct) simp

end
