(* ===== verification/Snap_Vmm.thy ===== *)
theory Snap_Vmm
  imports Kubenyx_Prelude
begin

text \<open>
  The table of owned VMMs of \<open>kubenyx-snap/src/lib.rs\<close>: sixteen atomic slots that every exit path
  sweeps. The sequential operations are functions on the list of slots; the threads of a mesh resume,
  which claim slots at the same time, are a step relation in which every compare-and-exchange is one step.
\<close>

section \<open>Operations\<close>

definition OWNED_MAX :: nat where
  "OWNED_MAX = 16"

definition no_vmms :: "int list" where
  "no_vmms = replicate OWNED_MAX 0"

text \<open>\<open>compare_exchange(old, new)\<close> on one slot: the slot afterwards and whether it succeeded.\<close>

definition cas :: "int \<Rightarrow> int \<Rightarrow> int \<Rightarrow> int \<times> bool" where
  "cas old new slot = (if slot = old then (new, True) else (slot, False))"

text \<open>\<^const>\<open>None\<close> is the \<open>die\<close> of a full table.\<close>

fun own_vmm :: "int \<Rightarrow> int list \<Rightarrow> int list option" where
  "own_vmm pid [] = None"
| "own_vmm pid (slot # slots) =
     (case cas 0 pid slot of
        (s, True) \<Rightarrow> Some (s # slots)
      | (s, False) \<Rightarrow> map_option (Cons s) (own_vmm pid slots))"

definition disown_vmm :: "int \<Rightarrow> int list \<Rightarrow> int list" where
  "disown_vmm pid slots = map (\<lambda>s. fst (cas pid 0 s)) slots"

text \<open>The processes killed, in order, and the table afterwards.\<close>

fun kill_owned_vmm :: "int list \<Rightarrow> int list \<times> int list" where
  "kill_owned_vmm [] = ([], [])"
| "kill_owned_vmm (pid # slots) =
     (case kill_owned_vmm slots of (killed, rest) \<Rightarrow>
        (if 0 < pid then pid # killed else killed, 0 # rest))"

section \<open>Sequential facts\<close>

lemma kill_owned_eq: "kill_owned_vmm slots = (filter (\<lambda>p. 0 < p) slots, map (\<lambda>_. 0) slots)"
  by (induction slots) auto

lemma own_vmm_Some:
  "own_vmm pid slots = Some slots' \<Longrightarrow>
     \<exists>a b. slots = a @ 0 # b \<and> slots' = a @ pid # b \<and> 0 \<notin> set a"
proof (induction slots arbitrary: slots')
  case (Cons s slots)
  show ?case
  proof (cases "s = 0")
    case True
    with Cons.prems show ?thesis by (intro exI [of _ "[]"] exI [of _ slots]) (simp add: cas_def)
  next
    case False
    with Cons.prems obtain t where "own_vmm pid slots = Some t" "slots' = s # t" by (auto simp: cas_def)
    with Cons.IH [of t] False obtain a b where "slots = a @ 0 # b" "t = a @ pid # b" "0 \<notin> set a" by auto
    with False \<open>slots' = s # t\<close> show ?thesis
      by (intro exI [of _ "s # a"] exI [of _ b]) auto
  qed
qed simp

lemma own_vmm_None: "own_vmm pid slots = None \<longleftrightarrow> 0 \<notin> set slots"
  by (induction slots) (auto simp: cas_def)

lemma own_vmm_members:
  "own_vmm pid slots = Some slots' \<Longrightarrow>
     length slots' = length slots \<and> set slots' - {0} = insert pid (set slots) - {0}"
  by (drule own_vmm_Some) auto

lemma disown_members [simp]: "set (disown_vmm pid slots) - {0} = set slots - {0, pid}"
  by (auto simp: disown_vmm_def cas_def split: if_splits)

lemma length_disown [simp]: "length (disown_vmm pid slots) = length slots"
  by (simp add: disown_vmm_def)

section \<open>Threads that claim slots\<close>

text \<open>
  A thread is scanning for its process (at a slot), holds a slot, or has found the table full.
\<close>

datatype Claim = Scan int nat | Holds int | Full int

fun claim_pid :: "Claim \<Rightarrow> int" where
  "claim_pid (Scan p i) = p"
| "claim_pid (Holds p) = p"
| "claim_pid (Full p) = p"

text \<open>One iteration of the loop of \<open>own_vmm\<close>, or its end, as one step of thread \<open>k\<close>.\<close>

inductive claim_step :: "int list \<times> Claim list \<Rightarrow> int list \<times> Claim list \<Rightarrow> bool" where
  take_slot: "k < length ths \<Longrightarrow> ths ! k = Scan p i \<Longrightarrow> i < length slots \<Longrightarrow>
     cas 0 p (slots ! i) = (s, True) \<Longrightarrow> claim_step (slots, ths) (slots[i := s], ths[k := Holds p])"
| next_slot: "k < length ths \<Longrightarrow> ths ! k = Scan p i \<Longrightarrow> i < length slots \<Longrightarrow>
     cas 0 p (slots ! i) = (s, False) \<Longrightarrow> claim_step (slots, ths) (slots[i := s], ths[k := Scan p (Suc i)])"
| table_full: "k < length ths \<Longrightarrow> ths ! k = Scan p i \<Longrightarrow> i = length slots \<Longrightarrow>
     claim_step (slots, ths) (slots, ths[k := Full p])"

definition claims_start :: "int list \<Rightarrow> int list \<times> Claim list" where
  "claims_start pids = (no_vmms, map (\<lambda>p. Scan p 0) pids)"

inductive claims_reach :: "int list \<Rightarrow> int list \<times> Claim list \<Rightarrow> bool" where
  start: "claims_reach pids (claims_start pids)"
| step: "claims_reach pids st \<Longrightarrow> claim_step st st' \<Longrightarrow> claims_reach pids st'"

definition claims_inv :: "int list \<Rightarrow> int list \<times> Claim list \<Rightarrow> bool" where
  "claims_inv pids st \<longleftrightarrow> (case st of (slots, ths) \<Rightarrow>
     length slots = OWNED_MAX \<and> map claim_pid ths = pids
     \<and> (\<forall>p i. Scan p i \<in> set ths \<longrightarrow> i \<le> length slots \<and> (\<forall>j < i. slots ! j \<noteq> 0))
     \<and> (\<forall>p. Full p \<in> set ths \<longrightarrow> 0 \<notin> set slots)
     \<and> (\<forall>s \<in> set slots. s \<noteq> 0 \<longrightarrow> Holds s \<in> set ths)
     \<and> (\<forall>p. Holds p \<in> set ths \<longrightarrow> p \<in> set slots)
     \<and> distinct (filter (\<lambda>s. s \<noteq> 0) slots))"

lemma claims_invD:
  assumes "claims_inv pids (slots, ths)"
  shows "length slots = OWNED_MAX" "map claim_pid ths = pids"
    "\<And>p i. Scan p i \<in> set ths \<Longrightarrow> i \<le> length slots \<and> (\<forall>j < i. slots ! j \<noteq> 0)"
    "\<And>p. Full p \<in> set ths \<Longrightarrow> 0 \<notin> set slots"
    "\<And>s. s \<in> set slots \<Longrightarrow> s \<noteq> 0 \<Longrightarrow> Holds s \<in> set ths"
    "\<And>p. Holds p \<in> set ths \<Longrightarrow> p \<in> set slots"
    "distinct (filter (\<lambda>s. s \<noteq> 0) slots)"
  using assms by (auto simp: claims_inv_def)

lemma one_thread_per_pid:
  assumes "distinct (map claim_pid ths)" "c \<in> set ths" "d \<in> set ths" "claim_pid c = claim_pid d"
  shows "c = d"
  using assms by (auto simp: distinct_map dest: inj_onD)

lemma nonzero_update:
  assumes "i < length slots" "slots ! i = 0" "p \<noteq> 0" "p \<notin> set slots" "distinct (filter (\<lambda>s. s \<noteq> 0) slots)"
  shows "distinct (filter (\<lambda>s. s \<noteq> 0) (slots[i := p]))"
proof -
  have s: "slots = take i slots @ 0 # drop (Suc i) slots"
    using assms(1,2) id_take_nth_drop by metis
  have "distinct (filter (\<lambda>s. s \<noteq> 0) (take i slots @ drop (Suc i) slots))"
    using assms(5) by (subst (asm) s) simp
  moreover have "p \<notin> set (take i slots @ drop (Suc i) slots)"
    using assms(4) by (auto dest: in_set_takeD in_set_dropD)
  ultimately show ?thesis using assms(1,3) by (auto simp: upd_conv_take_nth_drop)
qed

lemma nth_update_nonzero:
  "\<forall>j < m. slots ! j \<noteq> 0 \<Longrightarrow> p \<noteq> (0 :: int) \<Longrightarrow> m \<le> length slots \<Longrightarrow> j < m \<Longrightarrow> slots[i := p] ! j \<noteq> 0"
  by (cases "i = j") auto

lemma claims_inv_take:
  assumes inv: "claims_inv pids (slots, ths)" and pids: "distinct pids" "0 \<notin> set pids"
    and k: "k < length ths" "ths ! k = Scan p i" and i: "i < length slots" "slots ! i = 0"
  shows "claims_inv pids (slots[i := p], ths[k := Holds p])"
proof -
  note D = claims_invD [OF inv]
  have mem: "Scan p i \<in> set ths" using k nth_mem by metis
  have p: "p \<noteq> 0" using mem D(2) pids(2) by force
  have one: "c = Scan p i" if "c \<in> set ths" "claim_pid c = p" for c
    using one_thread_per_pid [of ths c "Scan p i"] that mem D(2) pids(1) by simp
  have fresh: "p \<notin> set slots" using D(5) [of p] one [of "Holds p"] p by auto
  have no_full: "Full q \<notin> set ths" for q using D(4) [of q] i by (metis nth_mem)
  have "map claim_pid (ths[k := Holds p]) = pids"
    using D(2) k by (metis claim_pid.simps(1,2) list_update_id map_update)
  moreover have "j \<le> length slots \<and> (\<forall>l < j. slots[i := p] ! l \<noteq> 0)" if "Scan q j \<in> set (ths[k := Holds p])" for q j
  proof -
    from that have "Scan q j \<in> set ths" by (auto dest!: subsetD [OF set_update_subset_insert])
    from D(3) [OF this] p show ?thesis using nth_update_nonzero [of j slots p] by blast
  qed
  moreover have "Full q \<notin> set (ths[k := Holds p])" for q
    using no_full by (auto dest!: subsetD [OF set_update_subset_insert])
  moreover have "Holds s \<in> set (ths[k := Holds p])" if "s \<in> set (slots[i := p])" "s \<noteq> 0" for s
  proof (cases "s = p")
    case True
    then show ?thesis using k(1) by (simp add: set_update_memI)
  next
    case False
    with that have "s \<in> set slots" by (auto dest!: subsetD [OF set_update_subset_insert])
    with D(5) that(2) obtain l where "l < length ths" "ths ! l = Holds s" by (metis in_set_conv_nth)
    with k show ?thesis by (metis Claim.distinct(1) length_list_update nth_list_update_neq nth_mem)
  qed
  moreover have "q \<in> set (slots[i := p])" if "Holds q \<in> set (ths[k := Holds p])" for q
  proof (cases "q = p")
    case False
    with that have "Holds q \<in> set ths" by (auto dest!: subsetD [OF set_update_subset_insert])
    with D(6) obtain l where "l < length slots" "slots ! l = q" by (metis in_set_conv_nth)
    moreover from this i have "q \<noteq> 0 \<Longrightarrow> l \<noteq> i" by auto
    moreover have "q \<noteq> 0" using \<open>Holds q \<in> set ths\<close> D(2) pids(2) by force
    ultimately show ?thesis by (metis length_list_update nth_list_update_neq nth_mem)
  qed (simp add: i(1) set_update_memI)
  ultimately show ?thesis
    unfolding claims_inv_def using D(1) nonzero_update [OF i p fresh D(7)] by simp
qed

lemma claims_inv_move:
  assumes inv: "claims_inv pids (slots, ths)" and k: "k < length ths" "ths ! k = Scan p i"
    and c: "claim_pid c = p" "\<And>q. c \<noteq> Holds q"
    "\<And>q j. c = Scan q j \<Longrightarrow> j \<le> length slots \<and> (\<forall>l < j. slots ! l \<noteq> 0)"
    "\<And>q. c = Full q \<Longrightarrow> 0 \<notin> set slots"
  shows "claims_inv pids (slots, ths[k := c])"
proof -
  note D = claims_invD [OF inv]
  have old: "d \<in> set ths \<or> d = c" if "d \<in> set (ths[k := c])" for d
    using that by (auto dest!: subsetD [OF set_update_subset_insert])
  have "map claim_pid (ths[k := c]) = pids"
    using D(2) k c(1) by (metis claim_pid.simps(1) list_update_id map_update)
  moreover have "Holds s \<in> set (ths[k := c])" if "Holds s \<in> set ths" for s
  proof -
    from that obtain l where "l < length ths" "ths ! l = Holds s" by (metis in_set_conv_nth)
    with k show ?thesis by (metis Claim.distinct(1) length_list_update nth_list_update_neq nth_mem)
  qed
  moreover have "p \<in> set slots" if "Holds p \<in> set (ths[k := c])" for p
    using old [OF that] c(2) D(6) by metis
  moreover have "j \<le> length slots \<and> (\<forall>l < j. slots ! l \<noteq> 0)" if "Scan q j \<in> set (ths[k := c])" for q j
    using old [OF that] c(3) D(3) by metis
  moreover have "0 \<notin> set slots" if "Full q \<in> set (ths[k := c])" for q
    using old [OF that] c(4) D(4) by metis
  ultimately show ?thesis unfolding claims_inv_def using D(1,5,7) by (simp, blast)
qed

lemma claims_inv_step:
  assumes "claims_inv pids st" "claim_step st st'" "distinct pids" "0 \<notin> set pids"
  shows "claims_inv pids st'"
  using assms(2,1)
proof cases
  case (take_slot k ths p i slots s)
  then show ?thesis
    using claims_inv_take [of pids slots ths k p i] assms by (auto simp: cas_def split: if_splits)
next
  case (next_slot k ths p i slots s)
  then have s: "s = slots ! i" "slots ! i \<noteq> 0" by (auto simp: cas_def split: if_splits)
  have "Scan p i \<in> set ths" using next_slot by (metis nth_mem)
  with next_slot assms(1) have "\<forall>l < i. slots ! l \<noteq> 0" using claims_invD(3) by blast
  with s(2) have "\<forall>l < Suc i. slots ! l \<noteq> 0" using less_Suc_eq by auto
  then show ?thesis
    using claims_inv_move [of pids slots ths k p i "Scan p (Suc i)"] next_slot assms(1) s
    by (auto simp: less_Suc_eq)
next
  case (table_full k ths p i slots)
  have "Scan p i \<in> set ths" using table_full by (metis nth_mem)
  with table_full assms(1) have "\<forall>l < length slots. slots ! l \<noteq> 0" using claims_invD(3) by blast
  then have "0 \<notin> set slots" by (auto simp: in_set_conv_nth)
  then show ?thesis
    using claims_inv_move [of pids slots ths k p i "Full p"] table_full assms(1) by auto
qed

lemma claims_reach_inv:
  "claims_reach pids st \<Longrightarrow> distinct pids \<Longrightarrow> 0 \<notin> set pids \<Longrightarrow> claims_inv pids st"
proof (induction rule: claims_reach.induct)
  case (start pids)
  then show ?case by (auto simp: claims_inv_def claims_start_def no_vmms_def comp_def)
next
  case (step pids st st')
  then show ?case by (blast intro: claims_inv_step)
qed

text \<open>A full table needs more threads than slots.\<close>

lemma full_needs_many:
  assumes inv: "claims_inv pids (slots, ths)" and pids: "distinct pids" and full: "Full p \<in> set ths"
  shows "OWNED_MAX < length pids"
proof -
  note D = claims_invD [OF inv]
  have nz: "0 \<notin> set slots" using D(4) full by blast
  then have "filter (\<lambda>s. s \<noteq> 0) slots = slots" by (auto simp: filter_id_conv)
  then have card: "card (set slots) = OWNED_MAX" using D(1,7) distinct_card by fastforce
  have "set slots \<subseteq> set pids" using D(2,5) nz by (metis claim_pid.simps(2) image_eqI image_set subsetI)
  moreover have "p \<in> set pids" using full D(2) by force
  moreover have "p \<notin> set slots"
    using D(5) [of p] nz one_thread_per_pid [of ths "Holds p" "Full p"] full D(2) pids by auto
  ultimately have "card (insert p (set slots)) \<le> card (set pids)" by (intro card_mono) auto
  then show ?thesis using card \<open>p \<notin> set slots\<close> distinct_card [OF pids] by simp
qed

text \<open>The steps left: each scanning thread has at most one visit to each slot and one last step.\<close>

fun claim_work :: "Claim \<Rightarrow> nat" where
  "claim_work (Scan p i) = Suc (OWNED_MAX - i)"
| "claim_work (Holds p) = 0"
| "claim_work (Full p) = 0"

lemma sum_list_update_less:
  "k < length ths \<Longrightarrow> claim_work c < claim_work (ths ! k) \<Longrightarrow>
     sum_list (map claim_work (ths[k := c])) < sum_list (map claim_work ths)"
  by (induction ths arbitrary: k) (auto split: nat.split)

lemma claim_step_work:
  assumes "claim_step (slots, ths) (slots', ths')" "claims_inv pids (slots, ths)"
  shows "sum_list (map claim_work ths') < sum_list (map claim_work ths)"
  using assms(1)
proof cases
  case (take_slot k p i s)
  then show ?thesis by (auto intro: sum_list_update_less)
next
  case (next_slot k p i s)
  moreover have "length slots = OWNED_MAX" using claims_invD(1) [OF assms(2)] .
  ultimately show ?thesis by (auto intro!: sum_list_update_less)
next
  case (table_full k p i)
  then show ?thesis by (auto intro: sum_list_update_less)
qed

lemma claim_progress:
  assumes "claims_inv pids (slots, ths)" "Scan p i \<in> set ths"
  shows "\<exists>st'. claim_step (slots, ths) st'"
proof -
  obtain k where k: "k < length ths" "ths ! k = Scan p i" using assms(2) by (metis in_set_conv_nth)
  have "i \<le> length slots" using claims_invD(3) [OF assms] by blast
  then consider "i = length slots" | "i < length slots" "slots ! i = 0" | "i < length slots" "slots ! i \<noteq> 0"
    by fastforce
  then show ?thesis
  proof cases
    case 1
    from claim_step.table_full [OF k this] show ?thesis by blast
  next
    case 2
    with claim_step.take_slot [OF k 2(1), of p] show ?thesis by (auto simp: cas_def)
  next
    case 3
    with claim_step.next_slot [OF k 3(1), of "slots ! i"] show ?thesis by (auto simp: cas_def)
  qed
qed

section \<open>Properties\<close>

text \<open>C19: concurrent claims lose no VMM: when at most sixteen threads claim slots for distinct processes, in
  any interleaving of their compare-and-exchanges, no thread ever finds the table full, every run ends
  (each step leaves less work, and a thread that has not finished can step), and once all have finished
  the sweep of an exit path kills exactly their processes.\<close>
theorem concurrent_claims_safe:
  assumes "claims_reach pids (slots, ths)" "distinct pids" "\<forall>p \<in> set pids. 0 < p" "length pids \<le> OWNED_MAX"
  shows "(\<forall>p. Full p \<notin> set ths)
    \<and> (\<forall>slots' ths'. claim_step (slots, ths) (slots', ths') \<longrightarrow>
         sum_list (map claim_work ths') < sum_list (map claim_work ths))
    \<and> ((\<exists>st'. claim_step (slots, ths) st')
       \<or> ths = map Holds pids \<and> set (fst (kill_owned_vmm slots)) = set pids)"
proof -
  have inv: "claims_inv pids (slots, ths)" using claims_reach_inv assms(1-3) by fastforce
  note D = claims_invD [OF inv]
  have none: "Full p \<notin> set ths" for p using full_needs_many [OF inv assms(2)] assms(4) by fastforce
  have "ths = map Holds pids \<and> set (fst (kill_owned_vmm slots)) = set pids"
    if "\<nexists>st'. claim_step (slots, ths) st'"
  proof -
    have "c = Holds (claim_pid c)" if "c \<in> set ths" for c
      by (rule Claim.exhaust [of c])
         (use that none claim_progress [OF inv] \<open>\<nexists>st'. claim_step (slots, ths) st'\<close> in \<open>metis claim_pid.simps(2)\<close>)+
    then have ths: "ths = map Holds pids" using D(2) by (metis map_idI map_map comp_apply)
    have "s \<in> set pids" if "s \<in> set slots" "0 < s" for s using D(5) that ths by auto
    moreover have "p \<in> set slots \<and> 0 < p" if "p \<in> set pids" for p using D(6) that ths assms(3) by simp
    ultimately have "set (fst (kill_owned_vmm slots)) = set pids" by (auto simp: kill_owned_eq)
    with ths show ?thesis by blast
  qed
  then show ?thesis using none claim_step_work [OF _ inv] by blast
qed

theorem concurrent_claims_safe_witness:
  "\<forall>p. Full p \<notin> set (snd (claims_start [7, 8]))"
  using concurrent_claims_safe [of "[7, 8]" "fst (claims_start [7, 8])" "snd (claims_start [7, 8])"]
    claims_reach.start [of "[7, 8]"]
  by (simp add: OWNED_MAX_def)

text \<open>One VMM too many is leaked: when more than sixteen threads claim slots, every finished run has a
  thread that found the table full, and the sweep that its \<open>die\<close> starts does not kill its process.\<close>
theorem excess_vmm_leaks:
  assumes "claims_reach pids (slots, ths)" "distinct pids" "\<forall>p \<in> set pids. 0 < p" "OWNED_MAX < length pids"
    and "\<nexists>st'. claim_step (slots, ths) st'"
  shows "\<exists>p \<in> set pids. Full p \<in> set ths \<and> p \<notin> set (fst (kill_owned_vmm slots))"
proof -
  have inv: "claims_inv pids (slots, ths)" using claims_reach_inv assms(1-3) by fastforce
  note D = claims_invD [OF inv]
  have "\<exists>p \<in> set pids. p \<notin> set slots"
  proof (rule ccontr)
    assume "\<not> (\<exists>p \<in> set pids. p \<notin> set slots)"
    then have "card (set pids) \<le> card (set slots)" by (intro card_mono) auto
    then show False using card_length [of slots] D(1) assms(4) distinct_card [OF assms(2)] by simp
  qed
  then obtain p where p: "p \<in> set pids" "p \<notin> set slots" by blast
  then obtain c where c: "c \<in> set ths" "claim_pid c = p" using D(2) by (metis imageE image_set)
  have "c = Full p"
    by (rule Claim.exhaust [of c]) (use c p(2) D(6) claim_progress [OF inv] assms(5) in \<open>metis claim_pid.simps\<close>)+
  with c p show ?thesis by (auto simp: kill_owned_eq)
qed

end
