(* ===== verification/Snap_Api.thy ===== *)
theory Snap_Api
  imports Rust_Str
begin

text \<open>
  What \<open>kubenyx-snap/src/lib.rs\<close> says over its sockets: the HTTP client of the firecracker API (\<open>api\<close>,
  \<open>api_expect\<close>), the liveness and quorum-write probes, the kubeconfig lookup, and the waiting loops.
  A socket is the list of the results of its reads; text is ASCII, on which the lossy decoding of the code
  is the identity. A loop with a deadline gets the clock readings and answers of its rounds as a list.
\<close>

section \<open>The firecracker API client\<close>

datatype SockRead = Chunk string | SockErr

definition CRLF2 :: string where
  "CRLF2 = [CHR 0x0D, CHR 0x0A, CHR 0x0D, CHR 0x0A]"

definition api_request :: "string \<Rightarrow> string \<Rightarrow> string \<Rightarrow> string" where
  "api_request meth path body =
     meth @ '' '' @ path @ '' HTTP/1.1'' @ [CHR 0x0D, CHR 0x0A] @ ''Host: localhost'' @ [CHR 0x0D, CHR 0x0A]
     @ ''Content-Type: application/json'' @ [CHR 0x0D, CHR 0x0A]
     @ ''Content-Length: '' @ show_nat (length body) @ CRLF2 @ body"

text \<open>
  The loop up to the blank line: what has been received, the end of the headers, and the reads that are
  left. An empty chunk is the end of the stream; a read beyond the list is the timeout.
\<close>

fun api_headers :: "string \<Rightarrow> SockRead list \<Rightarrow> string + (string \<times> nat \<times> SockRead list)" where
  "api_headers raw rs =
     (case split_once CRLF2 raw of
        Some (h, _) \<Rightarrow> Inr (raw, length h + 4, rs)
      | None \<Rightarrow>
          (case rs of
             [] \<Rightarrow> Inl ''API read''
           | SockErr # _ \<Rightarrow> Inl ''API read''
           | Chunk c # rs' \<Rightarrow> if c = [] then Inr (raw, length raw, rs') else api_headers (raw @ c) rs'))"

definition ascii_lower :: "char \<Rightarrow> char" where
  "ascii_lower c = (let n = of_char c :: nat in if 65 \<le> n \<and> n \<le> 90 then char_of (n + 32) else c)"

definition eq_ignore_ascii_case :: "string \<Rightarrow> string \<Rightarrow> bool" where
  "eq_ignore_ascii_case a b \<longleftrightarrow> map ascii_lower a = map ascii_lower b"

fun find_length :: "string list \<Rightarrow> nat option" where
  "find_length [] = None"
| "find_length (l # ls) =
     (case split_once '':'' l of
        None \<Rightarrow> find_length ls
      | Some (k, v) \<Rightarrow>
          if eq_ignore_ascii_case k ''content-length''
          then (case parse_unsigned 64 (trim v) of Some n \<Rightarrow> Some n | None \<Rightarrow> find_length ls)
          else find_length ls)"

definition content_length :: "string \<Rightarrow> nat" where
  "content_length headers = (case find_length (str_lines headers) of Some n \<Rightarrow> n | None \<Rightarrow> 0)"

fun api_body :: "nat \<Rightarrow> string \<Rightarrow> SockRead list \<Rightarrow> string + (string \<times> SockRead list)" where
  "api_body want raw rs =
     (if want \<le> length raw then Inr (raw, rs)
      else case rs of
             [] \<Rightarrow> Inl ''API read''
           | SockErr # _ \<Rightarrow> Inl ''API read''
           | Chunk c # rs' \<Rightarrow> if c = [] then Inr (raw, rs') else api_body want (raw @ c) rs')"

definition status_of :: "string \<Rightarrow> nat option" where
  "status_of headers =
     (case words_of headers of _ # code # _ \<Rightarrow> parse_unsigned 16 code | _ \<Rightarrow> None)"

text \<open>The answer to a request, with the reads that were not needed.\<close>

definition api_answer :: "SockRead list \<Rightarrow> string + (nat \<times> string \<times> SockRead list)" where
  "api_answer rs =
     (case api_headers [] rs of
        Inl e \<Rightarrow> Inl e
      | Inr (raw, header_end, rs1) \<Rightarrow>
          let headers = take header_end raw
          in case api_body ((header_end + content_length headers) mod 2 ^ 64) raw rs1 of
               Inl e \<Rightarrow> Inl e
             | Inr (raw', rs2) \<Rightarrow>
                 (case status_of headers of
                    None \<Rightarrow> Inl (''bad API response: '' @ take 120 headers)
                  | Some status \<Rightarrow> Inr (status, drop header_end raw', rs2)))"

text \<open>\<open>api_expect\<close>: a message unless the status is 2xx.\<close>

definition api_expect :: "string \<Rightarrow> string \<Rightarrow> nat \<times> string \<Rightarrow> string option" where
  "api_expect meth path r =
     (case r of (status, resp) \<Rightarrow>
        if 200 \<le> status \<and> status < 300 then None
        else Some (meth @ '' '' @ path @ '' -> '' @ show_nat status @ '': '' @ take 300 resp))"

section \<open>Probes\<close>

text \<open>The first read of the liveness probe: any HTTP answer of twelve bytes counts.\<close>

definition probe_answered :: "string \<Rightarrow> bool" where
  "probe_answered buf \<longleftrightarrow> 12 \<le> length buf \<and> starts_with ''HTTP/'' buf"

definition livez_request :: "string \<Rightarrow> string" where
  "livez_request host =
     ''GET /livez HTTP/1.1'' @ [CHR 0x0D, CHR 0x0A] @ ''Host: '' @ host @ [CHR 0x0D, CHR 0x0A]
     @ ''Connection: close'' @ CRLF2"

definition host_of :: "string \<Rightarrow> string" where
  "host_of addr = takeWhile (\<lambda>c. c \<noteq> CHR '':'') addr"

text \<open>
  One attempt to speak TLS to an address: whether it connects, the host is a valid server name, a session can
  be made, the request is written, and the results of the reads.
\<close>

record TlsTry =
  tt_connect :: bool
  tt_name :: bool
  tt_session :: bool
  tt_write :: bool
  tt_reads :: "SockRead list"

text \<open>\<open>addr_ok\<close> says which socket addresses parse; \<^const>\<open>Inl\<close> is a \<open>die\<close>.\<close>

definition probe_once :: "(string \<Rightarrow> bool) \<Rightarrow> string \<Rightarrow> TlsTry \<Rightarrow> string + bool" where
  "probe_once addr_ok addr t =
     (if \<not> addr_ok addr then Inl (''bad probe address '' @ addr)
      else if \<not> tt_connect t then Inr False
      else if \<not> tt_name t then Inl ''bad probe host''
      else if \<not> tt_session t \<or> \<not> tt_write t then Inr False
      else Inr (case tt_reads t of Chunk c # _ \<Rightarrow> probe_answered (take 16 c) | _ \<Rightarrow> False))"

text \<open>\<open>wait_api\<close>: per round the time elapsed at its start, its probe, and the time after it.\<close>

fun wait_api :: "(string \<Rightarrow> bool) \<Rightarrow> string \<Rightarrow> nat \<Rightarrow> (nat \<times> TlsTry \<times> nat) list \<Rightarrow> string + nat option" where
  "wait_api addr_ok addr timeout [] = Inr None"
| "wait_api addr_ok addr timeout ((elapsed, t, now) # rounds) =
     (if timeout \<le> elapsed then Inr None
      else case probe_once addr_ok addr t of
             Inl e \<Rightarrow> Inl e
           | Inr True \<Rightarrow> Inr (Some now)
           | Inr False \<Rightarrow> wait_api addr_ok addr timeout rounds)"

text \<open>The body of an HTTP/1.0 answer with a status that starts with 2.\<close>

definition http_get_body :: "string \<Rightarrow> string option" where
  "http_get_body text =
     (case split_once CRLF2 text of
        None \<Rightarrow> None
      | Some (headers, body) \<Rightarrow>
          (case words_of headers of
             _ # c # _ \<Rightarrow> if starts_with ''2'' c then Some body else None
           | _ \<Rightarrow> None))"

fun find_value :: "string \<Rightarrow> string list \<Rightarrow> string option" where
  "find_value pat [] = None"
| "find_value pat (l # ls) =
     (case strip_prefix pat (trim_start l) of
        Some v \<Rightarrow> Some (trim v)
      | None \<Rightarrow> find_value pat ls)"

definition kubeconfig_value :: "string \<Rightarrow> string \<Rightarrow> string option" where
  "kubeconfig_value kc key = find_value (key @ '': '') (str_lines kc)"

text \<open>
  The end of \<open>quorum_client\<close>: host and address of the server of the kubeconfig. \<open>certs\<close> says whether the
  decoded material makes a TLS client.
\<close>

definition quorum_client :: "(string \<Rightarrow> string \<Rightarrow> string \<Rightarrow> string option) \<Rightarrow> string \<Rightarrow> string + (string \<times> string)" where
  "quorum_client certs kc =
     (case kubeconfig_value kc ''certificate-authority-data'' of
        None \<Rightarrow> Inl ''kubeconfig has no certificate-authority-data''
      | Some ca \<Rightarrow>
     (case kubeconfig_value kc ''client-certificate-data'' of
        None \<Rightarrow> Inl ''kubeconfig has no client-certificate-data''
      | Some crt \<Rightarrow>
     (case kubeconfig_value kc ''client-key-data'' of
        None \<Rightarrow> Inl ''kubeconfig has no client-key-data''
      | Some key \<Rightarrow>
     (case certs ca crt key of
        Some e \<Rightarrow> Inl e
      | None \<Rightarrow>
     (case kubeconfig_value kc ''server'' of
        None \<Rightarrow> Inl ''kubeconfig has no server''
      | Some url \<Rightarrow>
     (case strip_prefix ''https://'' url of
        None \<Rightarrow> Inl (''kubeconfig server URL not https: '' @ url)
      | Some hostport \<Rightarrow> Inr (host_of hostport, hostport)))))))"

definition quorum_body :: "nat \<Rightarrow> string" where
  "quorum_body stamp =
     (let q = [CHR 0x22]
      in ''{'' @ q @ ''metadata'' @ q @ '':{'' @ q @ ''annotations'' @ q @ '':{'' @ q
         @ ''kubenyx.io/snap-quorum-probe'' @ q @ '':'' @ q @ show_nat stamp @ q @ ''}}}'')"

definition quorum_request :: "string \<Rightarrow> nat \<Rightarrow> string" where
  "quorum_request host stamp =
     (let nl = [CHR 0x0D, CHR 0x0A]; body = quorum_body stamp
      in ''PATCH /api/v1/namespaces/default HTTP/1.1'' @ nl @ ''Host: '' @ host @ nl
         @ ''Content-Type: application/strategic-merge-patch+json'' @ nl
         @ ''Content-Length: '' @ show_nat (length body) @ nl @ ''Connection: close'' @ CRLF2 @ body)"

text \<open>The status line of the answer: reads until a line end, an error or the end of the stream.\<close>

fun status_line :: "string \<Rightarrow> SockRead list \<Rightarrow> string" where
  "status_line raw rs =
     (if contains [CHR 0x0D, CHR 0x0A] raw then raw
      else case rs of
             Chunk c # rs' \<Rightarrow> if c = [] then raw else status_line (raw @ c) rs'
           | _ \<Rightarrow> raw)"

definition quorum_write_once :: "(string \<Rightarrow> bool) \<Rightarrow> string \<Rightarrow> TlsTry \<Rightarrow> string + bool" where
  "quorum_write_once addr_ok addr t =
     (if \<not> addr_ok addr then Inl (''bad quorum probe address '' @ addr)
      else if \<not> tt_connect t then Inr False
      else if \<not> tt_name t then Inl ''bad quorum probe host''
      else if \<not> tt_session t \<or> \<not> tt_write t then Inr False
      else let raw = status_line [] (tt_reads t)
           in Inr (starts_with ''HTTP/'' raw \<and> 9 < length raw \<and> raw ! 9 = CHR ''2''))"

text \<open>
  \<open>wait_quorum_write\<close>: first the rounds that fetch the kubeconfig (what was read, if the exchange went
  through, then the time), then the rounds that write (the time, then the attempt). \<^const>\<open>Inl\<close> is a \<open>die\<close>.
\<close>

fun fetch_kubeconfig :: "nat \<Rightarrow> (string option \<times> nat) list \<Rightarrow> string option" where
  "fetch_kubeconfig deadline [] = None"
| "fetch_kubeconfig deadline ((raw, now) # rounds) =
     (case Option.bind raw http_get_body of
        Some body \<Rightarrow> Some body
      | None \<Rightarrow> if deadline \<le> now then None else fetch_kubeconfig deadline rounds)"

fun write_rounds :: "(string \<Rightarrow> bool) \<Rightarrow> string \<Rightarrow> nat \<Rightarrow> (nat \<times> TlsTry) list \<Rightarrow> string + bool" where
  "write_rounds addr_ok addr deadline [] = Inr False"
| "write_rounds addr_ok addr deadline ((elapsed, t) # rounds) =
     (if deadline \<le> elapsed then Inr False
      else case quorum_write_once addr_ok addr t of
             Inl e \<Rightarrow> Inl e
           | Inr True \<Rightarrow> Inr True
           | Inr False \<Rightarrow> write_rounds addr_ok addr deadline rounds)"

definition wait_quorum_write :: "(string \<Rightarrow> bool) \<Rightarrow> (string \<Rightarrow> string \<Rightarrow> string \<Rightarrow> string option) \<Rightarrow> nat
    \<Rightarrow> (string option \<times> nat) list \<Rightarrow> (nat \<times> TlsTry) list \<Rightarrow> string + bool" where
  "wait_quorum_write addr_ok certs deadline fetches writes =
     (case fetch_kubeconfig deadline fetches of
        None \<Rightarrow> Inr False
      | Some kc \<Rightarrow>
          (case quorum_client certs kc of
             Inl e \<Rightarrow> Inl e
           | Inr (host, addr) \<Rightarrow> write_rounds addr_ok addr deadline writes))"

text \<open>
  \<open>wait_marker\<close>: per round the time elapsed and the console log, when it can be read. The search for an
  empty marker panics.
\<close>

fun wait_marker :: "nat \<Rightarrow> string \<Rightarrow> (nat \<times> string option) list \<Rightarrow> string + bool" where
  "wait_marker timeout marker [] = Inr False"
| "wait_marker timeout marker ((elapsed, data) # rounds) =
     (if timeout \<le> elapsed then Inr False
      else case data of
             None \<Rightarrow> wait_marker timeout marker rounds
           | Some d \<Rightarrow>
               if marker = [] then Inl ''window size must be non-zero''
               else if contains marker d then Inr True
               else wait_marker timeout marker rounds)"

declare api_headers.simps [simp del] api_body.simps [simp del] status_line.simps [simp del]

section \<open>Any chunking of an answer\<close>

lemma split_once_no_match: "split_once p s = None \<Longrightarrow> \<nexists>a b. s = a @ p @ b"
proof (induction s)
  case (Cons c s)
  then show ?case
  proof (intro notI, elim exE)
    fix a b assume eq: "c # s = a @ p @ b"
    from Cons.prems have no: "strip_prefix p (c # s) = None" "split_once p s = None"
      by (auto split: option.splits)
    show False
    proof (cases a)
      case Nil
      with eq no(1) show False by (metis append_Nil option.distinct(1) strip_prefix_append)
    next
      case (Cons x a')
      with eq have "s = a' @ p @ b" by simp
      with Cons.IH no(2) show False by blast
    qed
  qed
qed (auto split: if_splits)

text \<open>The first match stays the first match whatever follows it.\<close>

lemma split_once_mono: "split_once p s = Some (a, b) \<Longrightarrow> split_once p (s @ t) = Some (a, b @ t)"
proof (induction s arbitrary: a)
  case Nil
  then have "p = []" "a = []" "b = []" by (auto split: if_splits)
  then show ?case by (cases t) (auto simp: strip_prefix_def)
next
  case (Cons c s)
  show ?case
  proof (cases "strip_prefix p (c # s)")
    case None
    then have tk: "take (length p) (c # s) \<noteq> p" by (simp add: strip_prefix_def split: if_splits)
    from None Cons.prems obtain a' where a': "split_once p s = Some (a', b)" "a = c # a'" by auto
    then have "length p \<le> length s" using split_once_Some by fastforce
    then have "take (length p) ((c # s) @ t) = take (length p) (c # s)" by (simp only: take_append) simp
    then have "strip_prefix p (c # s @ t) = None" using tk by (simp add: strip_prefix_def)
    with Cons.IH [OF a'(1)] a'(2) show ?thesis by simp
  next
    case (Some r)
    then have "c # s = p @ r" by (simp add: strip_prefix_Some)
    then have "strip_prefix p (c # s @ t) = Some (r @ t)"
      by (metis append_Cons append_assoc strip_prefix_append)
    with Some Cons.prems show ?thesis by auto
  qed
qed

lemma api_headers_chunks:
  assumes "split_once CRLF2 (raw @ concat cs) = Some (h, body)" "\<forall>c \<in> set cs. c \<noteq> []"
  shows "\<exists>cs1 cs2. cs = cs1 @ cs2 \<and>
    api_headers raw (map Chunk cs @ rest) = Inr (raw @ concat cs1, length h + 4, map Chunk cs2 @ rest)
    \<and> split_once CRLF2 (raw @ concat cs1) \<noteq> None"
  using assms
proof (induction cs arbitrary: raw)
  case Nil
  then show ?case by (subst api_headers.simps) simp
next
  case (Cons c cs)
  show ?case
  proof (cases "split_once CRLF2 raw")
    case None
    with Cons.prems have "api_headers raw (map Chunk (c # cs) @ rest) = api_headers (raw @ c) (map Chunk cs @ rest)"
      by (subst api_headers.simps) simp
    moreover obtain cs1 cs2 where "cs = cs1 @ cs2"
      "api_headers (raw @ c) (map Chunk cs @ rest) = Inr ((raw @ c) @ concat cs1, length h + 4, map Chunk cs2 @ rest)"
      "split_once CRLF2 ((raw @ c) @ concat cs1) \<noteq> None"
      using Cons.IH [of "raw @ c"] Cons.prems by auto
    ultimately show ?thesis by (intro exI [of _ "c # cs1"] exI [of _ cs2]) simp
  next
    case (Some hb)
    obtain h' b' where hb: "hb = (h', b')" by (cases hb)
    with Some split_once_mono [of CRLF2 raw h' b' "concat (c # cs)"] Cons.prems(1) have "h' = h" by simp
    with Some hb show ?thesis
      by (intro exI [of _ "[]"] exI [of _ "c # cs"]) (subst api_headers.simps, simp)
  qed
qed

lemma api_body_chunks:
  assumes "want \<le> length (raw @ concat cs)" "\<forall>c \<in> set cs. c \<noteq> []"
  shows "\<exists>cs1 cs2. cs = cs1 @ cs2 \<and> want \<le> length (raw @ concat cs1) \<and>
    api_body want raw (map Chunk cs @ rest) = Inr (raw @ concat cs1, map Chunk cs2 @ rest)"
  using assms
proof (induction cs arbitrary: raw)
  case Nil
  then show ?case by (subst api_body.simps) simp
next
  case (Cons c cs)
  show ?case
  proof (cases "want \<le> length raw")
    case True
    then show ?thesis
      by (intro exI [of _ "[]"] exI [of _ "c # cs"]) (subst api_body.simps, simp)
  next
    case False
    with Cons.prems have "api_body want raw (map Chunk (c # cs) @ rest) = api_body want (raw @ c) (map Chunk cs @ rest)"
      by (subst api_body.simps) simp
    moreover obtain cs1 cs2 where "cs = cs1 @ cs2" "want \<le> length ((raw @ c) @ concat cs1)"
      "api_body want (raw @ c) (map Chunk cs @ rest) = Inr ((raw @ c) @ concat cs1, map Chunk cs2 @ rest)"
      using Cons.IH [of "raw @ c"] Cons.prems by auto
    ultimately show ?thesis by (intro exI [of _ "c # cs1"] exI [of _ cs2]) simp
  qed
qed

lemma concat_nonempty_Nil: "\<forall>c \<in> set cs. c \<noteq> [] \<Longrightarrow> concat cs = [] \<Longrightarrow> cs = []"
  by (cases cs) auto

text \<open>C22: the API client reads exactly the answer: for an answer whose headers end at the first blank line,
  carry a three-digit status and the length of the body, every way of cutting it into reads gives the
  status and the body, and nothing after it is read (firecracker keeps the connection open, so one more
  read would wait for the timeout).\<close>
theorem api_any_chunking:
  assumes first: "split_once CRLF2 (headers @ CRLF2 @ body) = Some (headers, body)"
    and len: "content_length (headers @ CRLF2) = length body"
    and size: "length headers + 4 + length body < 2 ^ 64"
    and status: "status_of (headers @ CRLF2) = Some status"
    and chunks: "concat cs = headers @ CRLF2 @ body" "\<forall>c \<in> set cs. c \<noteq> []"
  shows "api_answer (map Chunk cs @ rest) = Inr (status, body, rest)"
proof -
  obtain cs1 cs2 where c: "cs = cs1 @ cs2"
    "api_headers [] (map Chunk cs @ rest) = Inr (concat cs1, length headers + 4, map Chunk cs2 @ rest)"
    and m: "split_once CRLF2 (concat cs1) \<noteq> None"
    using api_headers_chunks [of "[]" cs headers body rest] first chunks by auto
  obtain h' b' where hb: "split_once CRLF2 (concat cs1) = Some (h', b')" using m by auto
  have "split_once CRLF2 (concat cs1 @ concat cs2) = Some (h', b' @ concat cs2)"
    using split_once_mono [OF hb] .
  then have h': "h' = headers" using first chunks(1) c(1) by simp
  then have pre: "take (length headers + 4) (concat cs1) = headers @ CRLF2"
    using split_once_Some [OF hb] by (simp add: CRLF2_def)
  let ?want = "length headers + 4 + length body"
  have total: "length (concat cs) = ?want" using chunks(1) by (simp add: CRLF2_def)
  obtain ds1 ds2 where d: "cs2 = ds1 @ ds2" "?want \<le> length (concat cs1 @ concat ds1)"
    "api_body ?want (concat cs1) (map Chunk cs2 @ rest) = Inr (concat cs1 @ concat ds1, map Chunk ds2 @ rest)"
    using api_body_chunks [of ?want "concat cs1" cs2 rest] total chunks(2) c(1) by fastforce
  have "length (concat cs1) + (length (concat ds1) + length (concat ds2)) = ?want"
    using total c(1) d(1) by simp
  moreover have "?want \<le> length (concat cs1) + length (concat ds1)" using d(2) by (simp only: length_append)
  ultimately have "length (concat ds2) = 0" by linarith
  then have "concat ds2 = []" by (simp only: length_0_conv)
  then have "ds2 = []" using concat_nonempty_Nil [of ds2] chunks(2) c(1) d(1) by auto
  moreover have "concat cs1 @ concat ds1 = headers @ CRLF2 @ body"
    using chunks(1) c(1) d(1) \<open>ds2 = []\<close> by simp
  moreover have "drop (length headers + 4) (headers @ CRLF2 @ body) = body" by (simp add: CRLF2_def)
  ultimately show ?thesis using c(2) d(3) pre len size status by (simp add: api_answer_def)
qed

definition demo_headers :: string where
  "demo_headers = ''HTTP/1.1 200 OK'' @ [CHR 0x0D, CHR 0x0A] @ ''Content-Length: 2''"

lemma demo_content_length: "content_length (demo_headers @ CRLF2) = 2"
proof -
  have "str_lines (demo_headers @ CRLF2) = [''HTTP/1.1 200 OK'', ''Content-Length: 2'', []]"
    using str_lines_line [of "''HTTP/1.1 200 OK'' @ [CHR 0x0D]" "''Content-Length: 2'' @ CRLF2"]
      str_lines_line [of "''Content-Length: 2'' @ [CHR 0x0D]" "[CHR 0x0D, CHR 0x0A]"]
      str_lines_line [of "[CHR 0x0D]" "[]"]
    by (simp add: demo_headers_def CRLF2_def strip_cr_def)
  moreover have "eq_ignore_ascii_case ''Content-Length'' ''content-length''" by code_simp
  moreover have "parse_unsigned 64 ''2'' = Some 2"
    by (simp add: parse_unsigned_def digit_of_def Let_def)
  moreover have "trim '' 2'' = ''2''" by code_simp
  ultimately show ?thesis
    by (simp add: content_length_def strip_prefix_def)
qed

lemma demo_status: "status_of (demo_headers @ CRLF2) = Some 200"
proof -
  have "words_of (demo_headers @ CRLF2) = [''HTTP/1.1'', ''200'', ''OK'', ''Content-Length:'', ''2'']"
    by code_simp
  then show ?thesis by (simp add: status_of_def parse_unsigned_def digit_of_def Let_def)
qed

theorem api_any_chunking_witness:
  "api_answer (map Chunk [demo_headers @ [CHR 0x0D], [CHR 0x0A, CHR 0x0D, CHR 0x0A, CHR ''o''], ''k''] @ [SockErr])
     = Inr (200, ''ok'', [SockErr])"
proof (rule api_any_chunking [where headers = demo_headers and body = "''ok''"])
  show "split_once CRLF2 (demo_headers @ CRLF2 @ ''ok'') = Some (demo_headers, ''ok'')" by code_simp
qed (simp_all add: demo_content_length demo_status, simp_all add: CRLF2_def demo_headers_def)

end
