(* ===== verification/Snap_Cmd.thy ===== *)
theory Snap_Cmd
  imports Snap_Mesh Snap_Vmm Snap_Api
begin

text \<open>
  The commands of \<open>kubenyx-snap/src/lib.rs\<close>: \<open>take\<close>, \<open>resume\<close>, \<open>cycle\<close> and the mesh verbs. A command is a
  function on a \<open>SnapWorld\<close>: the effects on the host so far, in order, the table of owned VMMs, and the
  children spawned. It ends normally or in a message; \<open>die\<close> kills the owned VMMs first, a panic kills
  nothing. What the host answers (files, processes, sockets, spawned process ids, whether the output can be
  written, a thread started and a descriptor copied) is a \<open>SnapEnv\<close>, whose answers to effects are
  indexed by the number of effects before them. Sleeps, timings and the text that is printed are left out;
  lines printed one after the other are one step. In the mesh commands the threads of the nodes always start
  and their descriptors are always copied, and the lines printed as they are joined come after the last join.
\<close>

section \<open>The host\<close>

record Proc =
  pr_pid :: int
  pr_comm :: string
  pr_cwd :: "string option"
  pr_exe :: "string option"

record SnapEnv =
  e_exists :: "string \<Rightarrow> bool"
  e_text :: "string \<Rightarrow> string option"
  e_canon :: "string \<Rightarrow> string option"
  e_mkdir :: "string \<Rightarrow> bool"
  e_write :: "string \<Rightarrow> bool"
  e_dir :: "string \<Rightarrow> string list"
  e_path :: "string list option"
  e_is_file :: "string \<Rightarrow> bool"
  e_template_file :: "string \<Rightarrow> (string + string) option"
  e_read :: "string \<Rightarrow> string + string"
  e_sha256 :: "string \<Rightarrow> bytes"
  e_fingerprint :: string
  e_cwd :: "string option"
  e_cmdline :: "int \<Rightarrow> string option"
  e_exe :: "int \<Rightarrow> string option"
  e_procs :: "nat \<Rightarrow> Proc list"
  e_spawn :: "nat \<Rightarrow> int option"
  e_conn :: "nat \<Rightarrow> string + SockRead list"
  e_sock :: "nat \<Rightarrow> bool"
  e_marker :: "nat \<Rightarrow> (nat \<times> string option) list"
  e_addr_ok :: "string \<Rightarrow> bool"
  e_probe :: "nat \<Rightarrow> (nat \<times> TlsTry \<times> nat) list"
  e_fetch :: "nat \<Rightarrow> (string option \<times> nat) list"
  e_commit :: "nat \<Rightarrow> (nat \<times> TlsTry) list"
  e_certs :: "string \<Rightarrow> string \<Rightarrow> string \<Rightarrow> string option"
  e_stdout :: "nat \<Rightarrow> bool"
  e_stderr :: "nat \<Rightarrow> bool"
  e_thread :: "nat \<Rightarrow> bool"
  e_clone :: "nat \<Rightarrow> bool"

datatype SnapEffect =
    MkDir string
  | Remove string
  | WriteFile string string
  | Spawn string "string list" int
  | Kill int
  | Api string string string string
  | Poke string
  | Probe string

record SnapWorld =
  effects :: "SnapEffect list"
  owned :: "int list"
  children :: "(nat \<times> int) list"

type_synonym 'a cmd = "SnapWorld \<Rightarrow> (string + 'a) \<times> SnapWorld"

definition push_effect :: "SnapEffect \<Rightarrow> SnapWorld \<Rightarrow> SnapWorld" where
  "push_effect f w = w\<lparr>effects := effects w @ [f]\<rparr>"

definition clock_of :: "SnapWorld \<Rightarrow> nat" where
  "clock_of w = length (effects w)"

definition ret :: "'a \<Rightarrow> 'a cmd" where
  "ret x w = (Inr x, w)"

definition bindc :: "'a cmd \<Rightarrow> ('a \<Rightarrow> 'b cmd) \<Rightarrow> 'b cmd" where
  "bindc m k w = (case m w of (Inl e, w') \<Rightarrow> (Inl e, w') | (Inr x, w') \<Rightarrow> k x w')"

definition die :: "string \<Rightarrow> 'a cmd" where
  "die msg w =
     (case kill_owned_vmm (owned w) of (killed, slots) \<Rightarrow>
        (Inl msg, w\<lparr>effects := effects w @ map Kill killed, owned := slots\<rparr>))"

text \<open>What panics unless the host can do it: the stack is unwound, past the table of owned VMMs. The lines of
  the two streams, the start of a thread and the copy of a file descriptor.\<close>

definition must :: "(nat \<Rightarrow> bool) \<Rightarrow> string \<Rightarrow> unit cmd" where
  "must ok msg w = (if ok (clock_of w) then (Inr (), w) else (Inl msg, w))"

definition println :: "SnapEnv \<Rightarrow> unit cmd" where
  "println env = must (e_stdout env) ''failed printing to stdout''"

definition eprintln :: "SnapEnv \<Rightarrow> unit cmd" where
  "eprintln env = must (e_stderr env) ''failed printing to stderr''"

definition start_thread :: "SnapEnv \<Rightarrow> unit cmd" where
  "start_thread env = must (e_thread env) ''failed to spawn thread''"

definition clone_fd :: "SnapEnv \<Rightarrow> unit cmd" where
  "clone_fd env = must (e_clone env) ''clone fd''"

text \<open>The signal handler sweeps the same table, and the process ends with status 130.\<close>

definition on_signal :: "SnapWorld \<Rightarrow> nat \<times> SnapWorld" where
  "on_signal w =
     (case kill_owned_vmm (owned w) of (killed, slots) \<Rightarrow>
        (130, w\<lparr>effects := effects w @ map Kill killed, owned := slots\<rparr>))"

definition effect :: "SnapEffect \<Rightarrow> unit cmd" where
  "effect f w = (Inr (), push_effect f w)"

fun seqc :: "unit cmd list \<Rightarrow> unit cmd" where
  "seqc [] w = (Inr (), w)"
| "seqc (c # cs) w = bindc c (\<lambda>_. seqc cs) w"

definition or_die :: "(string + 'a) \<Rightarrow> 'a cmd" where
  "or_die r = (case r of Inl e \<Rightarrow> die e | Inr x \<Rightarrow> ret x)"

text \<open>
  Threads: each a list of steps, of which the schedule says who moves next (a number modulo the number of
  threads; one that has finished is skipped). When the schedule ends the rest runs thread by thread. A \<open>die\<close>
  in one of them ends the process.
\<close>

fun par :: "nat list \<Rightarrow> unit cmd list list \<Rightarrow> unit cmd" where
  "par [] threads w = seqc (concat threads) w"
| "par (i # is) threads w =
     (if threads = [] then (Inr (), w)
      else
        let k = i mod length threads
        in case threads ! k of
             [] \<Rightarrow> par is threads w
           | c # cs \<Rightarrow>
               (case c w of
                  (Inl e, w') \<Rightarrow> (Inl e, w')
                | (Inr _, w') \<Rightarrow> par is (threads[k := cs]) w'))"

section \<open>Processes\<close>

definition resolve_exe :: "SnapEnv \<Rightarrow> string \<Rightarrow> string option" where
  "resolve_exe env name =
     (case (if contains ''/'' name then Some name
            else case e_path env of
                   None \<Rightarrow> None
                 | Some dirs \<Rightarrow> find (e_is_file env) (map (\<lambda>d. path_join d name) dirs)) of
        None \<Rightarrow> None
      | Some p \<Rightarrow> e_canon env p)"

definition vmm_exe_of :: "SnapEnv \<Rightarrow> int \<Rightarrow> string option" where
  "vmm_exe_of env pid =
     (case e_exe env pid of
        None \<Rightarrow> None
      | Some s \<Rightarrow> if contains ''firecracker'' s then Some s else None)"

fun find_vmm :: "string \<Rightarrow> Proc list \<Rightarrow> (int \<times> string) option" where
  "find_vmm want [] = None"
| "find_vmm want (p # ps) =
     (if \<not> ends_with ''firecracker'' (trim_end (pr_comm p)) then find_vmm want ps
      else case pr_cwd p of
             None \<Rightarrow> find_vmm want ps
           | Some cwd \<Rightarrow>
               if cwd = want then map_option (\<lambda>exe. (pr_pid p, exe)) (pr_exe p)
               else find_vmm want ps)"

definition find_vmm_by_cwd :: "SnapEnv \<Rightarrow> Proc list \<Rightarrow> string \<Rightarrow> (int \<times> string) option" where
  "find_vmm_by_cwd env procs want =
     (case e_canon env want of None \<Rightarrow> None | Some w \<Rightarrow> find_vmm w procs)"

definition mesh_vmm :: "string \<Rightarrow> MeshNode list \<Rightarrow> Proc \<Rightarrow> bool" where
  "mesh_vmm run_dir nodes p \<longleftrightarrow>
     (ends_with ''firecracker'' (trim_end (pr_comm p)) \<or> trim_end (pr_comm p) = ''microvm@kubenyx'')
     \<and> (case pr_cwd p of None \<Rightarrow> False | Some cwd \<Rightarrow>
            path_components cwd \<in> set (map (\<lambda>n. path_components (path_join run_dir (mn_name n))) nodes))"

definition kill_mesh_vmms :: "SnapEnv \<Rightarrow> string \<Rightarrow> MeshNode list \<Rightarrow> unit cmd" where
  "kill_mesh_vmms env run_dir nodes w =
     seqc (map (\<lambda>p. effect (Kill (pr_pid p))) (filter (mesh_vmm run_dir nodes) (e_procs env (clock_of w)))) w"

section \<open>Steps of the commands\<close>

definition flag_or :: "string list \<Rightarrow> string \<Rightarrow> string \<Rightarrow> string cmd" where
  "flag_or flags name d =
     bindc (or_die (flag_get flags name)) (\<lambda>v. ret (case v of Some s \<Rightarrow> s | None \<Rightarrow> d))"

definition flag_number :: "nat \<Rightarrow> string list \<Rightarrow> string \<Rightarrow> nat \<Rightarrow> nat cmd" where
  "flag_number bits flags name d =
     bindc (or_die (flag_get flags name)) (\<lambda>v.
       case v of
         None \<Rightarrow> ret d
       | Some s \<Rightarrow> (case parse_unsigned bits s of Some n \<Rightarrow> ret n | None \<Rightarrow> die (''bad '' @ name)))"

definition make_dir :: "SnapEnv \<Rightarrow> string \<Rightarrow> unit cmd" where
  "make_dir env d = (if e_mkdir env d then effect (MkDir d) else die (''mkdir '' @ d))"

definition write_file :: "SnapEnv \<Rightarrow> string \<Rightarrow> string \<Rightarrow> string \<Rightarrow> unit cmd" where
  "write_file env what path data = (if e_write env path then effect (WriteFile path data) else die what)"

definition canonical :: "SnapEnv \<Rightarrow> string \<Rightarrow> string cmd" where
  "canonical env p = (case e_canon env p of Some q \<Rightarrow> ret q | None \<Rightarrow> die ''canonicalize'')"

definition api :: "SnapEnv \<Rightarrow> string \<Rightarrow> string \<Rightarrow> string \<Rightarrow> string \<Rightarrow> unit cmd" where
  "api env sock meth path body w =
     (let w' = push_effect (Api sock meth path body) w
      in case e_conn env (clock_of w) of
           Inl e \<Rightarrow> die e w'
         | Inr reads \<Rightarrow>
             (case api_answer reads of
                Inl e \<Rightarrow> die e w'
              | Inr (status, resp, _) \<Rightarrow>
                  (case api_expect meth path (status, resp) of
                     Some e \<Rightarrow> die e w'
                   | None \<Rightarrow> (Inr (), w'))))"

definition quoted :: "string \<Rightarrow> string" where
  "quoted s = [CHR 0x22] @ s @ [CHR 0x22]"

definition state_body :: "string \<Rightarrow> string" where
  "state_body s = ''{'' @ quoted ''state'' @ '':'' @ quoted s @ ''}''"

definition create_body :: "string \<Rightarrow> string" where
  "create_body out =
     ''{'' @ quoted ''snapshot_type'' @ '':'' @ quoted ''Full'' @ '','' @ quoted ''snapshot_path'' @ '':''
     @ quoted (path_join out ''snap.vmstate'') @ '','' @ quoted ''mem_file_path'' @ '':''
     @ quoted (path_join out ''snap.mem'') @ ''}''"

definition load_body :: "string \<Rightarrow> string" where
  "load_body dir =
     ''{'' @ quoted ''snapshot_path'' @ '':'' @ quoted (path_join dir ''snap.vmstate'') @ '','' @ quoted ''mem_backend''
     @ '':{'' @ quoted ''backend_type'' @ '':'' @ quoted ''File'' @ '','' @ quoted ''backend_path'' @ '':''
     @ quoted (path_join dir ''snap.mem'') @ ''},'' @ quoted ''resume_vm'' @ '':true}''"

definition pause_vm :: "SnapEnv \<Rightarrow> string \<Rightarrow> unit cmd" where
  "pause_vm env sock = api env sock ''PATCH'' ''/vm'' (state_body ''Paused'')"

definition create_snapshot :: "SnapEnv \<Rightarrow> string \<Rightarrow> string \<Rightarrow> unit cmd" where
  "create_snapshot env sock out = api env sock ''PUT'' ''/snapshot/create'' (create_body out)"

definition load_snapshot :: "SnapEnv \<Rightarrow> string \<Rightarrow> string \<Rightarrow> unit cmd" where
  "load_snapshot env sock dir = api env sock ''PUT'' ''/snapshot/load'' (load_body dir)"

definition spawn :: "SnapEnv \<Rightarrow> string \<Rightarrow> string list \<Rightarrow> int cmd" where
  "spawn env prog args w =
     (case e_spawn env (clock_of w) of
        None \<Rightarrow> die (''spawn '' @ prog) w
      | Some pid \<Rightarrow> (Inr pid, push_effect (Spawn prog args pid) w))"

definition own :: "int \<Rightarrow> unit cmd" where
  "own pid w =
     (case own_vmm pid (owned w) of
        None \<Rightarrow> die ''more than 16 owned VMMs - raise OWNED_MAX'' w
      | Some slots \<Rightarrow> (Inr (), w\<lparr>owned := slots\<rparr>))"

definition disown :: "int \<Rightarrow> unit cmd" where
  "disown pid w = (Inr (), w\<lparr>owned := disown_vmm pid (owned w)\<rparr>)"

text \<open>The identity of a take: what is known of the VMM decides template and CPU lines. A template is reported,
  and so is a VMM that was not found.\<close>

definition take_identity :: "SnapEnv \<Rightarrow> string option \<Rightarrow> (int \<times> string) option \<Rightarrow> SnapIdentity cmd" where
  "take_identity env closure vmm =
     bindc (case vmm of
              None \<Rightarrow> ret None
            | Some (pid, _) \<Rightarrow> or_die (vmm_cpu_template (e_sha256 env) (e_read env) (e_cmdline env pid)))
       (\<lambda>template.
        bindc (if template = None then ret () else eprintln env) (\<lambda>_.
        bindc (if vmm = None then eprintln env else ret ()) (\<lambda>_.
          case take_cpu_identity (e_fingerprint env) template of (cpu, cpu_host) \<Rightarrow>
            ret \<lparr>si_closure = closure, si_vmm = map_option snd vmm, si_cpu = cpu, si_cpu_host = cpu_host\<rparr>)))"

section \<open>One VM\<close>

definition cmd_take_attached :: "SnapEnv \<Rightarrow> string list \<Rightarrow> string cmd" where
  "cmd_take_attached env flags =
     bindc (flag_or flags ''--sock'' ''kubenyx.sock'') (\<lambda>sock.
     if \<not> e_exists env sock then
       die (sock @ '' not found - either run from the directory the VM was started in, pass --sock, or pass --runner to boot a fresh VM instead'')
     else
     bindc (flag_or flags ''--out'' ''snapshot'') (\<lambda>out0.
     bindc (make_dir env out0) (\<lambda>_.
     bindc (canonical env out0) (\<lambda>out.
     bindc (pause_vm env sock) (\<lambda>_.
     bindc (create_snapshot env sock out) (\<lambda>_.
     bindc (api env sock ''PATCH'' ''/vm'' (state_body ''Resumed'')) (\<lambda>_.
     bindc (\<lambda>w. take_identity env None
              (case e_canon env sock of
                 None \<Rightarrow> None
               | Some p \<Rightarrow>
                   (case rsplit_once (CHR ''/'') p of
                      None \<Rightarrow> None
                    | Some (d, _) \<Rightarrow> find_vmm_by_cwd env (e_procs env (clock_of w)) (if d = [] then ''/'' else d))) w)
     (\<lambda>identity.
     bindc (write_file env ''write manifest'' (path_join out ''manifest'') (identity_lines identity)) (\<lambda>_.
     bindc (eprintln env) (\<lambda>_.
     bindc (println env) (\<lambda>_.
     ret out)))))))))))"

definition take_vmm :: "SnapEnv \<Rightarrow> int \<Rightarrow> SnapWorld \<Rightarrow> (int \<times> string) option" where
  "take_vmm env pid w =
     (case vmm_exe_of env pid of
        Some exe \<Rightarrow> Some (pid, exe)
      | None \<Rightarrow>
          (case e_cwd env of
             None \<Rightarrow> None
           | Some d \<Rightarrow> find_vmm_by_cwd env (e_procs env (clock_of w)) d))"

text \<open>The part of \<open>cmd_take\<close> in which the VM is owned.\<close>

definition take_owned :: "SnapEnv \<Rightarrow> string \<Rightarrow> string \<Rightarrow> string \<Rightarrow> nat \<Rightarrow> int \<Rightarrow> unit cmd" where
  "take_owned env runner out marker wait_secs pid =
     bindc (eprintln env) (\<lambda>_.
     bindc (\<lambda>w. (case wait_marker wait_secs marker (e_marker env (clock_of w)) of
                    Inl e \<Rightarrow> (Inl e, w)
                  | Inr True \<Rightarrow> (Inr (), w)
                  | Inr False \<Rightarrow>
                      die (marker @ '' not seen within '' @ show_nat wait_secs @ ''s'') w)) (\<lambda>_.
     bindc (pause_vm env ''kubenyx.sock'') (\<lambda>_.
     bindc (create_snapshot env ''kubenyx.sock'' out) (\<lambda>_.
     bindc (eprintln env) (\<lambda>_.
     bindc (\<lambda>w. take_identity env (e_canon env runner) (take_vmm env pid w) w) (\<lambda>identity.
     bindc (write_file env ''write manifest'' (path_join out ''manifest'') (identity_lines identity)) (\<lambda>_.
     bindc (effect (Kill pid)) (\<lambda>_.
     bindc (disown pid) (\<lambda>_.
     effect (Remove ''kubenyx.sock''))))))))))"

definition cmd_take :: "SnapEnv \<Rightarrow> string list \<Rightarrow> string cmd" where
  "cmd_take env flags =
     bindc (or_die (flag_get flags ''--runner'')) (\<lambda>r.
     case r of
       None \<Rightarrow> cmd_take_attached env flags
     | Some runner \<Rightarrow>
     bindc (flag_or flags ''--out'' ''snapshot'') (\<lambda>out0.
     bindc (flag_or flags ''--marker'' ''KUBENYX-CLUSTER-READY'') (\<lambda>marker.
     bindc (flag_number 64 flags ''--wait-secs'' 120) (\<lambda>wait_secs.
     bindc (flag_number 64 flags ''--settle-ms'' 2000) (\<lambda>_.
     bindc (make_dir env out0) (\<lambda>_.
     bindc (canonical env out0) (\<lambda>out.
     bindc (effect (Remove ''kubenyx.sock'')) (\<lambda>_.
     bindc (write_file env ''create console log'' (path_join out ''take-console.log'') []) (\<lambda>_.
     bindc (clone_fd env) (\<lambda>_.
     bindc (spawn env runner []) (\<lambda>pid.
     bindc (own pid) (\<lambda>_.
     bindc (take_owned env runner out marker wait_secs pid) (\<lambda>_.
     bindc (println env) (\<lambda>_.
     ret out))))))))))))))"

definition spawn_args :: "string \<Rightarrow> bool \<Rightarrow> string list" where
  "spawn_args sock enable_pci = [''--api-sock'', sock] @ (if enable_pci then [''--enable-pci''] else [])"

definition probe_api :: "SnapEnv \<Rightarrow> string \<Rightarrow> string \<Rightarrow> unit cmd" where
  "probe_api env addr msg w =
     (let w' = push_effect (Probe addr) w
      in case wait_api (e_addr_ok env) addr 10000 (e_probe env (clock_of w)) of
           Inl e \<Rightarrow> die e w'
         | Inr None \<Rightarrow> die msg w'
         | Inr (Some _) \<Rightarrow> (Inr (), w'))"

definition resume_once :: "SnapEnv \<Rightarrow> string \<Rightarrow> string \<Rightarrow> string \<Rightarrow> string \<Rightarrow> string \<Rightarrow> bool \<Rightarrow> int cmd" where
  "resume_once env firecracker snapshot api_sock probe_addr poke_addr enable_pci =
     bindc (effect (Remove api_sock)) (\<lambda>_.
     bindc (write_file env ''create resume-console.log'' ''resume-console.log'' []) (\<lambda>_.
     bindc (clone_fd env) (\<lambda>_.
     bindc (spawn env firecracker (spawn_args api_sock enable_pci)) (\<lambda>pid.
     bindc (own pid) (\<lambda>_.
     bindc (\<lambda>w. if e_sock env (clock_of w) then (Inr (), w)
                  else die ''API socket did not appear within 5s'' w) (\<lambda>_.
     bindc (load_snapshot env api_sock snapshot) (\<lambda>_.
     bindc (start_thread env) (\<lambda>_.
     bindc (effect (Poke poke_addr)) (\<lambda>_.
     bindc (probe_api env probe_addr ''apiserver did not answer within 10s of restore'') (\<lambda>_.
     ret pid))))))))))"

definition gate :: "SnapEnv \<Rightarrow> string list \<Rightarrow> string \<Rightarrow> string \<Rightarrow> unit cmd" where
  "gate env flags snapshot firecracker =
     bindc (or_die (flag_get flags ''--cpu-template'')) (\<lambda>t.
     bindc (case t of
              None \<Rightarrow> ret None
            | Some spec \<Rightarrow>
                bindc (or_die (resolve_template_spec (e_sha256 env) (e_template_file env) spec)) (\<lambda>s. ret (Some s)))
     (\<lambda>cpu_template.
     case enforce_identity (e_text env (path_join snapshot ''manifest'')) (resolve_exe env firecracker)
            (e_fingerprint env) cpu_template (flag_has flags ''--allow-identity-mismatch'') of
       (mismatches, warnings, verdict) \<Rightarrow>
         if verdict = DieNoIdentity then die ''--cpu-template passed but the snapshot has no identity fields''
         else
           bindc (if read_snapshot_identity (e_text env (path_join snapshot ''manifest'')) = None
                     \<or> resolve_exe env firecracker = None \<or> warnings \<noteq> [] \<or> mismatches \<noteq> []
                  then eprintln env else ret ()) (\<lambda>_.
           if verdict = DieMismatch then die ''snapshot identity mismatch'' else ret ())))"

record ResumeArgs =
  ra_firecracker :: string
  ra_snapshot :: string
  ra_sock :: string
  ra_probe :: string
  ra_poke :: string
  ra_pci :: bool

definition resume_flags :: "SnapEnv \<Rightarrow> string list \<Rightarrow> ResumeArgs cmd" where
  "resume_flags env flags =
     bindc (flag_or flags ''--snapshot'' ''snapshot'') (\<lambda>snapshot.
     if \<not> e_exists env (path_join snapshot ''snap.vmstate'') then die (snapshot @ ''/snap.vmstate not found'')
     else
     bindc (flag_or flags ''--firecracker'' ''firecracker'') (\<lambda>firecracker.
     bindc (flag_or flags ''--api-sock'' ''kubenyx-resume.sock'') (\<lambda>api_sock.
     bindc (flag_or flags ''--probe'' ''10.100.0.2:6443'') (\<lambda>probe_addr.
     bindc (flag_or flags ''--poke'' ''10.100.0.2:10123'') (\<lambda>poke_addr.
     bindc (gate env flags snapshot firecracker) (\<lambda>_.
     ret \<lparr>ra_firecracker = firecracker, ra_snapshot = snapshot, ra_sock = api_sock, ra_probe = probe_addr,
       ra_poke = poke_addr, ra_pci = \<not> flag_has flags ''--no-pci''\<rparr>))))))"

definition resume_with :: "SnapEnv \<Rightarrow> ResumeArgs \<Rightarrow> int cmd" where
  "resume_with env a =
     resume_once env (ra_firecracker a) (ra_snapshot a) (ra_sock a) (ra_probe a) (ra_poke a) (ra_pci a)"

definition cmd_resume :: "SnapEnv \<Rightarrow> string list \<Rightarrow> int cmd" where
  "cmd_resume env flags =
     bindc (resume_flags env flags) (\<lambda>a.
     bindc (resume_with env a) (\<lambda>pid.
     bindc (println env) (\<lambda>_.
     bindc (eprintln env) (\<lambda>_.
     bindc (disown pid) (\<lambda>_.
     ret pid)))))"

definition cycle_round :: "SnapEnv \<Rightarrow> ResumeArgs \<Rightarrow> unit cmd" where
  "cycle_round env a =
     bindc (resume_with env a) (\<lambda>pid.
     bindc (println env) (\<lambda>_.
     bindc (effect (Kill pid)) (\<lambda>_.
     bindc (disown pid) (\<lambda>_.
     effect (Remove (ra_sock a))))))"

text \<open>The median of no rounds is a panic, which kills nothing.\<close>

definition median_of :: "nat \<Rightarrow> unit cmd" where
  "median_of rounds w = (if rounds = 0 then (Inl ''index out of bounds'', w) else (Inr (), w))"

definition cmd_cycle :: "SnapEnv \<Rightarrow> string list \<Rightarrow> unit cmd" where
  "cmd_cycle env flags =
     bindc (resume_flags env flags) (\<lambda>a.
     bindc (flag_number 32 flags ''-n'' 5) (\<lambda>n.
     bindc (seqc (replicate n (cycle_round env a))) (\<lambda>_.
     bindc (median_of n) (\<lambda>_.
     println env))))"

section \<open>The mesh\<close>

definition node_sock :: "SnapEnv \<Rightarrow> string \<Rightarrow> string \<Rightarrow> string" where
  "node_sock env run_dir name =
     (let named = path_join (path_join run_dir name) (name @ ''.sock'')
      in if e_exists env named then named else path_join (path_join run_dir name) ''kubenyx.sock'')"

text \<open>The nodes of a run directory are its entries with an API socket; one that cannot be read lists nothing,
  and ends like an empty one in a message.\<close>

definition node_names :: "SnapEnv \<Rightarrow> string \<Rightarrow> string list" where
  "node_names env run_dir =
     filter (\<lambda>n. e_exists env (path_join (path_join run_dir n) (n @ ''.sock''))
                 \<or> e_exists env (path_join (path_join run_dir n) ''kubenyx.sock'')) (e_dir env run_dir)"

definition refusal_text :: "string + TakeRefusal \<Rightarrow> string" where
  "refusal_text r =
     (case r of
        Inl e \<Rightarrow> e
      | Inr NeedsManifest \<Rightarrow> ''multi-server mesh-take needs the launcher posture manifest''
      | Inr (NotVolatile p) \<Rightarrow> ''refusing mesh-take: launcher manifest says posture='' @ p)"

definition mesh_take_targets :: "SnapEnv \<Rightarrow> string list \<Rightarrow> string \<Rightarrow> MeshNode list cmd" where
  "mesh_take_targets env flags run_dir =
     or_die (map_sum refusal_text id
       (mesh_take_nodes flags (node_names env run_dir) (e_text env (path_join run_dir RUN_MANIFEST))))"

definition snapshot_thread :: "SnapEnv \<Rightarrow> string \<Rightarrow> string \<Rightarrow> MeshNode \<Rightarrow> unit cmd list" where
  "snapshot_thread env run_dir out n =
     [make_dir env (path_join out (mn_name n)),
      create_snapshot env (node_sock env run_dir (mn_name n)) (path_join out (mn_name n))]"

text \<open>The last step of a snapshot thread prints; a thread that panics there has done its work, and the join
  turns the panic into a message.\<close>

definition join_snapshots :: "SnapEnv \<Rightarrow> unit cmd" where
  "join_snapshots env w = (if e_stderr env (clock_of w) then (Inr (), w) else die ''snapshot thread panicked'' w)"

fun first_vmm :: "SnapEnv \<Rightarrow> Proc list \<Rightarrow> string list \<Rightarrow> (int \<times> string) option" where
  "first_vmm env procs [] = None"
| "first_vmm env procs (d # ds) =
     (case find_vmm_by_cwd env procs d of Some v \<Rightarrow> Some v | None \<Rightarrow> first_vmm env procs ds)"

definition cmd_mesh_take :: "SnapEnv \<Rightarrow> nat list \<Rightarrow> string list \<Rightarrow> string cmd" where
  "cmd_mesh_take env sched flags =
     bindc (flag_or flags ''--run-dir'' ''/tmp/kubenyx-cluster'') (\<lambda>run_dir.
     bindc (flag_or flags ''--out'' ''mesh-snapshot'') (\<lambda>out0.
     bindc (mesh_take_targets env flags run_dir) (\<lambda>nodes.
     bindc (make_dir env out0) (\<lambda>_.
     bindc (canonical env out0) (\<lambda>out.
     bindc (seqc (map (\<lambda>n. pause_vm env (node_sock env run_dir (mn_name n))) nodes)) (\<lambda>_.
     bindc (eprintln env) (\<lambda>_.
     bindc (par sched (map (snapshot_thread env run_dir out) nodes)) (\<lambda>_.
     bindc (join_snapshots env) (\<lambda>_.
     bindc (\<lambda>w. take_identity env None
              (first_vmm env (e_procs env (clock_of w)) (map (\<lambda>n. path_join run_dir (mn_name n)) nodes)) w)
     (\<lambda>identity.
     bindc (write_file env ''write manifest'' (path_join out ''manifest'') (manifest_body nodes identity)) (\<lambda>_.
     bindc (eprintln env) (\<lambda>_.
     bindc (kill_mesh_vmms env run_dir nodes) (\<lambda>_.
     bindc (println env) (\<lambda>_.
     ret out))))))))))))))"

text \<open>The thread that restores one node; the process id of its child is kept in the world.\<close>

definition spawn_child :: "SnapEnv \<Rightarrow> string \<Rightarrow> nat \<Rightarrow> string \<Rightarrow> bool \<Rightarrow> unit cmd" where
  "spawn_child env firecracker i name enable_pci =
     bindc (spawn env firecracker (spawn_args (name @ ''.sock'') enable_pci))
       (\<lambda>pid w. (Inr (), w\<lparr>children := children w @ [(i, pid)]\<rparr>))"

definition own_child :: "nat \<Rightarrow> unit cmd" where
  "own_child i w = (case map_of (children w) i of None \<Rightarrow> (Inr (), w) | Some pid \<Rightarrow> own pid w)"

definition resume_thread :: "SnapEnv \<Rightarrow> string \<Rightarrow> string \<Rightarrow> bool \<Rightarrow> nat \<times> MeshNode \<Rightarrow> unit cmd list" where
  "resume_thread env snapshot firecracker enable_pci t =
     (case t of (i, n) \<Rightarrow>
        let name = mn_name n; sock = name @ ''.sock''
        in [effect (Remove sock),
            write_file env (''create '' @ name @ ''-console.log'') (name @ ''-console.log'') [],
            spawn_child env firecracker i name enable_pci,
            own_child i,
            (\<lambda>w. if e_sock env (clock_of w) then (Inr (), w)
                  else die (name @ '': API socket did not appear within 5s'') w),
            load_snapshot env sock (path_join snapshot name)])"

text \<open>The children in the order in which the threads are joined, that of the nodes.\<close>

definition joined :: "MeshNode list \<Rightarrow> SnapWorld \<Rightarrow> (string \<times> int) list" where
  "joined nodes w =
     concat (map (\<lambda>(i, n). case map_of (children w) i of None \<Rightarrow> [] | Some pid \<Rightarrow> [(mn_name n, pid)])
       (enumerate 0 nodes))"

definition quorum_probe :: "SnapEnv \<Rightarrow> MeshNode list \<Rightarrow> unit cmd" where
  "quorum_probe env nodes w =
     (if 1 < length (filter (\<lambda>n. is_server_name (mn_name n)) nodes) then
        (let w' = push_effect (Probe (mn_ip (hd nodes) @ '':10124'')) w
         in case wait_quorum_write (e_addr_ok env) (e_certs env) 20000 (e_fetch env (clock_of w)) (e_commit env (clock_of w)) of
              Inl e \<Rightarrow> die e w'
            | Inr False \<Rightarrow> die ''no quorum write committed within 20s of mesh restore'' w'
            | Inr True \<Rightarrow> (Inr (), w'))
      else (Inr (), w))"

definition mesh_resume_once :: "SnapEnv \<Rightarrow> nat list \<Rightarrow> MeshNode list \<Rightarrow> string \<Rightarrow> string \<Rightarrow> bool
    \<Rightarrow> (string \<times> int) list cmd" where
  "mesh_resume_once env sched nodes snapshot firecracker enable_pci =
     bindc (\<lambda>w. (Inr (), w\<lparr>children := []\<rparr>)) (\<lambda>_.
     bindc (par sched (map (resume_thread env snapshot firecracker enable_pci) (enumerate 0 nodes))) (\<lambda>_.
     bindc (eprintln env) (\<lambda>_.
     bindc (seqc (map (\<lambda>n. bindc (start_thread env) (\<lambda>_. effect (Poke (mn_ip n @ '':10123'')))) nodes)) (\<lambda>_.
     bindc (probe_api env (mn_ip (hd nodes) @ '':6443'')
              ''server apiserver did not answer within 10s of mesh restore'') (\<lambda>_.
     bindc (quorum_probe env nodes) (\<lambda>_.
     (\<lambda>w. (Inr (joined nodes w), w))))))))"

definition mesh_resume_flags :: "SnapEnv \<Rightarrow> string list \<Rightarrow> (string \<times> MeshNode list \<times> string \<times> bool) cmd" where
  "mesh_resume_flags env flags =
     bindc (flag_or flags ''--snapshot'' ''mesh-snapshot'') (\<lambda>snapshot.
     bindc (case e_text env (path_join snapshot ''manifest'') of
              None \<Rightarrow> die (''read '' @ snapshot @ ''/manifest'')
            | Some data \<Rightarrow> or_die (read_manifest data)) (\<lambda>nodes.
     bindc (flag_or flags ''--firecracker'' ''firecracker'') (\<lambda>firecracker.
     bindc (gate env flags snapshot firecracker) (\<lambda>_.
     ret (snapshot, nodes, firecracker, \<not> flag_has flags ''--no-pci'')))))"

definition cmd_mesh_resume :: "SnapEnv \<Rightarrow> nat list \<Rightarrow> string list \<Rightarrow> (string \<times> int) list cmd" where
  "cmd_mesh_resume env sched flags =
     bindc (mesh_resume_flags env flags) (\<lambda>(snapshot, nodes, firecracker, enable_pci).
     bindc (mesh_resume_once env sched nodes snapshot firecracker enable_pci) (\<lambda>kids.
     bindc (println env) (\<lambda>_.
     bindc (eprintln env) (\<lambda>_.
     bindc (seqc (map (\<lambda>c. disown (snd c)) kids)) (\<lambda>_.
     ret kids)))))"

definition reap_child :: "string \<times> int \<Rightarrow> unit cmd" where
  "reap_child c =
     bindc (effect (Kill (snd c))) (\<lambda>_.
     bindc (disown (snd c)) (\<lambda>_.
     effect (Remove (fst c @ ''.sock''))))"

definition mesh_cycle_round :: "SnapEnv \<Rightarrow> MeshNode list \<Rightarrow> string \<Rightarrow> string \<Rightarrow> bool \<Rightarrow> nat list \<Rightarrow> unit cmd" where
  "mesh_cycle_round env nodes snapshot firecracker enable_pci sched =
     bindc (mesh_resume_once env sched nodes snapshot firecracker enable_pci) (\<lambda>kids.
     bindc (println env) (\<lambda>_.
     seqc (map reap_child kids)))"

definition cmd_mesh_cycle :: "SnapEnv \<Rightarrow> (nat \<Rightarrow> nat list) \<Rightarrow> string list \<Rightarrow> unit cmd" where
  "cmd_mesh_cycle env scheds flags =
     bindc (mesh_resume_flags env flags) (\<lambda>(snapshot, nodes, firecracker, enable_pci).
     bindc (flag_number 32 flags ''-n'' 5) (\<lambda>n.
     bindc (seqc (map (\<lambda>r. mesh_cycle_round env nodes snapshot firecracker enable_pci (scheds r)) [0..<n])) (\<lambda>_.
     bindc (median_of n) (\<lambda>_.
     println env))))"

text \<open>The entry point, from a table without VMMs. The result of the verb is printed, not returned.\<close>

definition ignore :: "'a cmd \<Rightarrow> unit cmd" where
  "ignore c = bindc c (\<lambda>_. ret ())"

definition snap_run :: "SnapEnv \<Rightarrow> (nat \<Rightarrow> nat list) \<Rightarrow> string list \<Rightarrow> unit cmd" where
  "snap_run env scheds args =
     (case args of
        [] \<Rightarrow> die ''usage: kubenyx-snap take|resume|cycle|mesh-take|mesh-resume|mesh-cycle [flags]''
      | c # flags \<Rightarrow>
          if c = ''take'' then ignore (cmd_take env flags)
          else if c = ''resume'' then ignore (cmd_resume env flags)
          else if c = ''cycle'' then cmd_cycle env flags
          else if c = ''mesh-take'' then ignore (cmd_mesh_take env (scheds 0) flags)
          else if c = ''mesh-resume'' then ignore (cmd_mesh_resume env (scheds 0) flags)
          else if c = ''mesh-cycle'' then cmd_mesh_cycle env scheds flags
          else die (''unknown subcommand '' @ c))"

definition snap_start :: SnapWorld where
  "snap_start = \<lparr>effects = [], owned = no_vmms, children = []\<rparr>"

end
