(* ===== verification/Snap_Trace.thy ===== *)
theory Snap_Trace
  imports Snap_Cmd
begin

text \<open>
  Reasoning about runs of the snapshot commands (a run always ends, normally or in a message): the effects a
  command may append, what holds before the first effect of a kind, and the steps that threads which all
  end normally have made.
\<close>

section \<open>Sequencing\<close>

lemma bindc_assoc: "bindc (bindc m f) g = bindc m (\<lambda>x. bindc (f x) g)"
  by (auto simp: bindc_def fun_eq_iff split: prod.split sum.split)

lemma bindc_ret: "bindc (ret x) k = k x"
  by (simp add: bindc_def ret_def fun_eq_iff)

lemma bindc_die: "bindc (die msg) k = die msg"
  by (simp add: bindc_def die_def fun_eq_iff split: prod.split)

lemma bindc_if: "bindc (if b then c else d) k = (if b then bindc c k else bindc d k)"
  by simp

section \<open>Flags\<close>

text \<open>The value of a flag or its default, as a command that gets past it sees it.\<close>

definition flag_value :: "string list \<Rightarrow> string \<Rightarrow> string \<Rightarrow> string" where
  "flag_value flags name d = (case flag_get flags name of Inr (Some v) \<Rightarrow> v | _ \<Rightarrow> d)"

lemma flag_or_value: "flag_or flags name d w = (Inr v, w') \<Longrightarrow> v = flag_value flags name d"
  by (auto simp: flag_or_def flag_value_def bindc_def or_die_def ret_def die_def kill_owned_eq
      split: sum.splits option.splits)

text \<open>What does not panic leaves the world as it is.\<close>

lemma panics_not: "println env w = (Inr u, w') \<Longrightarrow> w' = w" "eprintln env w = (Inr u, w') \<Longrightarrow> w' = w"
  "start_thread env w = (Inr u, w') \<Longrightarrow> w' = w" "clone_fd env w = (Inr u, w') \<Longrightarrow> w' = w"
  by (auto simp: println_def eprintln_def start_thread_def clone_fd_def must_def split: if_splits)

section \<open>Effects only grow\<close>

text \<open>A command emits effects of a set: it appends a list of them, however it ends.\<close>

named_theorems emits_rules

definition emits :: "(int list \<Rightarrow> bool) \<Rightarrow> SnapEffect set \<Rightarrow> 'a cmd \<Rightarrow> bool" where
  "emits I E c \<longleftrightarrow>
     (\<forall>w. I (owned w) \<longrightarrow> I (owned (snd (c w))) \<and> (\<exists>tr. effects (snd (c w)) = effects w @ tr \<and> set tr \<subseteq> E))"

definition dies :: "(int list \<Rightarrow> bool) \<Rightarrow> SnapEffect set \<Rightarrow> bool" where
  "dies I E \<longleftrightarrow>
     (\<forall>slots. I slots \<longrightarrow> I (map (\<lambda>_. 0) slots) \<and> (\<forall>p \<in> set slots. 0 < p \<longrightarrow> Kill p \<in> E))"

lemma emitsI:
  "(\<And>w. I (owned w) \<Longrightarrow> I (owned (snd (c w)))) \<Longrightarrow>
   (\<And>w. I (owned w) \<Longrightarrow> \<exists>tr. effects (snd (c w)) = effects w @ tr \<and> set tr \<subseteq> E) \<Longrightarrow> emits I E c"
  by (simp add: emits_def)

lemma emitsE:
  assumes "emits I E c" "I (owned w)" "c w = (r, w')"
  obtains tr where "I (owned w')" "effects w' = effects w @ tr" "set tr \<subseteq> E"
  using assms unfolding emits_def by (metis snd_conv)

lemma dies_all [simp, intro]: "range Kill \<subseteq> E \<Longrightarrow> dies (\<lambda>_. True) E"
  by (auto simp: dies_def)

lemma dies_none [simp, intro]: "dies (\<lambda>slots. slots = no_vmms) E"
  by (auto simp: dies_def no_vmms_def)

lemma emits_bind [emits_rules]:
  assumes m: "emits I E m" and k: "\<And>x. emits I E (k x)"
  shows "emits I E (bindc m k)"
proof -
  have "I (owned (snd (bindc m k w))) \<and> (\<exists>tr. effects (snd (bindc m k w)) = effects w @ tr \<and> set tr \<subseteq> E)"
    if I: "I (owned w)" for w
  proof (cases "m w")
    case (Pair r w1)
    obtain tr where tr: "I (owned w1)" "effects w1 = effects w @ tr" "set tr \<subseteq> E" using emitsE [OF m I Pair] .
    show ?thesis
    proof (cases r)
      case (Inr x)
      obtain s w2 where kw: "k x w1 = (s, w2)" by (cases "k x w1")
      obtain tr2 where "I (owned w2)" "effects w2 = effects w1 @ tr2" "set tr2 \<subseteq> E" using emitsE [OF k tr(1) kw] .
      with Inr Pair kw tr show ?thesis by (auto simp: bindc_def)
    qed (use Pair tr in \<open>simp add: bindc_def\<close>)
  qed
  then show ?thesis by (simp add: emits_def)
qed

lemma emits_silent: "(\<And>w. effects (snd (c w)) = effects w \<and> owned (snd (c w)) = owned w) \<Longrightarrow> emits I E c"
  by (simp add: emits_def)

lemma emits_must [emits_rules]: "emits I E (must ok msg)"
  by (rule emits_silent) (simp add: must_def)

lemma emits_println [emits_rules]: "emits I E (println env)" "emits I E (eprintln env)"
  "emits I E (start_thread env)" "emits I E (clone_fd env)"
  unfolding println_def eprintln_def start_thread_def clone_fd_def by (rule emits_must)+

lemma emits_ret [emits_rules]: "emits I E (ret x)"
  by (rule emits_silent) (simp add: ret_def)

lemma emits_effect [emits_rules]: "f \<in> E \<Longrightarrow> emits I E (effect f)"
  by (rule emitsI) (auto simp: effect_def push_effect_def)

lemma emits_die [emits_rules]: "dies I E \<Longrightarrow> emits I E (die msg)"
  by (rule emitsI) (auto simp: die_def kill_owned_eq dies_def)

lemma emits_if [emits_rules]: "(b \<Longrightarrow> emits I E c) \<Longrightarrow> (\<not> b \<Longrightarrow> emits I E d) \<Longrightarrow> emits I E (if b then c else d)"
  by simp

lemma emits_option [emits_rules]:
  "(x = None \<Longrightarrow> emits I E c) \<Longrightarrow> (\<And>y. x = Some y \<Longrightarrow> emits I E (d y)) \<Longrightarrow>
     emits I E (case x of None \<Rightarrow> c | Some y \<Rightarrow> d y)"
  by (cases x) auto

lemma emits_or_die [emits_rules]: "dies I E \<Longrightarrow> emits I E (or_die r)"
  by (cases r) (simp_all add: or_die_def emits_die emits_ret)

lemma emits_seqc [emits_rules]: "(\<And>c. c \<in> set cs \<Longrightarrow> emits I E c) \<Longrightarrow> emits I E (seqc cs)"
proof (induction cs)
  case (Cons c cs)
  then have "emits I E (bindc c (\<lambda>_. seqc cs))" by (intro emits_bind) auto
  then show ?case by (simp add: emits_def)
qed (auto intro: emits_silent)

lemma emits_par [emits_rules]:
  "(\<And>th c. th \<in> set threads \<Longrightarrow> c \<in> set th \<Longrightarrow> emits I E c) \<Longrightarrow> emits I E (par sched threads)"
proof (induction sched arbitrary: threads)
  case Nil
  then have "emits I E (seqc (concat threads))" by (intro emits_seqc) auto
  moreover have "par [] threads = seqc (concat threads)" by (simp add: fun_eq_iff)
  ultimately show ?case by simp
next
  case (Cons i sched)
  define k where "k = i mod length threads"
  show ?case
  proof (cases "threads = []")
    case True
    then show ?thesis by (intro emits_silent) simp
  next
    case False
    then have k: "k < length threads" by (simp add: k_def)
    show ?thesis
    proof (cases "threads ! k")
      case Nil
      then have "par (i # sched) threads = par sched threads" using False by (simp add: k_def fun_eq_iff)
      with Cons.IH [OF Cons.prems] show ?thesis by simp
    next
      case (Cons c cs)
      then have mem: "c # cs \<in> set threads" using nth_mem [OF k] by simp
      have c: "emits I E c" by (rule Cons.prems [OF mem]) simp
      have "emits I E (par sched (threads[k := cs]))"
      proof (rule Cons.IH)
        fix th d assume "th \<in> set (threads[k := cs])" "d \<in> set th"
        then have "th = cs \<or> th \<in> set threads" using set_update_subset_insert [of threads k cs] by auto
        then show "emits I E d"
          using \<open>d \<in> set th\<close> Cons.prems [OF mem, of d] Cons.prems [of th d] by auto
      qed
      with c have "emits I E (bindc c (\<lambda>_. par sched (threads[k := cs])))" by (intro emits_bind)
      moreover have "par (i # sched) threads = bindc c (\<lambda>_. par sched (threads[k := cs]))"
        using False Cons by (auto simp: k_def bindc_def fun_eq_iff Let_def split: prod.splits sum.splits)
      ultimately show ?thesis by simp
    qed
  qed
qed

lemma emits_flag_or [emits_rules]: "dies I E \<Longrightarrow> emits I E (flag_or flags name d)"
  unfolding flag_or_def by (intro emits_rules)

lemma emits_flag_number [emits_rules]: "dies I E \<Longrightarrow> emits I E (flag_number bits flags name d)"
  unfolding flag_number_def by (intro emits_rules)

lemma emits_make_dir [emits_rules]: "dies I E \<Longrightarrow> MkDir d \<in> E \<Longrightarrow> emits I E (make_dir env d)"
  unfolding make_dir_def by (intro emits_rules)

lemma emits_write_file [emits_rules]:
  "dies I E \<Longrightarrow> WriteFile path data \<in> E \<Longrightarrow> emits I E (write_file env what path data)"
  unfolding write_file_def by (intro emits_rules)

lemma emits_canonical [emits_rules]: "dies I E \<Longrightarrow> emits I E (canonical env p)"
  unfolding canonical_def by (cases "e_canon env p") (auto intro: emits_rules)

lemma emits_api [emits_rules]:
  "dies I E \<Longrightarrow> Api sock meth path body \<in> E \<Longrightarrow> emits I E (api env sock meth path body)"
  by (rule emitsI)
     (auto simp: api_def Let_def push_effect_def die_def kill_owned_eq dies_def split: sum.split option.split prod.split)

lemma emits_spawn [emits_rules]:
  "dies I E \<Longrightarrow> (\<And>pid. Spawn prog args pid \<in> E) \<Longrightarrow> emits I E (spawn env prog args)"
  by (rule emitsI) (auto simp: spawn_def push_effect_def die_def kill_owned_eq dies_def split: option.split)

lemma emits_own [emits_rules]:
  "dies I E \<Longrightarrow> (\<And>slots slots'. I slots \<Longrightarrow> own_vmm pid slots = Some slots' \<Longrightarrow> I slots') \<Longrightarrow> emits I E (own pid)"
  by (rule emitsI) (auto simp: own_def die_def kill_owned_eq dies_def split: option.split)

lemma emits_disown [emits_rules]:
  "(\<And>slots. I slots \<Longrightarrow> I (disown_vmm pid slots)) \<Longrightarrow> emits I E (disown pid)"
  by (rule emitsI) (simp_all add: disown_def)

lemma emits_take_identity [emits_rules]: "dies I E \<Longrightarrow> emits I E (take_identity env closure vmm)"
  unfolding take_identity_def by (intro emits_rules) (auto split: option.split prod.split intro: emits_rules)

lemma emits_state: "(\<And>w. emits I E (f w)) \<Longrightarrow> emits I E (\<lambda>w. f w w)"
  by (simp add: emits_def)

lemma emits_take_identity_at [emits_rules]:
  "dies I E \<Longrightarrow> emits I E (\<lambda>w. take_identity env closure (vmm w) w)"
  by (rule emits_state) (rule emits_take_identity)


section \<open>What comes before an effect\<close>

text \<open>Every effect of a kind is preceded by effects with a property.\<close>

definition guarded :: "(SnapEffect \<Rightarrow> bool) \<Rightarrow> (SnapEffect list \<Rightarrow> bool) \<Rightarrow> SnapEffect list \<Rightarrow> bool" where
  "guarded K P es \<longleftrightarrow> (\<forall>a f b. es = a @ f # b \<longrightarrow> K f \<longrightarrow> P a)"

definition clear :: "(int list \<Rightarrow> bool) \<Rightarrow> (SnapEffect \<Rightarrow> bool) \<Rightarrow> SnapWorld \<Rightarrow> bool" where
  "clear I K w \<longleftrightarrow> I (owned w) \<and> (\<forall>f \<in> set (effects w). \<not> K f)"

lemma guarded_clear: "clear I K w \<Longrightarrow> guarded K P (effects w)"
  by (auto simp: guarded_def clear_def)

lemma guarded_append:
  assumes "clear I K w" "P (effects w)" "\<And>a b. P a \<Longrightarrow> P (a @ b)"
  shows "guarded K P (effects w @ tr)"
  unfolding guarded_def
proof (intro allI impI)
  fix a f b assume eq: "effects w @ tr = a @ f # b" and f: "K f"
  have "length (effects w) \<le> length a"
  proof (rule ccontr)
    assume short: "\<not> length (effects w) \<le> length a"
    then have "effects w ! length a = f"
      using eq [THEN arg_cong, of "\<lambda>es. es ! length a"] by (simp add: nth_append)
    with f assms(1) short show False by (metis clear_def linorder_not_le nth_mem)
  qed
  then obtain c where "a = effects w @ c" using eq by (metis append_eq_append_conv_if append_take_drop_id)
  with assms(2,3) show "P a" by simp
qed

lemma clear_emits:
  assumes "emits I {f. \<not> K f} c" "clear I K w" "c w = (r, w')"
  shows "clear I K w'"
proof -
  have "I (owned w)" using assms(2) by (simp add: clear_def)
  from emitsE [OF assms(1) this assms(3)] obtain tr
    where "I (owned w')" "effects w' = effects w @ tr" "set tr \<subseteq> {f. \<not> K f}" .
  with assms(2) show ?thesis by (auto simp: clear_def)
qed

lemma guarded_bind:
  assumes "emits I {f. \<not> K f} m" "clear I K w"
    and "\<And>x w1. m w = (Inr x, w1) \<Longrightarrow> clear I K w1 \<Longrightarrow> guarded K P (effects (snd (k x w1)))"
  shows "guarded K P (effects (snd (bindc m k w)))"
proof (cases "m w")
  case (Pair r w1)
  have w1: "clear I K w1" by (rule clear_emits [OF assms(1,2) Pair])
  show ?thesis
  proof (cases r)
    case (Inl e)
    with Pair guarded_clear [OF w1] show ?thesis by (simp add: bindc_def)
  next
    case (Inr x)
    with Pair w1 assms(3) [of x w1] show ?thesis by (simp add: bindc_def)
  qed
qed

lemma guarded_after:
  assumes "clear I K w" "P (effects w)" "\<And>a b. P a \<Longrightarrow> P (a @ b)" "emits (\<lambda>_. True) UNIV c"
  shows "guarded K P (effects (snd (c w)))"
proof -
  obtain r w1 where c: "c w = (r, w1)" by (cases "c w")
  from emitsE [OF assms(4) _ c] obtain tr where "effects w1 = effects w @ tr" by blast
  with guarded_append [where P = P, OF assms(1,2,3)] c show ?thesis by simp
qed

section \<open>Steps that were made\<close>

text \<open>Threads that all end normally have each run all their steps.\<close>

definition ran :: "unit cmd \<Rightarrow> SnapWorld \<Rightarrow> bool" where
  "ran c w \<longleftrightarrow> (\<exists>w1 w2 tr. c w1 = (Inr (), w2) \<and> effects w = effects w2 @ tr)"

lemma ran_later: "ran c w \<Longrightarrow> effects w' = effects w @ tr \<Longrightarrow> ran c w'"
  unfolding ran_def by (metis append_assoc)

lemma seqc_ran:
  assumes "seqc cs w = (Inr (), w')" "\<And>c. c \<in> set cs \<Longrightarrow> emits (\<lambda>_. True) UNIV c" "c \<in> set cs"
  shows "ran c w'"
  using assms
proof (induction cs arbitrary: w)
  case (Cons d cs)
  then obtain w1 where w1: "d w = (Inr (), w1)" "seqc cs w1 = (Inr (), w')"
    by (auto simp: bindc_def split: prod.splits sum.splits)
  show ?case
  proof (cases "c = d")
    case True
    have "emits (\<lambda>_. True) UNIV (seqc cs)" using Cons.prems(2) by (intro emits_rules) auto
    from emitsE [OF this _ w1(2)] obtain tr where "effects w' = effects w1 @ tr" by blast
    with True w1(1) show ?thesis by (auto simp: ran_def)
  next
    case False
    with Cons.IH [OF w1(2)] Cons.prems(2,3) show ?thesis by auto
  qed
qed simp

lemma par_ran:
  assumes "par sched threads w = (Inr (), w')" "\<And>th c. th \<in> set threads \<Longrightarrow> c \<in> set th \<Longrightarrow> emits (\<lambda>_. True) UNIV c"
    and "th \<in> set threads" "c \<in> set th"
  shows "ran c w'"
  using assms
proof (induction sched arbitrary: threads th w)
  case Nil
  then show ?case by (intro seqc_ran [of "concat threads" w w' c]) auto
next
  case (Cons i sched)
  define k where "k = i mod length threads"
  have k: "k < length threads" using Cons.prems(3) by (cases threads) (auto simp: k_def)
  have ne: "threads \<noteq> []" using Cons.prems(3) by auto
  show ?case
  proof (cases "threads ! k")
    case Nil
    with Cons.IH [of threads w th] Cons.prems ne show ?thesis by (simp add: k_def Let_def)
  next
    case thk: (Cons d ds)
    then obtain w1 where w1: "d w = (Inr (), w1)" "par sched (threads[k := ds]) w1 = (Inr (), w')"
      using Cons.prems(1) ne by (auto simp: k_def Let_def split: prod.splits sum.splits)
    have sub: "\<exists>th'' \<in> set threads. set th' \<subseteq> set th''" if "th' \<in> set (threads[k := ds])" for th'
      using that k thk by (metis insertE nth_mem order_refl set_subset_Cons set_update_subset_insert subsetD)
    have em: "emits (\<lambda>_. True) UNIV e" if "th' \<in> set (threads[k := ds])" "e \<in> set th'" for th' e
      using sub [OF that(1)] that(2) Cons.prems(2) by blast
    obtain j where j: "j < length threads" "threads ! j = th" using Cons.prems(3) by (metis in_set_conv_nth)
    show ?thesis
    proof (cases "j = k \<and> c = d")
      case True
      have "emits (\<lambda>_. True) UNIV (par sched (threads[k := ds]))" using em by (intro emits_rules) auto
      from emitsE [OF this _ w1(2)] obtain tr where "effects w' = effects w1 @ tr" by blast
      with True w1(1) show ?thesis by (auto simp: ran_def)
    next
      case False
      have "threads[k := ds] ! j \<in> set (threads[k := ds])" using j(1) by simp
      moreover have "c \<in> set (threads[k := ds] ! j)"
        using False Cons.prems(4) j k thk by (cases "j = k") auto
      ultimately show ?thesis using Cons.IH [OF w1(2), of "threads[k := ds] ! j"] em by blast
    qed
  qed
qed

end
