(* ===== verification/Snap_Demo.thy ===== *)
theory Snap_Demo
  imports Snap_Trace
begin

text \<open>
  A concrete host on which the snapshot commands are run: the hypotheses of their theorems hold there.
\<close>

section \<open>A host for examples\<close>

text \<open>A server and an agent are running, the API answers at once; firecracker acknowledges every request; children get the process
  ids 100 and up.\<close>

definition demo_livez :: TlsTry where
  "demo_livez =
     \<lparr>tt_connect = True, tt_name = True, tt_session = True, tt_write = True, tt_reads = [Chunk ''HTTP/1.1 401'']\<rparr>"

definition demo_host :: SnapEnv where
  "demo_host =
     \<lparr>e_exists = (\<lambda>_. True), e_text = (\<lambda>_. None), e_canon = Some, e_mkdir = (\<lambda>_. True), e_write = (\<lambda>_. True),
      e_dir = (\<lambda>_. [''server'', ''agent1'']), e_path = None, e_is_file = (\<lambda>_. False), e_template_file = (\<lambda>_. None),
      e_read = (\<lambda>_. Inl []), e_sha256 = (\<lambda>_. []), e_fingerprint = ''cpu'', e_cwd = None, e_cmdline = (\<lambda>_. None),
      e_exe = (\<lambda>_. None),
      e_procs = (\<lambda>_. [\<lparr>pr_pid = 7, pr_comm = ''firecracker'', pr_cwd = Some ''/tmp/kubenyx-cluster/server'', pr_exe = None\<rparr>]),
      e_spawn = (\<lambda>i. Some (100 + int i)), e_conn = (\<lambda>_. Inr [Chunk (demo_headers @ CRLF2 @ ''ok'')]),
      e_sock = (\<lambda>_. True), e_marker = (\<lambda>_. [(0, Some ''KUBENYX-CLUSTER-READY'')]), e_addr_ok = (\<lambda>_. True), e_probe = (\<lambda>_. [(0, demo_livez, 3)]),
      e_fetch = (\<lambda>_. []), e_commit = (\<lambda>_. []), e_certs = (\<lambda>_ _ _. None),
      e_stdout = (\<lambda>_. True), e_stderr = (\<lambda>_. True), e_thread = (\<lambda>_. True), e_clone = (\<lambda>_. True)\<rparr>"

lemma demo_answer: "api_answer [Chunk (demo_headers @ CRLF2 @ ''ok'')] = Inr (200, ''ok'', [])"
proof -
  have s: "split_once CRLF2 (demo_headers @ CRLF2 @ ''ok'') = Some (demo_headers, ''ok'')" by code_simp
  moreover have n: "split_once CRLF2 [] = None" by (simp add: CRLF2_def)
  moreover have "demo_headers @ CRLF2 @ ''ok'' \<noteq> []" by simp
  ultimately have "api_headers [] [Chunk (demo_headers @ CRLF2 @ ''ok'')] =
      Inr (demo_headers @ CRLF2 @ ''ok'', length (demo_headers @ CRLF2), [])"
    by (subst api_headers.simps, simp, subst api_headers.simps, simp) (simp add: CRLF2_def)
  moreover have "api_body (length (demo_headers @ CRLF2) + 2) (demo_headers @ CRLF2 @ ''ok'') [] =
      Inr (demo_headers @ CRLF2 @ ''ok'', [])" by (subst api_body.simps) simp
  moreover have "(length (demo_headers @ CRLF2) + 2) mod 2 ^ 64 = length (demo_headers @ CRLF2) + 2"
    by (simp add: demo_headers_def CRLF2_def)
  moreover have "take (length (demo_headers @ CRLF2)) (demo_headers @ CRLF2 @ ''ok'') = demo_headers @ CRLF2"
    "drop (length (demo_headers @ CRLF2)) (demo_headers @ CRLF2 @ ''ok'') = ''ok''" by simp_all
  ultimately show ?thesis
    by (simp only: api_answer_def sum.case prod.case Let_def demo_content_length demo_status option.case)
qed

lemma demo_api: "api demo_host sock meth path body w = (Inr (), push_effect (Api sock meth path body) w)"
  by (simp add: api_def demo_host_def demo_answer api_expect_def)

lemma demo_make_dir: "make_dir demo_host d w = (Inr (), push_effect (MkDir d) w)"
  by (simp add: make_dir_def demo_host_def effect_def)

lemma demo_write_file: "write_file demo_host what p d w = (Inr (), push_effect (WriteFile p d) w)"
  by (simp add: write_file_def demo_host_def effect_def)

lemma demo_canonical: "canonical demo_host p w = (Inr p, w)"
  by (simp add: canonical_def demo_host_def ret_def)

lemma demo_spawn:
  "spawn demo_host prog args w =
    (Inr (100 + int (clock_of w)), push_effect (Spawn prog args (100 + int (clock_of w))) w)"
  by (simp add: spawn_def demo_host_def)

lemma demo_flag_or: "flag_or [] name d w = (Inr d, w)"
  by (simp add: flag_or_def bindc_def or_die_def ret_def)

lemma demo_clock: "clock_of (push_effect f w) = Suc (clock_of w)" "clock_of snap_start = 0"
  "effects (push_effect f w) = effects w @ [f]" "effects snap_start = []"
  "owned (push_effect f w) = owned w" "owned snap_start = no_vmms"
  by (simp_all add: clock_of_def push_effect_def snap_start_def)

lemma demo_panics_not: "println demo_host w = (Inr (), w)" "eprintln demo_host w = (Inr (), w)"
  "start_thread demo_host w = (Inr (), w)" "clone_fd demo_host w = (Inr (), w)"
  by (simp_all add: println_def eprintln_def start_thread_def clone_fd_def must_def demo_host_def)

lemma demo_join: "join_snapshots demo_host w = (Inr (), w)"
  by (simp add: join_snapshots_def demo_host_def)

lemma demo_probe_api: "probe_api demo_host addr msg w = (Inr (), push_effect (Probe addr) w)"
proof -
  have "probe_once (\<lambda>_. True) addr demo_livez = Inr True"
    by (simp add: probe_once_def demo_livez_def probe_answered_def starts_with_def strip_prefix_def)
  then show ?thesis by (simp add: probe_api_def demo_host_def)
qed

lemma demo_facts: "e_exists demo_host p" "e_text demo_host p = None" "e_sock demo_host k" "e_stdout demo_host k" "e_stderr demo_host k" "e_thread demo_host k"
  by (simp_all add: demo_host_def)

lemma demo_no_exe: "find_vmm_by_cwd demo_host (e_procs demo_host k) d = None"
  by (simp add: find_vmm_by_cwd_def demo_host_def)

lemma demo_no_vmm: "first_vmm demo_host (e_procs demo_host k) dirs = None"
  by (induction dirs) (simp_all add: demo_no_exe)

lemma demo_identity: "\<exists>i. \<forall>w. take_identity demo_host c None w = (Inr i, w)"
  by (simp add: take_identity_def bindc_def ret_def demo_panics_not split: prod.split)

lemmas demo_run = demo_probe_api demo_panics_not demo_join demo_api demo_make_dir demo_write_file demo_canonical demo_spawn demo_flag_or demo_clock
  bindc_def ret_def effect_def or_die_def pause_vm_def create_snapshot_def load_snapshot_def

definition demo_nodes :: "MeshNode list" where
  "demo_nodes = [\<lparr>mn_name = ''server'', mn_ip = ''10.100.0.2''\<rparr>, \<lparr>mn_name = ''agent1'', mn_ip = ''10.100.0.3''\<rparr>]"

lemma demo_targets:
  "mesh_take_nodes [] (node_names demo_host ''/tmp/kubenyx-cluster'')
     (e_text demo_host (path_join ''/tmp/kubenyx-cluster'' RUN_MANIFEST)) = Inr demo_nodes"
proof -
  have "show_nat 3 = ''3''" by code_simp
  then show ?thesis
    by (simp add: demo_nodes_def node_names_def demo_host_def mesh_take_nodes_def mesh_nodes_def conventional_ip_def
        number_suffix_def strip_prefix_def parse_unsigned_def digit_of_def is_server_name_def
        assert_volatile_mesh_take_def mesh_sort_def mesh_order_key_def Let_def)
qed

lemma demo_kill_mesh: "kill_mesh_vmms demo_host ''/tmp/kubenyx-cluster'' demo_nodes w = (Inr (), push_effect (Kill 7) w)"
proof -
  have "mesh_vmm ''/tmp/kubenyx-cluster'' demo_nodes
      \<lparr>pr_pid = 7, pr_comm = ''firecracker'', pr_cwd = Some ''/tmp/kubenyx-cluster/server'', pr_exe = None\<rparr>"
    by code_simp
  then show ?thesis by (simp add: kill_mesh_vmms_def demo_host_def bindc_def effect_def)
qed

text \<open>A mesh take of it, in which the agent's thread overtakes the server's.\<close>

definition demo_sock :: "string \<Rightarrow> string" where
  "demo_sock n = node_sock demo_host ''/tmp/kubenyx-cluster'' n"

definition demo_trace :: "SnapIdentity \<Rightarrow> SnapEffect list" where
  "demo_trace i =
     [MkDir ''mesh-snapshot'',
      Api (demo_sock ''server'') ''PATCH'' ''/vm'' (state_body ''Paused''),
      Api (demo_sock ''agent1'') ''PATCH'' ''/vm'' (state_body ''Paused''),
      MkDir ''mesh-snapshot/agent1'', MkDir ''mesh-snapshot/server'',
      Api (demo_sock ''agent1'') ''PUT'' ''/snapshot/create'' (create_body ''mesh-snapshot/agent1''),
      Api (demo_sock ''server'') ''PUT'' ''/snapshot/create'' (create_body ''mesh-snapshot/server''),
      WriteFile ''mesh-snapshot/manifest'' (manifest_body demo_nodes i), Kill 7]"

lemma demo_mesh_take:
  "\<exists>i w. cmd_mesh_take demo_host [1, 0, 1] [] snap_start = (Inr ''mesh-snapshot'', w) \<and> effects w = demo_trace i"
proof -
  obtain i where i: "take_identity demo_host None None w = (Inr i, w)" for w using demo_identity by blast
  let ?node = "node_sock demo_host ''/tmp/kubenyx-cluster''"
  have p: "seqc (map (\<lambda>n. api demo_host (?node (mn_name n)) ''PATCH'' ''/vm'' b) demo_nodes) w =
      (Inr (), push_effect (Api (?node ''agent1'') ''PATCH'' ''/vm'' b) (push_effect (Api (?node ''server'') ''PATCH'' ''/vm'' b) w))" for b w
    by (simp add: demo_nodes_def demo_run)
  have t: "\<exists>w'. par [Suc 0, 0, Suc 0] (map (snapshot_thread demo_host ''/tmp/kubenyx-cluster'' ''mesh-snapshot'') demo_nodes) w =
      (Inr (), w') \<and> effects w' = effects w @ take 4 (drop 3 (demo_trace i))" for w
    by (simp add: demo_nodes_def snapshot_thread_def demo_run path_join_def dir_prefix_def demo_trace_def demo_sock_def)
  let ?w = "push_effect (Api (?node ''agent1'') ''PATCH'' ''/vm'' (state_body ''Paused''))
      (push_effect (Api (?node ''server'') ''PATCH'' ''/vm'' (state_body ''Paused'')) (push_effect (MkDir ''mesh-snapshot'') snap_start))"
  obtain w' where w': "par [Suc 0, 0, Suc 0]
      (map (snapshot_thread demo_host ''/tmp/kubenyx-cluster'' ''mesh-snapshot'') demo_nodes) ?w = (Inr (), w')"
    "effects w' = effects ?w @ take 4 (drop 3 (demo_trace i))" using t by blast
  then have "cmd_mesh_take demo_host [1, 0, 1] [] snap_start = (Inr ''mesh-snapshot'',
      push_effect (Kill 7) (push_effect (WriteFile (path_join ''mesh-snapshot'' ''manifest'') (manifest_body demo_nodes i)) w'))"
    by (simp add: cmd_mesh_take_def demo_run mesh_take_targets_def demo_targets demo_no_vmm i demo_kill_mesh p del: par.simps)
  moreover have "effects (push_effect (Kill 7) (push_effect (WriteFile (path_join ''mesh-snapshot'' ''manifest'') (manifest_body demo_nodes i)) w'))
      = demo_trace i"
    by (simp add: w'(2) demo_run) (simp add: demo_trace_def demo_sock_def path_join_def dir_prefix_def)
  ultimately show ?thesis by blast
qed

end
