(* ===== verification/Snap_Cmd_Props.thy ===== *)
theory Snap_Cmd_Props
  imports Snap_Demo
begin

text \<open>
  Correctness of the snapshot commands: the consistent cut of a mesh take and the point from which it may
  kill the cluster, the identity gate before every spawned VMM, and the VMMs that outlive a command.
\<close>

section \<open>Requests and their answers\<close>

definition acknowledged :: "SnapEnv \<Rightarrow> string \<Rightarrow> string \<Rightarrow> nat \<Rightarrow> bool" where
  "acknowledged env meth path i =
     (case e_conn env i of
        Inl e \<Rightarrow> False
      | Inr reads \<Rightarrow>
          (case api_answer reads of
             Inl e \<Rightarrow> False
           | Inr (status, resp, _) \<Rightarrow> api_expect meth path (status, resp) = None))"

text \<open>A request is among the effects, and firecracker said yes.\<close>

definition acked :: "SnapEnv \<Rightarrow> string \<Rightarrow> string \<Rightarrow> string \<Rightarrow> string \<Rightarrow> SnapEffect list \<Rightarrow> bool" where
  "acked env sock meth path body es \<longleftrightarrow>
     (\<exists>i < length es. es ! i = Api sock meth path body \<and> acknowledged env meth path i)"

abbreviation paused :: "SnapEnv \<Rightarrow> string \<Rightarrow> SnapEffect list \<Rightarrow> bool" where
  "paused env sock \<equiv> acked env sock ''PATCH'' ''/vm'' (state_body ''Paused'')"

abbreviation created :: "SnapEnv \<Rightarrow> string \<Rightarrow> string \<Rightarrow> SnapEffect list \<Rightarrow> bool" where
  "created env sock dir \<equiv> acked env sock ''PUT'' ''/snapshot/create'' (create_body dir)"

lemma acked_append: "acked env sock meth path body es \<Longrightarrow> acked env sock meth path body (es @ tr)"
  unfolding acked_def by (metis length_append nth_append trans_less_add1)

lemma api_ok:
  "api env sock meth path body w = (Inr u, w') \<Longrightarrow>
     w' = push_effect (Api sock meth path body) w \<and> acknowledged env meth path (length (effects w))"
  by (auto simp: api_def Let_def die_def acknowledged_def clock_of_def kill_owned_eq
      split: sum.splits option.splits prod.splits)

lemma api_acked: "api env sock meth path body w = (Inr u, w') \<Longrightarrow> acked env sock meth path body (effects w')"
  unfolding acked_def by (drule api_ok, intro exI [of _ "length (effects w)"]) (simp add: push_effect_def)

lemma ran_acked: "ran (api env sock meth path body) w \<Longrightarrow> acked env sock meth path body (effects w)"
  unfolding ran_def using api_acked acked_append by metis

section \<open>The consistent cut of a mesh take\<close>

fun is_create :: "SnapEffect \<Rightarrow> bool" where
  "is_create (Api sock meth path body) \<longleftrightarrow> path = ''/snapshot/create''"
| "is_create _ \<longleftrightarrow> False"

fun is_kill :: "SnapEffect \<Rightarrow> bool" where
  "is_kill (Kill pid) \<longleftrightarrow> True"
| "is_kill _ \<longleftrightarrow> False"

fun is_spawn :: "SnapEffect \<Rightarrow> bool" where
  "is_spawn (Spawn prog args pid) \<longleftrightarrow> True"
| "is_spawn _ \<longleftrightarrow> False"

lemma dies_kinds [simp]: "dies (\<lambda>_. True) {f. \<not> is_create f}" "dies (\<lambda>_. True) {f. \<not> is_spawn f}"
  by (auto simp: dies_def)

abbreviation run_dir_of :: "string list \<Rightarrow> string" where
  "run_dir_of flags \<equiv> flag_value flags ''--run-dir'' ''/tmp/kubenyx-cluster''"

definition take_targets :: "SnapEnv \<Rightarrow> string list \<Rightarrow> (string + TakeRefusal) + MeshNode list" where
  "take_targets env flags =
     mesh_take_nodes flags (node_names env (run_dir_of flags)) (e_text env (path_join (run_dir_of flags) RUN_MANIFEST))"

definition sock_of :: "SnapEnv \<Rightarrow> string list \<Rightarrow> MeshNode \<Rightarrow> string" where
  "sock_of env flags n = node_sock env (run_dir_of flags) (mn_name n)"

text \<open>The command after its node selection, in three parts: before, during and after the pauses.\<close>

definition take_prepare :: "SnapEnv \<Rightarrow> string \<Rightarrow> string cmd" where
  "take_prepare env out0 = bindc (make_dir env out0) (\<lambda>_. canonical env out0)"

definition take_memory :: "SnapEnv \<Rightarrow> nat list \<Rightarrow> string \<Rightarrow> MeshNode list \<Rightarrow> string \<Rightarrow> unit cmd" where
  "take_memory env sched run_dir nodes out =
     bindc (eprintln env) (\<lambda>_.
     bindc (par sched (map (snapshot_thread env run_dir out) nodes)) (\<lambda>_.
     bindc (join_snapshots env) (\<lambda>_.
     bindc (\<lambda>w. take_identity env None
              (first_vmm env (e_procs env (clock_of w)) (map (\<lambda>n. path_join run_dir (mn_name n)) nodes)) w)
     (\<lambda>identity.
     write_file env ''write manifest'' (path_join out ''manifest'') (manifest_body nodes identity)))))"

definition take_finish :: "SnapEnv \<Rightarrow> string \<Rightarrow> MeshNode list \<Rightarrow> string \<Rightarrow> string cmd" where
  "take_finish env run_dir nodes out =
     bindc (eprintln env) (\<lambda>_.
     bindc (kill_mesh_vmms env run_dir nodes) (\<lambda>_.
     bindc (println env) (\<lambda>_. ret out)))"

lemma mesh_take_shape:
  "cmd_mesh_take env sched flags =
     bindc (flag_or flags ''--run-dir'' ''/tmp/kubenyx-cluster'') (\<lambda>run_dir.
     bindc (flag_or flags ''--out'' ''mesh-snapshot'') (\<lambda>out0.
     bindc (mesh_take_targets env flags run_dir) (\<lambda>nodes.
     bindc (take_prepare env out0) (\<lambda>out.
     bindc (seqc (map (pause_vm env) (map (\<lambda>n. node_sock env run_dir (mn_name n)) nodes))) (\<lambda>_.
     bindc (take_memory env sched run_dir nodes out) (\<lambda>_.
     take_finish env run_dir nodes out))))))"
  unfolding cmd_mesh_take_def take_prepare_def take_memory_def take_finish_def bindc_assoc by (simp add: comp_def)

lemma join_snapshots_ok: "join_snapshots env w = (Inr u, w') \<Longrightarrow> w' = w"
  by (auto simp: join_snapshots_def die_def kill_owned_eq split: if_splits)

lemma targets_ok:
  "mesh_take_targets env flags (run_dir_of flags) w = (Inr nodes, w') \<Longrightarrow> take_targets env flags = Inr nodes"
  by (cases "take_targets env flags")
     (auto simp: mesh_take_targets_def take_targets_def or_die_def die_def ret_def kill_owned_eq)

lemma emits_kill_mesh [emits_rules]: "range Kill \<subseteq> E \<Longrightarrow> emits I E (kill_mesh_vmms env run_dir nodes)"
  unfolding kill_mesh_vmms_def
  by (rule emits_state [of I E "\<lambda>w. seqc (map (\<lambda>p. effect (Kill (pr_pid p)))
        (filter (mesh_vmm run_dir nodes) (e_procs env (clock_of w))))"])
     (auto intro!: emits_seqc emits_effect dest: subsetD [OF _ rangeI])

lemma emits_join_snapshots [emits_rules]: "dies I E \<Longrightarrow> emits I E (join_snapshots env)"
  by (rule emitsI) (auto simp: join_snapshots_def die_def kill_owned_eq dies_def)

lemma emits_take_finish [emits_rules]: "range Kill \<subseteq> E \<Longrightarrow> emits I E (take_finish env run_dir nodes out)"
  unfolding take_finish_def by (intro emits_rules)

lemma emits_take_memory [emits_rules]:
  assumes "dies I E" "\<And>d. MkDir d \<in> E" "\<And>p s. WriteFile p s \<in> E" "\<And>s b. Api s ''PUT'' ''/snapshot/create'' b \<in> E"
  shows "emits I E (take_memory env sched run_dir nodes out)"
  unfolding take_memory_def using assms
  by (intro emits_rules) (auto simp: snapshot_thread_def create_snapshot_def intro!: emits_make_dir emits_api)

lemma emits_take_prepare [emits_rules]: "dies I E \<Longrightarrow> MkDir d \<in> E \<Longrightarrow> emits I E (take_prepare env d)"
  unfolding take_prepare_def by (intro emits_rules)

lemma emits_targets [emits_rules]: "dies I E \<Longrightarrow> emits I E (mesh_take_targets env flags run_dir)"
  unfolding mesh_take_targets_def by (intro emits_rules)

lemma emits_pause [emits_rules]:
  "dies I E \<Longrightarrow> Api sock ''PATCH'' ''/vm'' (state_body ''Paused'') \<in> E \<Longrightarrow> emits I E (pause_vm env sock)"
  unfolding pause_vm_def by (rule emits_api)

lemma pauses_all:
  assumes "seqc (map (pause_vm env) socks) w = (Inr u, w')" "s \<in> set socks"
  shows "paused env s (effects w')"
proof -
  have "ran (pause_vm env s) w'"
    by (rule seqc_ran [of "map (pause_vm env) socks" w]) (use assms in \<open>auto simp: pause_vm_def intro!: emits_api\<close>)
  then show ?thesis by (auto simp: pause_vm_def dest: ran_acked)
qed

text \<open>What an observer of the take finds once its memory images and manifest are complete.\<close>

definition complete :: "SnapEnv \<Rightarrow> string list \<Rightarrow> MeshNode list \<Rightarrow> SnapEffect list \<Rightarrow> bool" where
  "complete env flags nodes es \<longleftrightarrow>
     (\<exists>out identity. WriteFile (path_join out ''manifest'') (manifest_body nodes identity) \<in> set es
        \<and> (\<forall>n \<in> set nodes. created env (sock_of env flags n) (path_join out (mn_name n)) es))"

lemma complete_append: "complete env flags nodes es \<Longrightarrow> complete env flags nodes (es @ tr)"
  unfolding complete_def using acked_append by (metis Un_iff set_append)

lemma memory_complete:
  assumes "take_memory env sched (run_dir_of flags) nodes out w = (Inr (), w')"
  shows "complete env flags nodes (effects w')"
proof -
  let ?th = "map (snapshot_thread env (run_dir_of flags) out) nodes"
  let ?id = "\<lambda>w. take_identity env None
    (first_vmm env (e_procs env (clock_of w)) (map (\<lambda>n. path_join (run_dir_of flags) (mn_name n)) nodes)) w"
  let ?wr = "\<lambda>i. write_file env ''write manifest'' (path_join out ''manifest'') (manifest_body nodes i)"
  obtain w1 i w2 where w: "par sched ?th w = (Inr (), w1)" "?id w1 = (Inr i, w2)" "?wr i w2 = (Inr (), w')"
    using assms by (auto simp: take_memory_def bindc_def split: prod.splits sum.splits dest!: panics_not join_snapshots_ok)
  have "created env (sock_of env flags n) (path_join out (mn_name n)) (effects w')" if "n \<in> set nodes" for n
  proof -
    have "ran (create_snapshot env (sock_of env flags n) (path_join out (mn_name n))) w1"
      using that by (intro par_ran [OF w(1)])
        (auto simp: snapshot_thread_def create_snapshot_def sock_of_def intro!: emits_make_dir emits_api)
    then have c: "created env (sock_of env flags n) (path_join out (mn_name n)) (effects w1)"
      by (auto simp: create_snapshot_def dest: ran_acked)
    have em: "emits (\<lambda>_. True) UNIV (bindc ?id ?wr)" by (intro emits_rules) auto
    have "bindc ?id ?wr w1 = (Inr (), w')" using w(2,3) by (simp add: bindc_def)
    from emitsE [OF em _ this] obtain tr where "effects w' = effects w1 @ tr" by blast
    with c acked_append show ?thesis by metis
  qed
  moreover have "WriteFile (path_join out ''manifest'') (manifest_body nodes i) \<in> set (effects w')"
    using w(3) by (auto simp: write_file_def effect_def push_effect_def die_def kill_owned_eq split: if_splits)
  ultimately show ?thesis unfolding complete_def by blast
qed

text \<open>C15: a mesh take captures a consistent cut: under any schedule of the threads that write the memory
  images, and however the command ends, no snapshot of any node is requested before every node of the
  mesh has been asked to pause and firecracker has acknowledged it.\<close>
theorem mesh_take_cut:
  assumes nodes: "take_targets env flags = Inr nodes"
  shows "guarded is_create (\<lambda>es. \<forall>n \<in> set nodes. paused env (sock_of env flags n) es)
     (effects (snd (cmd_mesh_take env sched flags snap_start)))"
  unfolding mesh_take_shape
proof (rule guarded_bind [OF _ _ guarded_bind [OF _ _ guarded_bind [OF _ _ guarded_bind [OF _ _ guarded_bind]]]])
  fix run_dir w1 out0 w2 nodes' w3 out w4 u w5
  assume w: "flag_or flags ''--run-dir'' ''/tmp/kubenyx-cluster'' snap_start = (Inr run_dir, w1)"
    "mesh_take_targets env flags run_dir w2 = (Inr nodes', w3)" "clear (\<lambda>_. True) is_create w5"
    "seqc (map (pause_vm env) (map (\<lambda>n. node_sock env run_dir (mn_name n)) nodes')) w4 = (Inr u, w5)"
  then have eq: "run_dir = run_dir_of flags" "nodes' = nodes"
    using flag_or_value [OF w(1)] targets_ok [of env flags w2 nodes' w3] nodes by auto
  have "\<forall>n \<in> set nodes. paused env (sock_of env flags n) (effects w5)"
    using pauses_all [OF w(4) [unfolded eq]] by (auto simp: sock_of_def)
  then show "guarded is_create (\<lambda>es. \<forall>n \<in> set nodes. paused env (sock_of env flags n) es)
     (effects (snd (bindc (take_memory env sched run_dir nodes' out)
        (\<lambda>_. take_finish env run_dir nodes' out) w5)))"
    by (intro guarded_after [OF w(3)]) (auto intro!: emits_rules acked_append)
qed (auto simp: clear_def snap_start_def intro!: emits_rules)

lemma demo_take_targets: "take_targets demo_host [] = Inr demo_nodes"
  using demo_targets by (simp add: take_targets_def flag_value_def)

theorem mesh_take_cut_witness:
  "\<exists>i. guarded is_create (\<lambda>es. \<forall>n \<in> set demo_nodes. paused demo_host (sock_of demo_host [] n) es) (demo_trace i)"
proof -
  obtain i w where "cmd_mesh_take demo_host [1, 0, 1] [] snap_start = (Inr ''mesh-snapshot'', w)" "effects w = demo_trace i"
    using demo_mesh_take by blast
  with mesh_take_cut [OF demo_take_targets, of "[1, 0, 1]"] show ?thesis by (intro exI [of _ i]) simp
qed

lemma mesh_take_done:
  assumes "cmd_mesh_take env sched flags w = (Inr out, w')"
  shows "\<exists>nodes. take_targets env flags = Inr nodes \<and> complete env flags nodes (effects w')"
proof -
  obtain run_dir w1 w2 nodes w3 out' w5 v w6 where
    w: "flag_or flags ''--run-dir'' ''/tmp/kubenyx-cluster'' w = (Inr run_dir, w1)"
    "mesh_take_targets env flags run_dir w2 = (Inr nodes, w3)"
    "take_memory env sched run_dir nodes out' w5 = (Inr v, w6)"
    "take_finish env run_dir nodes out' w6 = (Inr out, w')"
    using assms unfolding mesh_take_shape
    by (auto simp: bindc_def [of "flag_or _ _ _"] bindc_def [of "mesh_take_targets _ _ _"] bindc_def [of "take_prepare _ _"]
        bindc_def [of "seqc _"] bindc_def [of "take_memory _ _ _ _ _"]
        split: prod.splits sum.splits)
  have eq: "run_dir = run_dir_of flags" by (rule flag_or_value [OF w(1)])
  have "emits (\<lambda>_. True) UNIV (take_finish env run_dir nodes out')" by (intro emits_rules) auto
  from emitsE [OF this _ w(4)] obtain tr where "effects w' = effects w6 @ tr" by blast
  moreover have "complete env flags nodes (effects w6)" using w(3) eq by (auto intro: memory_complete)
  ultimately show ?thesis using targets_ok [OF w(2) [unfolded eq]] complete_append by metis
qed

lemma kills_guarded:
  assumes nodes: "take_targets env flags = Inr nodes"
  shows "guarded is_kill (complete env flags nodes) (effects (snd (cmd_mesh_take env sched flags snap_start)))"
  unfolding mesh_take_shape
proof (rule guarded_bind [OF _ _ guarded_bind [OF _ _ guarded_bind [OF _ _ guarded_bind [OF _ _ guarded_bind
      [OF _ _ guarded_bind]]]]])
  fix run_dir w1 out0 w2 nodes' w3 out w4 u w5 v w6
  assume w: "flag_or flags ''--run-dir'' ''/tmp/kubenyx-cluster'' snap_start = (Inr run_dir, w1)"
    "mesh_take_targets env flags run_dir w2 = (Inr nodes', w3)" "clear (\<lambda>s. s = no_vmms) is_kill w6"
    "take_memory env sched run_dir nodes' out w5 = (Inr v, w6)"
  then have eq: "run_dir = run_dir_of flags" "nodes' = nodes"
    using flag_or_value [OF w(1)] targets_ok [of env flags w2 nodes' w3] nodes by auto
  have "complete env flags nodes (effects w6)" using w(4) eq memory_complete by simp
  then show "guarded is_kill (complete env flags nodes)
     (effects (snd (take_finish env run_dir nodes' out w6)))"
    by (intro guarded_after [OF w(3)]) (auto intro!: emits_rules complete_append)
qed (auto simp: clear_def snap_start_def intro!: emits_rules)


text \<open>C16: a mesh take never kills a cluster it has not saved: every process it kills, however it ends and
  under any schedule, is killed after the snapshot of every node was acknowledged and the manifest naming
  all of them was written; and a take that ends normally has done so.\<close>
theorem mesh_take_kills_last:
  assumes "take_targets env flags = Inr nodes" "cmd_mesh_take env sched flags snap_start = (r, w)"
  shows "guarded is_kill (complete env flags nodes) (effects w)
    \<and> (\<forall>out. r = Inr out \<longrightarrow> complete env flags nodes (effects w))"
  using kills_guarded [OF assms(1), of sched] mesh_take_done [of env sched flags snap_start _ w] assms by auto

theorem mesh_take_kills_last_witness:
  "\<exists>i. guarded is_kill (complete demo_host [] demo_nodes) (demo_trace i) \<and> complete demo_host [] demo_nodes (demo_trace i)"
proof -
  obtain i w where "cmd_mesh_take demo_host [1, 0, 1] [] snap_start = (Inr ''mesh-snapshot'', w)" "effects w = demo_trace i"
    using demo_mesh_take by blast
  with mesh_take_kills_last [OF demo_take_targets, of "[1, 0, 1]"] show ?thesis by (intro exI [of _ i]) simp
qed

text \<open>The kill goes by the working directory as the flag spells it: with a relative run directory, no process
  is killed, since the kernel reports absolute working directories.\<close>

lemma slash_piece: "c \<in> set (split_char x p) \<Longrightarrow> x \<notin> set c"
  by (induction x p arbitrary: c rule: split_char.induct) (auto split: list.splits if_splits)

lemma components_root: "''/'' \<in> set (path_components p) \<longleftrightarrow> starts_with ''/'' p"
  using slash_piece [of "''/''" "CHR ''/''" p] by (auto simp: path_components_def Let_def)

lemma relative_run_dir_kills_nothing:
  assumes "run_dir \<noteq> []" "\<not> starts_with ''/'' run_dir" "\<forall>n \<in> set nodes. \<not> starts_with ''/'' (mn_name n)"
    and "\<forall>p \<in> set (e_procs env (clock_of w)). \<forall>cwd. pr_cwd p = Some cwd \<longrightarrow> starts_with ''/'' cwd"
  shows "kill_mesh_vmms env run_dir nodes w = (Inr (), w)"
proof -
  have rel: "\<not> starts_with ''/'' (path_join run_dir (mn_name n))" if "n \<in> set nodes" for n
    using assms(1-3) that by (cases run_dir) (auto simp: path_join_def dir_prefix_def starts_with_def strip_prefix_def split: if_splits)
  have "\<not> mesh_vmm run_dir nodes p" if "p \<in> set (e_procs env (clock_of w))" for p
    using assms(4) that rel by (fastforce simp: mesh_vmm_def components_root [symmetric] split: option.splits)
  then have "filter (mesh_vmm run_dir nodes) (e_procs env (clock_of w)) = []" by (simp add: filter_empty_conv)
  then show ?thesis by (simp add: kill_mesh_vmms_def)
qed
section \<open>An attached take\<close>

text \<open>The request that lets the VM go on.\<close>

fun is_resume :: "SnapEffect \<Rightarrow> bool" where
  "is_resume (Api sock meth path body) \<longleftrightarrow> path = ''/vm'' \<and> body = state_body ''Resumed''"
| "is_resume _ \<longleftrightarrow> False"

text \<open>The command before its first request, and after the VM runs again.\<close>

definition attached_prepare :: "SnapEnv \<Rightarrow> string list \<Rightarrow> (string \<times> string) cmd" where
  "attached_prepare env flags =
     bindc (flag_or flags ''--sock'' ''kubenyx.sock'') (\<lambda>sock.
     if \<not> e_exists env sock then
       die (sock @ '' not found - either run from the directory the VM was started in, pass --sock, or pass --runner to boot a fresh VM instead'')
     else
     bindc (flag_or flags ''--out'' ''snapshot'') (\<lambda>out0.
     bindc (make_dir env out0) (\<lambda>_.
     bindc (canonical env out0) (\<lambda>out. ret (sock, out)))))"

definition attached_manifest :: "SnapEnv \<Rightarrow> string \<Rightarrow> string \<Rightarrow> string cmd" where
  "attached_manifest env sock out =
     bindc (\<lambda>w. take_identity env None
              (case e_canon env sock of
                 None \<Rightarrow> None
               | Some p \<Rightarrow>
                   (case rsplit_once (CHR ''/'') p of
                      None \<Rightarrow> None
                    | Some (d, _) \<Rightarrow> find_vmm_by_cwd env (e_procs env (clock_of w)) (if d = [] then ''/'' else d))) w)
     (\<lambda>identity.
     bindc (write_file env ''write manifest'' (path_join out ''manifest'') (identity_lines identity)) (\<lambda>_.
     bindc (eprintln env) (\<lambda>_.
     bindc (println env) (\<lambda>_.
     ret out))))"

lemma attached_shape:
  "cmd_take_attached env flags =
     bindc (attached_prepare env flags) (\<lambda>(sock, out).
     bindc (pause_vm env sock) (\<lambda>_.
     bindc (create_snapshot env sock out) (\<lambda>_.
     bindc (api env sock ''PATCH'' ''/vm'' (state_body ''Resumed'')) (\<lambda>_.
     attached_manifest env sock out))))"
  unfolding cmd_take_attached_def attached_prepare_def attached_manifest_def
  by (simp only: bindc_assoc bindc_if bindc_die bindc_ret prod.case)

lemma emits_attached_prepare: "dies I E \<Longrightarrow> range MkDir \<subseteq> E \<Longrightarrow> emits I E (attached_prepare env flags)"
  unfolding attached_prepare_def by (intro emits_rules) auto

lemma attached_prepare_sock:
  "attached_prepare env flags w = (Inr (sock, out), w') \<Longrightarrow> sock = flag_value flags ''--sock'' ''kubenyx.sock''"
  unfolding attached_prepare_def
  by (auto simp: bindc_def die_def ret_def kill_owned_eq split: prod.splits sum.splits if_splits dest!: flag_or_value)

lemma grows_attached_manifest: "emits (\<lambda>_. True) UNIV (attached_manifest env sock out)"
  unfolding attached_manifest_def by (intro emits_rules) auto

lemma grows_attached_rest:
  "emits (\<lambda>_. True) UNIV (bindc (api env sock ''PATCH'' ''/vm'' (state_body ''Resumed'')) (\<lambda>_. attached_manifest env sock out))"
  by (intro emits_rules grows_attached_manifest) auto

lemma dies_resume [simp]: "dies (\<lambda>_. True) {f. \<not> is_resume f}"
  by (auto simp: dies_def)

text \<open>C39: an attached take asks for the snapshot only once the VM's pause was acknowledged, and lets the VM
  run on only once the snapshot was: it never copies the memory of a running VM. So a take whose snapshot is
  refused ends with the VM paused, as no request to resume follows.\<close>
theorem attached_take_order:
  "guarded is_create (paused env (flag_value flags ''--sock'' ''kubenyx.sock''))
     (effects (snd (cmd_take_attached env flags snap_start)))
   \<and> guarded is_resume (\<lambda>es. \<exists>out. created env (flag_value flags ''--sock'' ''kubenyx.sock'') out es)
     (effects (snd (cmd_take_attached env flags snap_start)))"
  (is "guarded is_create ?P ?es \<and> guarded is_resume ?Q ?es")
proof
  show "guarded is_create ?P ?es"
    unfolding attached_shape
  proof (rule guarded_bind [where I = "\<lambda>_. True"])
    fix x w1 assume x: "attached_prepare env flags snap_start = (Inr x, w1)" and c: "clear (\<lambda>_. True) is_create w1"
    obtain sock out where [simp]: "x = (sock, out)" by (cases x)
    have "sock = flag_value flags ''--sock'' ''kubenyx.sock''" using attached_prepare_sock x by auto
    then have "guarded is_create ?P (effects (snd (bindc (pause_vm env sock) (\<lambda>_. bindc (create_snapshot env sock out) (\<lambda>_.
        bindc (api env sock ''PATCH'' ''/vm'' (state_body ''Resumed'')) (\<lambda>_. attached_manifest env sock out))) w1)))"
      unfolding pause_vm_def create_snapshot_def
      by (intro guarded_bind [OF emits_api c] guarded_after [where I = "\<lambda>_. True"] emits_bind emits_api grows_attached_manifest)
         (auto dest: api_acked intro: acked_append)
    then show "guarded is_create ?P (effects (snd ((case x of (sock, out) \<Rightarrow>
        bindc (pause_vm env sock) (\<lambda>_. bindc (create_snapshot env sock out) (\<lambda>_.
        bindc (api env sock ''PATCH'' ''/vm'' (state_body ''Resumed'')) (\<lambda>_. attached_manifest env sock out)))) w1)))"
      by simp
  qed (auto simp: clear_def snap_start_def intro!: emits_attached_prepare)
  show "guarded is_resume ?Q ?es"
    unfolding attached_shape
  proof (rule guarded_bind [where I = "\<lambda>_. True"])
    fix x w1 assume x: "attached_prepare env flags snap_start = (Inr x, w1)" and c: "clear (\<lambda>_. True) is_resume w1"
    obtain sock out where [simp]: "x = (sock, out)" by (cases x)
    have sock: "sock = flag_value flags ''--sock'' ''kubenyx.sock''" using attached_prepare_sock x by auto
    have "guarded is_resume ?Q (effects (snd (bindc (pause_vm env sock) (\<lambda>_. bindc (create_snapshot env sock out) (\<lambda>_.
        bindc (api env sock ''PATCH'' ''/vm'' (state_body ''Resumed'')) (\<lambda>_. attached_manifest env sock out))) w1)))"
      unfolding pause_vm_def create_snapshot_def
    proof (rule guarded_bind [OF _ c guarded_bind [where I = "\<lambda>_. True"]])
      fix u w2 v w3
      assume "api env sock ''PUT'' ''/snapshot/create'' (create_body out) w2 = (Inr v, w3)" "clear (\<lambda>_. True) is_resume w3"
      then show "guarded is_resume ?Q (effects (snd (bindc (api env sock ''PATCH'' ''/vm'' (state_body ''Resumed''))
          (\<lambda>_. attached_manifest env sock out) w3)))"
        by (intro guarded_after [where I = "\<lambda>_. True"] grows_attached_rest) (auto simp: sock dest: api_acked intro: acked_append)
    qed (auto intro!: emits_api simp: state_body_def quoted_def)
    then show "guarded is_resume ?Q (effects (snd ((case x of (sock, out) \<Rightarrow>
        bindc (pause_vm env sock) (\<lambda>_. bindc (create_snapshot env sock out) (\<lambda>_.
        bindc (api env sock ''PATCH'' ''/vm'' (state_body ''Resumed'')) (\<lambda>_. attached_manifest env sock out)))) w1)))"
      by simp
  qed (auto simp: clear_def snap_start_def intro!: emits_attached_prepare)
qed

section \<open>The gate before every VMM\<close>

text \<open>The template that \<open>--cpu-template\<close> names, and the gate's answer for it.\<close>

definition requested_template :: "SnapEnv \<Rightarrow> string list \<Rightarrow> string + string option" where
  "requested_template env flags =
     (case flag_get flags ''--cpu-template'' of
        Inl e \<Rightarrow> Inl e
      | Inr None \<Rightarrow> Inr None
      | Inr (Some spec) \<Rightarrow> map_sum id Some (resolve_template_spec (e_sha256 env) (e_template_file env) spec))"

definition gate_open :: "SnapEnv \<Rightarrow> string list \<Rightarrow> string \<Rightarrow> bool" where
  "gate_open env flags d \<longleftrightarrow>
     (case requested_template env flags of
        Inl e \<Rightarrow> False
      | Inr template \<Rightarrow>
          snd (snd (enforce_identity (e_text env (path_join (flag_value flags ''--snapshot'' d) ''manifest''))
            (resolve_exe env (flag_value flags ''--firecracker'' ''firecracker'')) (e_fingerprint env) template
            (flag_has flags ''--allow-identity-mismatch''))) = Proceed)"

lemma verdict_passes:
  "(if verdict = DieNoIdentity then die msg
    else bindc c (\<lambda>_. if verdict = DieMismatch then die msg' else ret ())) w = (Inr u, w') \<Longrightarrow> verdict = Proceed"
  by (cases verdict) (auto simp: bindc_def die_def kill_owned_eq split: prod.splits sum.splits)

lemma gate_passes:
  "gate env flags (flag_value flags ''--snapshot'' d) (flag_value flags ''--firecracker'' ''firecracker'') w = (Inr u, w')
     \<Longrightarrow> gate_open env flags d"
  by (auto simp: gate_def gate_open_def requested_template_def bindc_def or_die_def ret_def die_def kill_owned_eq
      split: sum.splits option.splits prod.splits dest: verdict_passes)

lemma emits_gate [emits_rules]: "dies I E \<Longrightarrow> emits I E (gate env flags snapshot firecracker)"
  unfolding gate_def
  by (intro emits_rules) (auto split: option.split prod.split Gate.split intro!: emits_rules)

lemma emits_resume_flags [emits_rules]: "dies I E \<Longrightarrow> emits I E (resume_flags env flags)"
  unfolding resume_flags_def by (intro emits_rules)

lemma emits_mesh_resume_flags [emits_rules]: "dies I E \<Longrightarrow> emits I E (mesh_resume_flags env flags)"
  unfolding mesh_resume_flags_def by (intro emits_rules)

lemma resume_flags_gate: "resume_flags env flags w = (Inr a, w') \<Longrightarrow> gate_open env flags ''snapshot''"
  unfolding resume_flags_def
  by (auto simp: bindc_def [of "flag_or _ _ _"] bindc_def [of "gate _ _ _ _"] die_def kill_owned_eq
      split: prod.splits sum.splits if_splits dest!: flag_or_value intro: gate_passes)

lemma mesh_resume_flags_gate:
  "mesh_resume_flags env flags w = (Inr a, w') \<Longrightarrow> gate_open env flags ''mesh-snapshot''"
  unfolding mesh_resume_flags_def
  by (auto simp: bindc_def die_def kill_owned_eq
      split: prod.splits sum.splits option.splits dest!: flag_or_value intro: gate_passes)

text \<open>The rest of a resume may do anything, but only ever adds to the effects.\<close>

abbreviation grows :: "'a cmd \<Rightarrow> bool" where
  "grows c \<equiv> emits (\<lambda>_. True) UNIV c"

lemma grows_guard: "grows (\<lambda>w. if b w then (Inr x, w) else die msg w)"
  by (rule emitsI) (auto simp: die_def kill_owned_eq)

lemma grows_probe_api: "grows (probe_api env addr msg)"
  by (rule emitsI) (auto simp: probe_api_def Let_def push_effect_def die_def kill_owned_eq split: sum.split option.split)

lemma grows_quorum_probe: "grows (quorum_probe env nodes)"
  by (rule emitsI) (auto simp: quorum_probe_def Let_def push_effect_def die_def kill_owned_eq split: sum.split bool.split)

lemma grows_own_child: "grows (own_child i)"
  by (rule emitsI) (auto simp: own_child_def own_def die_def kill_owned_eq split: option.split)

lemma grows_silent: "(\<And>w. effects (snd (c w)) = effects w) \<Longrightarrow> grows c"
  by (simp add: emits_def)

lemma grows_disown: "grows (disown pid)"
  by (rule grows_silent) (simp add: disown_def)

lemma grows_own: "grows (own pid)"
  by (intro emits_rules) auto

lemma grows_median: "grows (median_of n)"
  by (rule grows_silent) (simp add: median_of_def)

lemma grows_spawn_child: "grows (spawn_child env firecracker i name enable_pci)"
  unfolding spawn_child_def by (rule emits_bind) (auto intro: grows_silent emits_spawn)

lemmas grows_rules = emits_println emits_bind emits_effect emits_seqc emits_par emits_ret grows_guard grows_probe_api
  grows_quorum_probe grows_own_child grows_disown grows_own grows_median grows_spawn_child

lemma grows_resume_with: "grows (resume_with env a)"
  unfolding resume_with_def resume_once_def load_snapshot_def
  by (intro grows_rules emits_write_file emits_spawn emits_api) auto

lemma grows_resume_thread: "c \<in> set (resume_thread env snapshot firecracker enable_pci t) \<Longrightarrow> grows c"
  by (cases t)
     (auto simp: resume_thread_def Let_def load_snapshot_def
        intro: grows_guard grows_own_child grows_spawn_child emits_effect emits_write_file emits_api)

lemma grows_mesh_resume_once: "grows (mesh_resume_once env sched nodes snapshot firecracker enable_pci)"
  unfolding mesh_resume_once_def
  by (intro grows_rules) (auto intro!: emits_bind [OF emits_println(3)] intro: grows_silent grows_resume_thread emits_effect)

lemma clear_start: "clear (\<lambda>_. True) K snap_start"
  by (simp add: clear_def snap_start_def)

lemma resume_guard:
  "(\<And>a. grows (k a)) \<Longrightarrow> guarded is_spawn (\<lambda>_. gate_open env flags ''snapshot'')
     (effects (snd (bindc (resume_flags env flags) k snap_start)))"
  using clear_start by (intro guarded_bind [where I = "\<lambda>_. True"] guarded_after) (auto intro: emits_resume_flags resume_flags_gate)

lemma mesh_guard:
  "(\<And>a. grows (k a)) \<Longrightarrow> guarded is_spawn (\<lambda>_. gate_open env flags ''mesh-snapshot'')
     (effects (snd (bindc (mesh_resume_flags env flags) k snap_start)))"
  using clear_start by (intro guarded_bind [where I = "\<lambda>_. True"] guarded_after) (auto intro: emits_mesh_resume_flags mesh_resume_flags_gate)

lemma grows_cycle_round: "grows (cycle_round env a)"
  unfolding cycle_round_def by (intro grows_rules grows_resume_with) auto

lemma grows_mesh_cycle_round: "grows (mesh_cycle_round env nodes snapshot firecracker enable_pci sched)"
  unfolding mesh_cycle_round_def reap_child_def
  by (rule emits_bind [OF grows_mesh_resume_once]) (auto intro!: grows_rules)

text \<open>C17: no VMM is started behind the identity gate's back: whichever of the four resume commands runs,
  under any schedule of its threads and however it ends, a VMM is spawned only when \<open>enforce_identity\<close>
  proceeded for the manifest of the snapshot, the firecracker binary and the CPU template of its flags.\<close>
theorem gate_before_spawn:
  "guarded is_spawn (\<lambda>_. gate_open env flags ''snapshot'') (effects (snd (cmd_resume env flags snap_start)))
   \<and> guarded is_spawn (\<lambda>_. gate_open env flags ''snapshot'') (effects (snd (cmd_cycle env flags snap_start)))
   \<and> guarded is_spawn (\<lambda>_. gate_open env flags ''mesh-snapshot'')
       (effects (snd (cmd_mesh_resume env sched flags snap_start)))
   \<and> guarded is_spawn (\<lambda>_. gate_open env flags ''mesh-snapshot'')
       (effects (snd (cmd_mesh_cycle env scheds flags snap_start)))"
proof (intro conjI)
  show "guarded is_spawn (\<lambda>_. gate_open env flags ''snapshot'') (effects (snd (cmd_resume env flags snap_start)))"
    unfolding cmd_resume_def by (rule resume_guard) (intro grows_rules grows_resume_with)
  show "guarded is_spawn (\<lambda>_. gate_open env flags ''snapshot'') (effects (snd (cmd_cycle env flags snap_start)))"
    unfolding cmd_cycle_def
    by (rule resume_guard) (auto intro!: grows_rules emits_flag_number intro: grows_cycle_round split: if_splits)
  show "guarded is_spawn (\<lambda>_. gate_open env flags ''mesh-snapshot'')
      (effects (snd (cmd_mesh_resume env sched flags snap_start)))"
    unfolding cmd_mesh_resume_def by (rule mesh_guard) (auto intro!: grows_rules grows_mesh_resume_once)
  show "guarded is_spawn (\<lambda>_. gate_open env flags ''mesh-snapshot'')
      (effects (snd (cmd_mesh_cycle env scheds flags snap_start)))"
    unfolding cmd_mesh_cycle_def
    by (rule mesh_guard) (auto intro!: grows_rules emits_flag_number intro: grows_mesh_cycle_round)
qed

end
