(* ===== verification/Snap_Life.thy ===== *)
theory Snap_Life
  imports Snap_Demo
begin

text \<open>
  The VMMs that outlive a snapshot command: a run of a single-VM command is followed through the table of
  owned VMMs, which must name every VMM that was spawned and not killed at each point where it may die.
\<close>

section \<open>Live VMMs\<close>

fun live_step :: "int set \<Rightarrow> SnapEffect \<Rightarrow> int set" where
  "live_step L (Spawn prog args pid) = (if 0 < pid then insert pid L else L)"
| "live_step L (Kill pid) = L - {pid}"
| "live_step L _ = L"

definition live :: "SnapEffect list \<Rightarrow> int set" where
  "live es = foldl live_step {} es"

lemma live_Nil [simp]: "live [] = {}"
  by (simp add: live_def)

lemma live_snoc [simp]: "live (es @ [f]) = live_step (live es) f"
  by (simp add: live_def)

lemma live_kills [simp]: "live (es @ map Kill ps) = live es - set ps"
  by (induction ps rule: rev_induct) (auto simp flip: append_assoc)

lemma live_positive: "p \<in> live es \<Longrightarrow> 0 < p"
proof (induction es rule: rev_induct)
  case (snoc f es)
  then show ?case by (cases f) (auto split: if_splits)
qed simp

text \<open>The live VMMs are among the owned ones, and the table is known.\<close>

definition tracked :: "int list \<Rightarrow> SnapWorld \<Rightarrow> bool" where
  "tracked slots w \<longleftrightarrow> owned w = slots \<and> live (effects w) \<subseteq> set slots"

definition holds :: "int list \<Rightarrow> 'a cmd \<Rightarrow> ('a \<Rightarrow> int list) \<Rightarrow> bool" where
  "holds slots c slots' \<longleftrightarrow>
     (\<forall>w r w'. tracked slots w \<longrightarrow> c w = (r, w') \<longrightarrow>
        (case r of Inl e \<Rightarrow> live (effects w') = {} | Inr x \<Rightarrow> tracked (slots' x) w'))"

lemma holdsI:
  "(\<And>w r w'. tracked slots w \<Longrightarrow> c w = (r, w') \<Longrightarrow>
      (case r of Inl e \<Rightarrow> live (effects w') = {} | Inr x \<Rightarrow> tracked (slots' x) w')) \<Longrightarrow> holds slots c slots'"
  by (simp add: holds_def)

lemma holds_Inl: "holds slots c slots' \<Longrightarrow> tracked slots w \<Longrightarrow> c w = (Inl e, w') \<Longrightarrow> live (effects w') = {}"
  by (fastforce simp: holds_def)

lemma holds_Inr: "holds slots c slots' \<Longrightarrow> tracked slots w \<Longrightarrow> c w = (Inr x, w') \<Longrightarrow> tracked (slots' x) w'"
  by (fastforce simp: holds_def)

lemma live_empty: "live es \<subseteq> set no_vmms \<Longrightarrow> live es = {}"
  using live_positive [of _ es] by (fastforce simp: no_vmms_def)

named_theorems holds_rules

lemma holds_bind:
  assumes m: "holds slots m slots1" and k: "\<And>x. holds (slots1 x) (k x) slots2"
  shows "holds slots (bindc m k) slots2"
proof (rule holdsI)
  fix w r w' assume w: "tracked slots w" and run: "bindc m k w = (r, w')"
  show "case r of Inl e \<Rightarrow> live (effects w') = {} | Inr x \<Rightarrow> tracked (slots2 x) w'"
  proof (cases "m w")
    case (Pair q w1)
    show ?thesis
    proof (cases q)
      case (Inl e)
      with Pair run holds_Inl [OF m w] show ?thesis by (auto simp: bindc_def)
    next
      case (Inr x)
      with Pair have "tracked (slots1 x) w1" using holds_Inr [OF m w] by simp
      with Pair Inr run k [of x] show ?thesis by (auto simp: bindc_def holds_def)
    qed
  qed
qed

lemma holds_bind_same [holds_rules]:
  "holds slots m (\<lambda>_. slots) \<Longrightarrow> (\<And>x. holds slots (k x) slots2) \<Longrightarrow> holds slots (bindc m k) slots2"
  by (rule holds_bind)

lemma die_live: "tracked slots w \<Longrightarrow> die msg w = (r, w') \<Longrightarrow> isl r \<and> live (effects w') = {}"
  using live_positive [of _ "effects w"] by (auto simp: die_def kill_owned_eq tracked_def)

lemma holds_die [holds_rules]: "holds slots (die msg) slots'"
  by (rule holdsI) (auto dest: die_live split: sum.split)

lemma holds_ret_at: "slots' x = slots \<Longrightarrow> holds slots (ret x) slots'"
  by (rule holdsI) (auto simp: ret_def)

lemma holds_ret [holds_rules]: "holds slots (ret x) (\<lambda>_. slots)"
  by (rule holds_ret_at) simp

lemma holds_or_die [holds_rules]: "holds slots (or_die r) (\<lambda>_. slots)"
  by (cases r) (simp_all add: or_die_def holds_die holds_ret)

lemma holds_if [holds_rules]: "holds slots c s' \<Longrightarrow> holds slots d s' \<Longrightarrow> holds slots (if b then c else d) s'"
  by simp

lemma holds_option [holds_rules]:
  "holds slots c s' \<Longrightarrow> (\<And>y. holds slots (d y) s') \<Longrightarrow> holds slots (case x of None \<Rightarrow> c | Some y \<Rightarrow> d y) s'"
  by (cases x) auto

fun harmless :: "SnapEffect \<Rightarrow> bool" where
  "harmless (Spawn prog args pid) \<longleftrightarrow> False"
| "harmless _ \<longleftrightarrow> True"

lemma harmless_live: "harmless f \<Longrightarrow> live_step L f \<subseteq> L"
  by (cases f) auto

lemma tracked_emit: "harmless f \<Longrightarrow> tracked slots w \<Longrightarrow> tracked slots (push_effect f w)"
  using harmless_live [of f "live (effects w)"] by (auto simp: tracked_def push_effect_def)

lemma holds_effect [holds_rules]: "harmless f \<Longrightarrow> holds slots (effect f) (\<lambda>_. slots)"
  by (rule holdsI) (auto simp: effect_def tracked_emit)

lemma holds_flag_or [holds_rules]: "holds slots (flag_or flags name d) (\<lambda>_. slots)"
  unfolding flag_or_def by (intro holds_rules)

lemma holds_flag_number [holds_rules]: "holds slots (flag_number bits flags name d) (\<lambda>_. slots)"
  unfolding flag_number_def by (intro holds_rules)

lemma holds_make_dir [holds_rules]: "holds slots (make_dir env d) (\<lambda>_. slots)"
  unfolding make_dir_def by (intro holds_rules) simp

lemma holds_write_file [holds_rules]: "holds slots (write_file env what path data) (\<lambda>_. slots)"
  unfolding write_file_def by (intro holds_rules) simp

lemma holds_canonical [holds_rules]: "holds slots (canonical env p) (\<lambda>_. slots)"
  unfolding canonical_def by (intro holds_rules)

lemma holds_api [holds_rules]: "holds slots (api env sock meth path body) (\<lambda>_. slots)"
proof (rule holdsI)
  fix w r w' assume "tracked slots w" and run: "api env sock meth path body w = (r, w')"
  then have tr: "tracked slots (push_effect (Api sock meth path body) w)" by (simp add: tracked_emit)
  with run show "case r of Inl e \<Rightarrow> live (effects w') = {} | Inr x \<Rightarrow> tracked slots w'"
    by (auto simp: api_def Let_def split: sum.splits option.splits dest!: die_live [OF tr])
qed

lemma holds_probe_api [holds_rules]: "holds slots (probe_api env addr msg) (\<lambda>_. slots)"
proof (rule holdsI)
  fix w r w' assume "tracked slots w" and run: "probe_api env addr msg w = (r, w')"
  then have "tracked slots (push_effect (Probe addr) w)" by (simp add: tracked_emit)
  with run show "case r of Inl e \<Rightarrow> live (effects w') = {} | Inr x \<Rightarrow> tracked slots w'"
    by (auto simp: probe_api_def Let_def split: option.splits sum.splits dest: die_live)
qed

lemma holds_guard [holds_rules]: "holds slots (\<lambda>w. if b w then (Inr x, w) else die msg w) (\<lambda>_. slots)"
  by (rule holdsI) (auto split: if_splits sum.splits dest: die_live)

text \<open>A panic kills nothing: it leaves no VMM when the table is empty, and only then.\<close>

definition no_panic :: "int list \<Rightarrow> (nat \<Rightarrow> bool) \<Rightarrow> bool" where
  "no_panic slots ok \<longleftrightarrow> slots = no_vmms \<or> (\<forall>k. ok k)"

lemma no_panic_empty [simp]: "no_panic no_vmms ok"
  by (simp add: no_panic_def)

lemma holds_must: "no_panic slots ok \<Longrightarrow> holds slots (must ok msg) (\<lambda>_. slots)"
  using live_empty by (intro holdsI) (auto simp: must_def no_panic_def tracked_def split: if_splits)

lemma holds_println [holds_rules]:
  "no_panic slots (e_stdout env) \<Longrightarrow> holds slots (println env) (\<lambda>_. slots)"
  "no_panic slots (e_stderr env) \<Longrightarrow> holds slots (eprintln env) (\<lambda>_. slots)"
  "no_panic slots (e_thread env) \<Longrightarrow> holds slots (start_thread env) (\<lambda>_. slots)"
  "no_panic slots (e_clone env) \<Longrightarrow> holds slots (clone_fd env) (\<lambda>_. slots)"
  unfolding println_def eprintln_def start_thread_def clone_fd_def by (simp_all add: holds_must)

lemma holds_take_identity [holds_rules]:
  assumes "no_panic slots (e_stderr env)"
  shows "holds slots (\<lambda>w. take_identity env closure (vmm w) w) (\<lambda>_. slots)"
proof -
  have "holds slots (take_identity env closure v) (\<lambda>_. slots)" for v
    unfolding take_identity_def
    by (intro holds_bind_same holds_if holds_println holds_ret assms)
       (auto split: option.split prod.split intro: holds_ret holds_or_die)
  then show ?thesis by (simp add: holds_def)
qed

text \<open>A VMM enters the table right after it is spawned, and leaves it right after it is killed.\<close>

abbreviation one_vmm :: "int \<Rightarrow> int list" where
  "one_vmm pid \<equiv> pid # replicate 15 0"

lemma own_first: "own_vmm pid no_vmms = Some (one_vmm pid)"
  by (simp add: no_vmms_def OWNED_MAX_def cas_def numeral_eq_Suc)

lemma disown_first: "disown_vmm pid (one_vmm pid) = no_vmms"
  by (simp add: no_vmms_def OWNED_MAX_def disown_vmm_def cas_def numeral_eq_Suc)

lemma holds_spawn_own:
  assumes "\<And>pid. holds (one_vmm pid) (k pid) slots'"
  shows "holds no_vmms (bindc (spawn env prog args) (\<lambda>pid. bindc (own pid) (\<lambda>_. k pid))) slots'"
proof (rule holdsI)
  fix w r w' assume w: "tracked no_vmms w"
    and run: "bindc (spawn env prog args) (\<lambda>pid. bindc (own pid) (\<lambda>_. k pid)) w = (r, w')"
  show "case r of Inl e \<Rightarrow> live (effects w') = {} | Inr x \<Rightarrow> tracked (slots' x) w'"
  proof (cases "e_spawn env (clock_of w)")
    case None
    with run have "die (''spawn '' @ prog) w = (map_sum id undefined r, w') \<and> isl r"
      by (auto simp: bindc_def spawn_def die_def split: prod.splits)
    with die_live [OF w] show ?thesis by (auto split: sum.split)
  next
    case (Some pid)
    let ?w = "(push_effect (Spawn prog args pid) w)\<lparr>owned := one_vmm pid\<rparr>"
    have "k pid ?w = (r, w')"
      using run Some w by (simp add: bindc_def spawn_def own_def push_effect_def tracked_def own_first)
    moreover have "tracked (one_vmm pid) ?w"
      using w live_empty [of "effects w"] by (auto simp: tracked_def push_effect_def)
    ultimately show ?thesis using assms [of pid] by (simp add: holds_def)
  qed
qed

lemma holds_kill_disown:
  assumes "holds no_vmms k slots'"
  shows "holds (one_vmm pid) (bindc (effect (Kill pid)) (\<lambda>_. bindc (disown pid) (\<lambda>_. k))) slots'"
proof (rule holdsI)
  fix w r w' assume w: "tracked (one_vmm pid) w"
    and run: "bindc (effect (Kill pid)) (\<lambda>_. bindc (disown pid) (\<lambda>_. k)) w = (r, w')"
  let ?w = "(push_effect (Kill pid) w)\<lparr>owned := no_vmms\<rparr>"
  have "k ?w = (r, w')"
    using run w by (simp add: bindc_def effect_def disown_def push_effect_def tracked_def disown_first)
  moreover have "tracked no_vmms ?w" using w by (auto simp: tracked_def push_effect_def no_vmms_def OWNED_MAX_def)
  ultimately show "case r of Inl e \<Rightarrow> live (effects w') = {} | Inr x \<Rightarrow> tracked (slots' x) w'"
    using assms by (simp add: holds_def)
qed

lemma holds_seqc: "(\<And>c. c \<in> set cs \<Longrightarrow> holds slots c (\<lambda>_. slots)) \<Longrightarrow> holds slots (seqc cs) (\<lambda>_. slots)"
proof (induction cs)
  case Nil
  show ?case by (rule holdsI) auto
next
  case (Cons c cs)
  then have "holds slots (bindc c (\<lambda>_. seqc cs)) (\<lambda>_. slots)" by (intro holds_bind_same) auto
  then show ?case by (simp add: holds_def)
qed

text \<open>A signal at a point where the table names every live VMM leaves none alive.\<close>

lemma signal_live: "tracked slots w \<Longrightarrow> live (effects (snd (on_signal w))) = {}"
  using live_positive [of _ "effects w"] by (auto simp: on_signal_def kill_owned_eq tracked_def)

section \<open>The commands\<close>

lemma holds_gate [holds_rules]: "holds no_vmms (gate env flags snapshot firecracker) (\<lambda>_. no_vmms)"
  unfolding gate_def
  by (intro holds_rules) (auto split: prod.split intro!: holds_rules)

lemma holds_resume_flags [holds_rules]: "holds no_vmms (resume_flags env flags) (\<lambda>_. no_vmms)"
  unfolding resume_flags_def by (intro holds_rules)

lemma holds_resume_with: "\<forall>k. e_thread env k \<Longrightarrow> holds no_vmms (resume_with env a) one_vmm"
  unfolding resume_with_def resume_once_def load_snapshot_def
  by (rule holds_bind_same, rule holds_effect, simp, rule holds_bind_same, rule holds_write_file,
      rule holds_bind_same, rule holds_println, simp, rule holds_spawn_own)
     (auto intro!: holds_rules holds_ret_at simp: no_panic_def)

lemma holds_cycle_round:
  "\<forall>k. e_stdout env k \<and> e_thread env k \<Longrightarrow> holds no_vmms (cycle_round env a) (\<lambda>_. no_vmms)"
  unfolding cycle_round_def
  by (rule holds_bind [OF holds_resume_with], simp, rule holds_bind_same, rule holds_println, simp add: no_panic_def,
      rule holds_kill_disown, rule holds_effect) simp

lemma holds_median: "holds no_vmms (median_of n) (\<lambda>_. no_vmms)"
  by (rule holdsI) (auto simp: median_of_def tracked_def dest: live_empty split: sum.split if_splits)

lemma holds_cmd_cycle:
  "\<forall>k. e_stdout env k \<and> e_thread env k \<Longrightarrow> holds no_vmms (cmd_cycle env flags) (\<lambda>_. no_vmms)"
  unfolding cmd_cycle_def
  by (intro holds_bind_same holds_resume_flags holds_flag_number holds_seqc holds_median holds_println)
     (auto intro: holds_cycle_round split: if_splits)

text \<open>A resume up to the point where it gives the VMM away.\<close>

definition resume_report :: "SnapEnv \<Rightarrow> string list \<Rightarrow> int cmd" where
  "resume_report env flags =
     bindc (resume_flags env flags) (\<lambda>a.
     bindc (resume_with env a) (\<lambda>pid.
     bindc (println env) (\<lambda>_.
     bindc (eprintln env) (\<lambda>_.
     ret pid))))"

lemma holds_resume:
  assumes "\<forall>k. e_stdout env k \<and> e_stderr env k \<and> e_thread env k"
  shows "holds no_vmms (resume_report env flags) one_vmm"
proof -
  have "holds (one_vmm pid) (bindc (println env) (\<lambda>_. bindc (eprintln env) (\<lambda>_. ret pid))) one_vmm" for pid
    using assms by (intro holds_bind_same holds_println holds_ret_at) (auto simp: no_panic_def)
  with assms show ?thesis
    unfolding resume_report_def by (intro holds_bind_same [OF holds_resume_flags] holds_bind [OF holds_resume_with]) auto
qed

lemma holds_attached: "holds no_vmms (cmd_take_attached env flags) (\<lambda>_. no_vmms)"
  unfolding cmd_take_attached_def pause_vm_def create_snapshot_def by (intro holds_rules) simp_all

text \<open>The search for a marker that is not empty cannot panic.\<close>

lemma wait_marker_no_panic: "marker \<noteq> [] \<Longrightarrow> wait_marker timeout marker rounds \<noteq> Inl e"
  by (induction timeout marker rounds rule: wait_marker.induct) (auto split: option.splits)

lemma holds_marker:
  assumes "marker \<noteq> []"
  shows "holds slots (\<lambda>w. (case wait_marker wait_secs marker (e_marker env (clock_of w)) of
      Inl e \<Rightarrow> (Inl e, w) | Inr True \<Rightarrow> (Inr (), w) | Inr False \<Rightarrow> die msg w)) (\<lambda>_. slots)"
proof (rule holdsI)
  fix w r w' assume w: "tracked slots w"
    and run: "(case wait_marker wait_secs marker (e_marker env (clock_of w)) of
      Inl e \<Rightarrow> (Inl e, w) | Inr True \<Rightarrow> (Inr (), w) | Inr False \<Rightarrow> die msg w) = (r, w')"
  obtain b where "wait_marker wait_secs marker (e_marker env (clock_of w)) = Inr b"
    using wait_marker_no_panic [OF assms] by (metis sumE)
  with w run show "case r of Inl e \<Rightarrow> live (effects w') = {} | Inr x \<Rightarrow> tracked slots w'"
    by (cases b) (auto split: sum.split dest!: die_live [OF w])
qed

lemma holds_take_owned:
  "marker \<noteq> [] \<Longrightarrow> \<forall>k. e_stderr env k \<Longrightarrow>
     holds (one_vmm pid) (take_owned env runner out marker wait_secs pid) (\<lambda>_. no_vmms)"
  unfolding take_owned_def pause_vm_def create_snapshot_def
  by (intro holds_bind_same holds_marker holds_api holds_println holds_take_identity holds_write_file
      holds_kill_disown holds_effect) (simp_all add: no_panic_def)

lemma holds_flag:
  assumes "holds slots (k (flag_value flags name d)) slots'"
  shows "holds slots (bindc (flag_or flags name d) k) slots'"
proof (rule holdsI)
  fix w r w' assume w: "tracked slots w" and run: "bindc (flag_or flags name d) k w = (r, w')"
  obtain q w1 where m: "flag_or flags name d w = (q, w1)" by (cases "flag_or flags name d w")
  show "case r of Inl e \<Rightarrow> live (effects w') = {} | Inr x \<Rightarrow> tracked (slots' x) w'"
  proof (cases q)
    case (Inl e)
    with m run holds_Inl [OF holds_flag_or w] show ?thesis by (auto simp: bindc_def)
  next
    case (Inr x)
    with m run have "k (flag_value flags name d) w1 = (r, w')" using flag_or_value [of flags name d w x w1] by (simp add: bindc_def)
    moreover have "tracked slots w1" using holds_Inr [OF holds_flag_or w] m Inr by blast
    ultimately show ?thesis using assms by (simp add: holds_def)
  qed
qed

lemma holds_cmd_take:
  assumes "flag_value flags ''--marker'' ''KUBENYX-CLUSTER-READY'' \<noteq> []" "\<forall>k. e_stderr env k"
  shows "holds no_vmms (cmd_take env flags) (\<lambda>_. no_vmms)"
  unfolding cmd_take_def
proof (rule holds_bind_same [OF holds_or_die], rule holds_option [OF holds_attached])
  fix r runner
  have own: "holds no_vmms (bindc (spawn env runner []) (\<lambda>pid. bindc (own pid) (\<lambda>_.
      bindc (take_owned env runner out (flag_value flags ''--marker'' ''KUBENYX-CLUSTER-READY'') wait_secs pid)
        (\<lambda>_. bindc (println env) (\<lambda>_. ret out))))) (\<lambda>_. no_vmms)" for out wait_secs
    by (rule holds_spawn_own, rule holds_bind [OF holds_take_owned [OF assms]]) (intro holds_rules, simp)
  show "holds no_vmms (bindc (flag_or flags ''--out'' ''snapshot'') (\<lambda>out0.
     bindc (flag_or flags ''--marker'' ''KUBENYX-CLUSTER-READY'') (\<lambda>marker.
     bindc (flag_number 64 flags ''--wait-secs'' 120) (\<lambda>wait_secs.
     bindc (flag_number 64 flags ''--settle-ms'' 2000) (\<lambda>_.
     bindc (make_dir env out0) (\<lambda>_.
     bindc (canonical env out0) (\<lambda>out.
     bindc (effect (Remove ''kubenyx.sock'')) (\<lambda>_.
     bindc (write_file env ''create console log'' (path_join out ''take-console.log'') []) (\<lambda>_.
     bindc (clone_fd env) (\<lambda>_.
     bindc (spawn env runner []) (\<lambda>pid.
     bindc (own pid) (\<lambda>_.
     bindc (take_owned env runner out marker wait_secs pid) (\<lambda>_.
     bindc (println env) (\<lambda>_.
     ret out)))))))))))))) (\<lambda>_. no_vmms)"
    by (rule holds_flag, rule holds_flag)
       (intro holds_bind_same holds_flag_number holds_make_dir holds_canonical holds_write_file holds_println own
          holds_effect, simp_all)
qed

lemma tracked_start: "tracked no_vmms snap_start"
  by (simp add: tracked_def snap_start_def)

lemma holds_start:
  assumes "holds no_vmms c (\<lambda>_. no_vmms)"
  shows "live (effects (snd (c snap_start))) = {}"
proof -
  obtain r w where c: "c snap_start = (r, w)" by (cases "c snap_start")
  with holds_Inl [OF assms tracked_start] holds_Inr [OF assms tracked_start] show ?thesis
    by (cases r) (auto simp: tracked_def dest: live_empty)
qed

lemma resume_leaves:
  assumes "\<forall>k. e_stdout env k \<and> e_stderr env k \<and> e_thread env k"
  shows "case fst (cmd_resume env flags snap_start) of
      Inl e \<Rightarrow> live (effects (snd (cmd_resume env flags snap_start))) = {}
    | Inr pid \<Rightarrow> live (effects (snd (cmd_resume env flags snap_start))) \<subseteq> {pid}"
proof -
  let ?m = "resume_report env flags"
  have shape: "cmd_resume env flags = bindc ?m (\<lambda>pid. bindc (disown pid) (\<lambda>_. ret pid))"
    by (simp add: cmd_resume_def resume_report_def bindc_assoc bindc_ret)
  obtain r w where m: "?m snap_start = (r, w)" by (cases "?m snap_start")
  show ?thesis
  proof (cases r)
    case (Inl e)
    with m holds_Inl [OF holds_resume [OF assms] tracked_start] show ?thesis by (auto simp: shape bindc_def [of ?m])
  next
    case (Inr pid)
    then have "live (effects w) \<subseteq> {pid, 0}"
      using holds_Inr [OF holds_resume [OF assms] tracked_start] m by (simp add: tracked_def)
    then have "live (effects w) \<subseteq> {pid}" using live_positive [of 0 "effects w"] by auto
    with m Inr show ?thesis by (simp add: shape bindc_def disown_def ret_def)
  qed
qed


definition demo_args :: ResumeArgs where
  "demo_args = \<lparr>ra_firecracker = ''firecracker'', ra_snapshot = ''snapshot'', ra_sock = ''kubenyx-resume.sock'',
     ra_probe = ''10.100.0.2:6443'', ra_poke = ''10.100.0.2:10123'', ra_pci = True\<rparr>"

lemma demo_gate: "gate (demo_host\<lparr>e_stdout := out\<rparr>) [] snapshot firecracker w = (Inr (), w)"
  by (simp add: gate_def enforce_identity_def read_snapshot_identity_def demo_facts flag_has_def eprintln_def must_def
      bindc_def or_die_def ret_def)

lemma demo_resume_flags: "resume_flags (demo_host\<lparr>e_stdout := out\<rparr>) [] w = (Inr demo_args, w)"
  by (simp add: resume_flags_def demo_facts demo_flag_or demo_gate demo_args_def flag_has_def bindc_def ret_def)

definition demo_resumed :: SnapWorld where
  "demo_resumed = \<lparr>effects =
     [Remove ''kubenyx-resume.sock'', WriteFile ''resume-console.log'' [],
      Spawn ''firecracker'' [''--api-sock'', ''kubenyx-resume.sock'', ''--enable-pci''] 102,
      Api ''kubenyx-resume.sock'' ''PUT'' ''/snapshot/load'' (load_body ''snapshot''),
      Poke ''10.100.0.2:10123'', Probe ''10.100.0.2:6443''], owned = one_vmm 102, children = []\<rparr>"

lemma stdout_unused:
  "api (env\<lparr>e_stdout := out\<rparr>) = api env" "probe_api (env\<lparr>e_stdout := out\<rparr>) = probe_api env"
  "write_file (env\<lparr>e_stdout := out\<rparr>) = write_file env" "spawn (env\<lparr>e_stdout := out\<rparr>) = spawn env"
  "clone_fd (env\<lparr>e_stdout := out\<rparr>) = clone_fd env" "start_thread (env\<lparr>e_stdout := out\<rparr>) = start_thread env"
  by (simp_all add: fun_eq_iff api_def probe_api_def write_file_def spawn_def clone_fd_def start_thread_def)

lemma demo_resume_with: "resume_with (demo_host\<lparr>e_stdout := out\<rparr>) demo_args snap_start = (Inr 102, demo_resumed)"
  by (simp add: resume_with_def resume_once_def stdout_unused demo_run demo_facts own_def own_first demo_args_def spawn_args_def)
     (simp add: demo_resumed_def push_effect_def snap_start_def)

lemma demo_resume: "fst (cmd_resume demo_host [] snap_start) = Inr 102"
  using demo_resume_flags [of "e_stdout demo_host"] demo_resume_with [of "e_stdout demo_host"]
  by (simp add: cmd_resume_def bindc_def demo_panics_not disown_def ret_def)


text \<open>When the line that reports the VMM cannot be printed, the panic leaves the VMM running: it is still in the
  table, which nothing sweeps.\<close>

lemma closed_stdout_leaks:
  "live (effects (snd (cmd_resume (demo_host\<lparr>e_stdout := \<lambda>_. False\<rparr>) [] snap_start))) = {102}"
  by (simp add: cmd_resume_def bindc_def demo_resume_flags demo_resume_with println_def must_def)
     (simp add: demo_resumed_def live_def)

text \<open>A signal between the spawn and the entry into the table leaves the VMM too.\<close>

lemma signal_before_own_leaks:
  "live (effects (snd (on_signal (snd (spawn demo_host ''firecracker'' [] snap_start))))) = {100}"
  by (simp add: demo_spawn demo_clock on_signal_def kill_owned_eq live_def no_vmms_def)

text \<open>With an empty marker the search for it panics, which unwinds past the table of owned VMMs: the VM stays.\<close>

lemma empty_marker_leaks:
  "live (effects (snd (cmd_take demo_host [''--runner'', ''/run/vm'', ''--marker'', []] snap_start))) = {103}"
proof -
  have "wait_marker 120 [] (e_marker demo_host k) = Inl ''window size must be non-zero''" for k
    by (simp add: demo_host_def)
  then show ?thesis
    by (simp add: cmd_take_def demo_run flag_or_def flag_number_def own_def own_first take_owned_def)
       (simp add: live_def clock_of_def push_effect_def snap_start_def)
qed

text \<open>In a mesh resume a VMM is spawned and entered into the table in two steps of its thread. Between the
  two, the table does not name it: a thread that dies then leaves the other's VMM running.\<close>

lemma mesh_resume_race:
  "live (effects (snd (mesh_resume_once (demo_host\<lparr>e_sock := \<lambda>_. False\<rparr>) [0, 0, 0, 1, 1, 1, 0, 0] demo_nodes
     ''snap'' ''firecracker'' True snap_start))) = {105}"
  by (simp add: mesh_resume_once_def bindc_def resume_thread_def Let_def demo_nodes_def effect_def write_file_def
      spawn_child_def spawn_def own_child_def own_def push_effect_def clock_of_def die_def demo_host_def snap_start_def
      own_first kill_owned_eq live_def) auto

end
