(* ===== verification/Pki_Tar.thy ===== *)
theory Pki_Tar
  imports Rust_Str "HOL-Library.Monad_Syntax"
begin

text \<open>
  The CA bundle handoff of \<open>kubenyx-pki/src/lib.rs\<close>: the hand-written ustar archive (\<open>tar_header\<close>,
  \<open>tar_bundle\<close>) and the accept loop that serves it. \<open>parse_tar\<close> is the specification of the archive: a
  reader with the checks of the one in the crate's tests, which returns the contents as well.
\<close>

section \<open>The writer\<close>

definition CUSTODY_FILES :: "string list" where
  "CUSTODY_FILES =
     [''ca.crt'', ''ca.key'', ''front-proxy-ca.crt'', ''front-proxy-ca.key'', ''sa.key'', ''sa.pub'']"

text \<open>
  \<open>h[i..j].copy_from_slice(src)\<close>: it panics (\<^const>\<open>None\<close>) when the range is outside the array or
  when the lengths differ. \<open>format!("{n:0wo}")\<close> is at least \<open>w\<close> octal digits.
\<close>

definition copy_slice :: "nat \<Rightarrow> nat \<Rightarrow> bytes \<Rightarrow> bytes \<Rightarrow> bytes option" where
  "copy_slice i j src h =
     (if i \<le> j \<and> j \<le> length h \<and> length src = j - i then Some (take i h @ src @ drop j h) else None)"

definition octal :: "nat \<Rightarrow> nat \<Rightarrow> string" where
  "octal width n = (let s = show_base 8 n in replicate (width - length s) (CHR ''0'') @ s)"

definition byte_sum :: "bytes \<Rightarrow> nat" where
  "byte_sum h = sum_list (map unat h)"

definition tar_header :: "string \<Rightarrow> nat \<Rightarrow> bytes option" where
  "tar_header name sz = do {
     h \<leftarrow> copy_slice 0 (length name) (bytes_of name) (replicate 512 0);
     h \<leftarrow> copy_slice 100 108 (bytes_of ''0000600'' @ [0]) h;
     h \<leftarrow> copy_slice 108 116 (bytes_of ''0000000'' @ [0]) h;
     h \<leftarrow> copy_slice 116 124 (bytes_of ''0000000'' @ [0]) h;
     h \<leftarrow> copy_slice 124 136 (bytes_of (octal 11 sz) @ [0]) h;
     h \<leftarrow> copy_slice 136 148 (bytes_of ''00000000000'' @ [0]) h;
     h \<leftarrow> copy_slice 156 157 (bytes_of ''0'') h;
     h \<leftarrow> copy_slice 257 263 (bytes_of ''ustar'' @ [0]) h;
     h \<leftarrow> copy_slice 263 265 (bytes_of ''00'') h;
     h \<leftarrow> copy_slice 148 156 (bytes_of ''        '') h;
     let sum = byte_sum h;
     h \<leftarrow> copy_slice 148 155 (bytes_of (octal 6 sum) @ [0]) h;
     copy_slice 155 156 (bytes_of '' '') h
   }"

definition next_multiple_of :: "nat \<Rightarrow> nat \<Rightarrow> nat" where
  "next_multiple_of n m = (n + m - 1) div m * m"

text \<open>
  The loop of \<open>tar_bundle\<close>: each file is read, its header and contents appended, and the stream
  padded to a block boundary. \<open>dir\<close> gives the contents of a file; a file that cannot be read ends
  the program with a message, and so does the panic of an oversized header.
\<close>

datatype TarError = ReadFailed string | HeaderPanic

definition tar_append :: "bytes \<Rightarrow> string \<Rightarrow> bytes \<Rightarrow> bytes option" where
  "tar_append out f data = do {
     h \<leftarrow> tar_header f (length data);
     let out = out @ h @ data;
     Some (out @ replicate (next_multiple_of (length out) 512 - length out) 0)
   }"

fun tar_files :: "(string \<rightharpoonup> bytes) \<Rightarrow> bytes \<Rightarrow> string list \<Rightarrow> TarError + bytes" where
  "tar_files dir out [] = Inr out"
| "tar_files dir out (f # fs) =
     (case dir f of
        None \<Rightarrow> Inl (ReadFailed f)
      | Some data \<Rightarrow>
          (case tar_append out f data of
             None \<Rightarrow> Inl HeaderPanic
           | Some out' \<Rightarrow> tar_files dir out' fs))"

definition tar_bundle :: "(string \<rightharpoonup> bytes) \<Rightarrow> TarError + bytes" where
  "tar_bundle dir = map_sum id (\<lambda>out. out @ replicate 1024 0) (tar_files dir [] CUSTODY_FILES)"

section \<open>The accept loop\<close>

text \<open>
  A connection is what the peer and the socket do: the results of the successive \<open>read\<close>s and whether
  each of the three sends succeeds. A read past the end of the list is the five-second timeout. The
  result is what was sent completely and whether the transfer is an \<open>Ok(())\<close>.
\<close>

datatype Read = ReadOk bytes | ReadErr

record Conn =
  timeout_set :: bool
  reads :: "Read list"
  head_ok :: bool
  body_ok :: bool
  shutdown_ok :: bool

definition windows :: "nat \<Rightarrow> 'a list \<Rightarrow> 'a list list" where
  "windows n xs = map (\<lambda>i. take n (drop i xs)) [0..<Suc (length xs) - n]"

definition CRLF :: bytes where
  "CRLF = [13, 10]"

definition request_complete :: "bytes \<Rightarrow> bool" where
  "request_complete req \<longleftrightarrow> list_ex (\<lambda>w. w = CRLF @ CRLF) (windows 4 req) \<or> 8192 < length req"

fun drain_request :: "bytes \<Rightarrow> Read list \<Rightarrow> Read list" where
  "drain_request req [] = []"
| "drain_request req (ReadErr # rs) = rs"
| "drain_request req (ReadOk b # rs) =
     (if b = [] then rs
      else if request_complete (req @ b) then rs
      else drain_request (req @ b) rs)"

fun wait_eof :: "Read list \<Rightarrow> bool" where
  "wait_eof [] = False"
| "wait_eof (ReadErr # rs) = False"
| "wait_eof (ReadOk b # rs) = (b = [] \<or> wait_eof rs)"

definition response_head :: bytes where
  "response_head = bytes_of ''HTTP/1.0 200 OK'' @ CRLF @ bytes_of ''Content-Type: application/x-tar''
     @ CRLF @ bytes_of ''Connection: close'' @ CRLF @ CRLF"

definition serve_conn :: "Conn \<Rightarrow> bytes \<Rightarrow> bytes \<times> bool" where
  "serve_conn s payload =
     (if \<not> timeout_set s then ([], False)
      else let rest = drain_request [] (reads s)
           in if \<not> head_ok s then ([], False)
              else if \<not> body_ok s then (response_head, False)
              else (response_head @ payload, shutdown_ok s \<and> wait_eof rest))"

text \<open>
  One entry per turn: a failed accept, or a connection. The result is the number of completed
  transfers, the turns not taken, and whether the loop has returned.
\<close>

datatype Turn = AcceptError | Accepted Conn

fun serve_loop :: "bytes \<Rightarrow> nat option \<Rightarrow> nat \<Rightarrow> Turn list \<Rightarrow> nat \<times> Turn list \<times> bool" where
  "serve_loop payload cnt n [] = (n, [], False)"
| "serve_loop payload cnt n (AcceptError # ts) = serve_loop payload cnt n ts"
| "serve_loop payload cnt n (Accepted c # ts) =
     (let n' = (if snd (serve_conn c payload) then n + 1 else n)
      in if (case cnt of None \<Rightarrow> False | Some k \<Rightarrow> k \<le> n') then (n', ts, True)
         else serve_loop payload cnt n' ts)"

section \<open>A reader\<close>

fun parse_octal :: "nat \<Rightarrow> bytes \<Rightarrow> nat option" where
  "parse_octal acc [] = Some acc"
| "parse_octal acc (b # bs) =
     (if 48 \<le> unat b \<and> unat b \<le> 55 then parse_octal (8 * acc + (unat b - 48)) bs else None)"

definition header_ok :: "bytes \<Rightarrow> bool" where
  "header_ok h \<longleftrightarrow>
     take 6 (drop 257 h) = bytes_of ''ustar'' @ [0]
     \<and> parse_octal 0 (take 6 (drop 148 h)) =
         Some (byte_sum (take 148 h @ replicate 8 32 @ drop 156 h))"

function parse_tar :: "bytes \<Rightarrow> (bytes \<times> bytes) list option" where
  "parse_tar p =
     (if length p < 512 then None
      else if \<forall>b \<in> set (take 512 p). b = 0 then
        (if length p = 1024 \<and> (\<forall>b \<in> set p. b = 0) then Some [] else None)
      else if \<not> header_ok (take 512 p) then None
      else case parse_octal 0 (take 11 (drop 124 p)) of
             None \<Rightarrow> None
           | Some sz \<Rightarrow>
               map_option (Cons (takeWhile (\<lambda>b. b \<noteq> 0) p, take sz (drop 512 p)))
                 (parse_tar (drop (512 + next_multiple_of sz 512) p)))"
  by pat_completeness auto
termination by (relation "measure length") auto

declare parse_tar.simps [simp del]

section \<open>The header, field by field\<close>

lemma copy_slice_here:
  "length a = i \<Longrightarrow> length src = length b \<Longrightarrow> j = i + length b \<Longrightarrow>
     copy_slice i j src (a @ b @ c) = Some (a @ src @ c)"
  by (simp add: copy_slice_def)

lemma copy_slice_zeros:
  assumes "length a \<le> i" "j = i + length src" "j \<le> length a + k"
  shows "copy_slice i j src (a @ replicate k 0) =
    Some ((a @ replicate (i - length a) 0 @ src) @ replicate (length a + k - j) 0)"
  using assms by (simp add: copy_slice_def)

lemma show_base_8_length: "n < 8 ^ k \<Longrightarrow> 0 < k \<Longrightarrow> length (show_base 8 n) \<le> k"
proof (induction k arbitrary: n)
  case (Suc k)
  show ?case
  proof (cases "n < 8")
    case True
    then show ?thesis by (subst show_base.simps) simp
  next
    case False
    with Suc.prems have "n div 8 < 8 ^ k" by (simp add: less_mult_imp_div_less)
    moreover have "0 < k" using False Suc.prems by (cases k) auto
    ultimately have "length (show_base 8 (n div 8)) \<le> k" by (rule Suc.IH)
    with False show ?thesis by (subst show_base.simps) simp
  qed
qed simp

lemma octal_length: "n < 8 ^ w \<Longrightarrow> 0 < w \<Longrightarrow> length (octal w n) = w"
  using show_base_8_length [of n w] by (simp add: octal_def Let_def)

lemma parse_octal_append:
  "parse_octal acc (a @ b) = (case parse_octal acc a of None \<Rightarrow> None | Some n \<Rightarrow> parse_octal n b)"
  by (induction acc a rule: parse_octal.induct) auto

lemma unat_digit_byte: "d < 8 \<Longrightarrow> unat (word_of_nat (of_char (digit_char d)) :: 8 word) = 48 + d"
  by (simp only: unat_byte_of_char) (simp add: digit_char_def)

lemma parse_octal_digit:
  "d < 8 \<Longrightarrow> parse_octal acc (bytes_of [digit_char d]) = Some (8 * acc + d)"
  using unat_digit_byte [of d] by (simp add: bytes_of_def)

lemma bytes_of_append: "bytes_of (a @ b) = bytes_of a @ bytes_of b"
  by (simp add: bytes_of_def)

lemma parse_octal_show: "parse_octal 0 (bytes_of (show_base 8 n)) = Some n"
proof (induction n rule: less_induct)
  case (less n)
  show ?case
  proof (cases "n < 8")
    case True
    then show ?thesis by (subst show_base.simps) (simp add: parse_octal_digit del: parse_octal.simps)
  next
    case False
    then have "parse_octal 0 (bytes_of (show_base 8 (n div 8))) = Some (n div 8)" by (intro less.IH) simp
    with False show ?thesis
      by (subst show_base.simps)
         (simp add: bytes_of_append parse_octal_append parse_octal_digit del: parse_octal.simps)
  qed
qed

lemma parse_octal_zeros: "parse_octal 0 (bytes_of (replicate k (CHR ''0''))) = Some 0"
  by (induction k) (simp_all add: bytes_of_def)

lemma parse_octal_octal: "parse_octal 0 (bytes_of (octal w n)) = Some n"
  by (simp add: octal_def Let_def bytes_of_append parse_octal_append parse_octal_zeros parse_octal_show)

text \<open>The archive header as the concatenation of its fields, with the check sum in its place.\<close>

definition header_front :: "string \<Rightarrow> nat \<Rightarrow> bytes" where
  "header_front name sz =
     bytes_of name @ replicate (100 - length name) 0 @ bytes_of ''0000600'' @ [0]
     @ bytes_of ''0000000'' @ [0] @ bytes_of ''0000000'' @ [0] @ bytes_of (octal 11 sz) @ [0]
     @ bytes_of ''00000000000'' @ [0]"

definition header_back :: bytes where
  "header_back = bytes_of ''0'' @ replicate 100 0 @ bytes_of ''ustar'' @ [0] @ bytes_of ''00''
     @ replicate 247 0"

definition header_check :: "string \<Rightarrow> nat \<Rightarrow> nat" where
  "header_check name sz = byte_sum (header_front name sz @ replicate 8 32 @ header_back)"

lemma header_lengths:
  assumes "length name \<le> 100" "sz < 8 ^ 11"
  shows "length (header_front name sz) = 148" "length header_back = 356"
  using assms octal_length [of sz 11] by (simp_all add: header_front_def header_back_def)

lemma byte_sum_bound: "byte_sum h \<le> 255 * length h"
proof (induction h)
  case (Cons b h)
  have "unat b < 2 ^ LENGTH(8)" by (rule unsigned_less)
  then have "unat b \<le> 255" by simp
  with Cons show ?case by (simp add: byte_sum_def)
qed (simp add: byte_sum_def)

lemma header_check_bound:
  "length name \<le> 100 \<Longrightarrow> sz < 8 ^ 11 \<Longrightarrow> header_check name sz < 8 ^ 6"
  using byte_sum_bound [of "header_front name sz @ replicate 8 32 @ header_back"]
  by (simp add: header_check_def header_lengths)

definition header_bytes :: "string \<Rightarrow> nat \<Rightarrow> bytes" where
  "header_bytes name sz =
     header_front name sz @ bytes_of (octal 6 (header_check name sz)) @ [0, 32] @ header_back"

lemma checksum_field:
  assumes a: "length a = 148" and o: "length (octal 6 (byte_sum (a @ replicate 8 32 @ b))) = 6"
  shows "do { h \<leftarrow> copy_slice 148 156 (bytes_of ''        '') (a @ replicate 8 0 @ b);
              let sum = byte_sum h;
              h \<leftarrow> copy_slice 148 155 (bytes_of (octal 6 sum) @ [0]) h;
              copy_slice 155 156 (bytes_of '' '') h }
     = Some (a @ bytes_of (octal 6 (byte_sum (a @ replicate 8 32 @ b))) @ [0, 32] @ b)"
proof -
  let ?o = "bytes_of (octal 6 (byte_sum (a @ replicate 8 32 @ b))) @ [0]"
  have spaces: "bytes_of ''        '' = replicate 8 32" by (simp add: bytes_of_def numeral_eq_Suc)
  have "copy_slice 148 156 (replicate 8 32) (a @ replicate 8 0 @ b) = Some (a @ replicate 8 32 @ b)"
    using a by (intro copy_slice_here) simp_all
  moreover have "copy_slice 148 155 ?o (a @ replicate 8 32 @ b) = Some (a @ ?o @ 32 # b)"
    using copy_slice_here [of a 148 ?o "replicate 7 32" 155 "32 # b"] a o by (simp add: numeral_eq_Suc)
  moreover have "copy_slice 155 156 (bytes_of '' '') (a @ ?o @ 32 # b) = Some (a @ ?o @ 32 # b)"
    using a o by (simp add: copy_slice_def bytes_of_def)
  ultimately show ?thesis by (simp only: spaces bind.bind_lunit Let_def) simp
qed

lemma tar_header_bytes:
  assumes n: "length name \<le> 100" and s: "sz < 8 ^ 11"
  shows "tar_header name sz = Some (header_bytes name sz)"
proof -
  define p1 where "p1 = bytes_of name @ replicate (100 - length name) 0 @ bytes_of ''0000600'' @ [0]"
  define p2 where "p2 = p1 @ bytes_of ''0000000'' @ [0]"
  define p3 where "p3 = p2 @ bytes_of ''0000000'' @ [0]"
  define p4 where "p4 = p3 @ bytes_of (octal 11 sz) @ [0]"
  define p5 where "p5 = p4 @ bytes_of ''00000000000'' @ [0]"
  define p6 where "p6 = p5 @ replicate 8 0 @ bytes_of ''0''"
  define p7 where "p7 = p6 @ replicate 100 0 @ bytes_of ''ustar'' @ [0]"
  define p8 where "p8 = p7 @ bytes_of ''00''"
  have o11: "length (octal 11 sz) = 11" using octal_length [OF s] by simp
  have o6: "length (octal 6 (header_check name sz)) = 6"
    using octal_length [OF header_check_bound [OF n s]] by simp
  have l: "length p1 = 108" "length p2 = 116" "length p3 = 124" "length p4 = 136" "length p5 = 148"
    "length p6 = 157" "length p7 = 263" "length p8 = 265"
    using n o11 by (simp_all add: p1_def p2_def p3_def p4_def p5_def p6_def p7_def p8_def)
  have front: "p5 = header_front name sz"
    by (simp add: header_front_def p1_def p2_def p3_def p4_def p5_def)
  have sum: "byte_sum (p5 @ replicate 8 32 @ header_back) = header_check name sz"
    by (simp add: front header_check_def)
  have whole: "p8 @ replicate 247 0 = p5 @ replicate 8 0 @ header_back"
    by (simp add: p6_def p7_def p8_def header_back_def)
  have c0: "copy_slice 0 (length name) (bytes_of name) (replicate 512 0)
      = Some (bytes_of name @ replicate (512 - length name) 0)"
    using n copy_slice_zeros [of "[]" 0 "length name" "bytes_of name" 512] by simp
  have c1: "copy_slice 100 108 (bytes_of ''0000600'' @ [0]) (bytes_of name @ replicate (512 - length name) 0)
      = Some (p1 @ replicate 404 0)"
    using n copy_slice_zeros [of "bytes_of name" 100 108 "bytes_of ''0000600'' @ [0]" "512 - length name"]
    by (simp add: p1_def)
  have c2: "copy_slice 108 116 (bytes_of ''0000000'' @ [0]) (p1 @ replicate 404 0) = Some (p2 @ replicate 396 0)"
    and c3: "copy_slice 116 124 (bytes_of ''0000000'' @ [0]) (p2 @ replicate 396 0) = Some (p3 @ replicate 388 0)"
    and c4: "copy_slice 124 136 (bytes_of (octal 11 sz) @ [0]) (p3 @ replicate 388 0) = Some (p4 @ replicate 376 0)"
    and c5: "copy_slice 136 148 (bytes_of ''00000000000'' @ [0]) (p4 @ replicate 376 0) = Some (p5 @ replicate 364 0)"
    using l o11 by (simp_all add: copy_slice_zeros) (simp_all add: p2_def p3_def p4_def p5_def)
  have c6: "copy_slice 156 157 (bytes_of ''0'') (p5 @ replicate 364 0) = Some (p6 @ replicate 355 0)"
    and c7: "copy_slice 257 263 (bytes_of ''ustar'' @ [0]) (p6 @ replicate 355 0) = Some (p7 @ replicate 249 0)"
    and c8: "copy_slice 263 265 (bytes_of ''00'') (p7 @ replicate 249 0) = Some (p8 @ replicate 247 0)"
    using l by (simp_all add: copy_slice_zeros) (simp_all add: p6_def p7_def p8_def)
  note check = checksum_field [OF l(5), of header_back, unfolded sum, OF o6]
  show ?thesis
    unfolding tar_header_def header_bytes_def front [symmetric]
    using check by (simp only: c0 c1 c2 c3 c4 c5 c6 c7 c8 whole bind.bind_lunit)
qed

section \<open>Round trip\<close>

definition tar_entry :: "string \<Rightarrow> bytes \<Rightarrow> bytes" where
  "tar_entry f data = header_bytes f (length data) @ data
     @ replicate (next_multiple_of (length data) 512 - length data) 0"

lemma next_multiple_ge: "n \<le> next_multiple_of n 512"
  using div_mult_mod_eq [of "n + 511" 512] mod_less_divisor [of 512 "n + 511"]
  by (simp add: next_multiple_of_def)

lemma next_multiple_mod: "next_multiple_of n m mod m = 0"
  by (simp add: next_multiple_of_def)

lemma next_multiple_shift: "k mod 512 = 0 \<Longrightarrow> next_multiple_of (k + n) 512 = k + next_multiple_of n 512"
proof -
  assume "k mod 512 = 0"
  then obtain q where "k = 512 * q" by auto
  then have "(k + n + 511) div 512 = q + (n + 511) div 512"
    using div_mult_self1 [of 512 "n + 511" q] by (simp add: add.assoc)
  with \<open>k = 512 * q\<close> show ?thesis by (simp add: next_multiple_of_def algebra_simps)
qed

lemma length_header_bytes:
  "length name \<le> 100 \<Longrightarrow> sz < 8 ^ 11 \<Longrightarrow> length (header_bytes name sz) = 512"
  using octal_length [OF header_check_bound] by (simp add: header_bytes_def header_lengths)

lemma length_tar_entry:
  "length f \<le> 100 \<Longrightarrow> length data < 8 ^ 11 \<Longrightarrow>
     length (tar_entry f data) = 512 + next_multiple_of (length data) 512"
  using next_multiple_ge [of "length data"] by (simp add: tar_entry_def length_header_bytes)

lemma tar_append_entry:
  assumes "length f \<le> 100" "length data < 8 ^ 11" "length out mod 512 = 0"
  shows "tar_append out f data = Some (out @ tar_entry f data)"
proof -
  have "(length out + 512) mod 512 = 0" using assms(3) by simp
  from next_multiple_shift [OF this, of "length data"]
  have "next_multiple_of (length out + (512 + length data)) 512
      - (length out + (512 + length data)) = next_multiple_of (length data) 512 - length data"
    by (simp add: add.assoc)
  then show ?thesis
    using assms by (simp add: tar_append_def tar_header_bytes length_header_bytes tar_entry_def Let_def)
qed

lemma tar_files_entries:
  assumes "\<forall>f \<in> set fs. length f \<le> 100 \<and> (\<exists>d. dir f = Some d \<and> length d < 8 ^ 11)"
    and "length out mod 512 = 0"
  shows "tar_files dir out fs = Inr (out @ concat (map (\<lambda>f. tar_entry f (the (dir f))) fs))"
  using assms
proof (induction fs arbitrary: out)
  case (Cons f fs)
  then obtain d where d: "dir f = Some d" "length d < 8 ^ 11" "length f \<le> 100" by auto
  have "length (out @ tar_entry f d) mod 512 = 0"
    using Cons.prems(2) d next_multiple_mod [of "length d" 512]
    by (simp add: length_tar_entry mod_add_eq [symmetric])
  with Cons.IH [of "out @ tar_entry f d"] Cons.prems d show ?case
    by (simp add: tar_append_entry)
qed simp

lemma tar_files_missing:
  "dir f = None \<Longrightarrow> f \<in> set fs \<Longrightarrow> \<exists>e. tar_files dir out fs = Inl e"
  by (induction fs arbitrary: out) (auto split: option.splits)

lemma header_bytes_ok:
  assumes n: "length name \<le> 100" and s: "sz < 8 ^ 11"
  shows "header_ok (header_bytes name sz)"
proof -
  have l: "length (header_front name sz) = 148" "length (octal 6 (header_check name sz)) = 6"
    using header_lengths [OF n s] octal_length [OF header_check_bound [OF n s]] by simp_all
  have "take 148 (header_bytes name sz) = header_front name sz"
    "drop 156 (header_bytes name sz) = header_back"
    "take 6 (drop 148 (header_bytes name sz)) = bytes_of (octal 6 (header_check name sz))"
    "drop 257 (header_bytes name sz) = drop 101 header_back"
    using l by (simp_all add: header_bytes_def)
  then show ?thesis
    by (simp add: header_ok_def parse_octal_octal header_check_def header_back_def)
qed

lemma header_bytes_name:
  assumes "length name < 100" "0 \<notin> set (bytes_of name)"
  shows "takeWhile (\<lambda>b. b \<noteq> 0) (header_bytes name sz @ rest) = bytes_of name"
proof -
  obtain k where "100 - length name = Suc k" using assms(1) by (cases "100 - length name") auto
  then have "\<exists>tail. header_bytes name sz @ rest = bytes_of name @ 0 # tail"
    by (simp add: header_bytes_def header_front_def)
  then obtain tail where eq: "header_bytes name sz @ rest = bytes_of name @ 0 # tail" ..
  from assms(2) have "\<forall>b \<in> set (bytes_of name). b \<noteq> 0" by metis
  then show ?thesis unfolding eq by (simp add: takeWhile_append2)
qed

lemma header_bytes_size:
  assumes n: "length name \<le> 100" and s: "sz < 8 ^ 11"
  shows "take 11 (drop 124 (header_bytes name sz @ rest)) = bytes_of (octal 11 sz)"
  using n octal_length [OF s] by (simp add: header_bytes_def header_front_def)

lemma header_bytes_nonzero: "\<exists>b \<in> set (header_bytes name sz). b \<noteq> 0"
  by (rule bexI [of _ 54]) (simp_all add: header_bytes_def header_front_def bytes_of_def)

lemma parse_tar_entry:
  assumes n: "length f < 100" "0 \<notin> set (bytes_of f)" and d: "length d < 8 ^ 11"
  shows "parse_tar (tar_entry f d @ rest) = map_option (Cons (bytes_of f, d)) (parse_tar rest)"
proof -
  let ?h = "header_bytes f (length d)" and ?p = "tar_entry f d @ rest"
  have f: "length f \<le> 100" using n by simp
  have h: "take 512 ?p = ?h" "length ?h = 512" and len: "\<not> length ?p < 512"
    using f d by (simp_all add: tar_entry_def length_header_bytes)
  have name: "takeWhile (\<lambda>b. b \<noteq> 0) ?p = bytes_of f"
    by (simp only: tar_entry_def append_assoc header_bytes_name [OF n])
  have sz: "parse_octal 0 (take 11 (drop 124 ?p)) = Some (length d)"
    by (simp only: tar_entry_def append_assoc header_bytes_size [OF f d] parse_octal_octal)
  have data: "take (length d) (drop 512 ?p) = d" using h(2) by (simp add: tar_entry_def)
  have rest: "drop (512 + next_multiple_of (length d) 512) ?p = rest"
    using length_tar_entry [OF f d] by simp
  have nz: "(\<forall>b \<in> set (take 512 ?p). b = 0) = False" and ok: "header_ok (take 512 ?p)"
    unfolding h(1) using header_bytes_nonzero [of f "length d"] header_bytes_ok [OF f d] by blast+
  show ?thesis
    by (subst parse_tar.simps)
       (simp only: len nz ok sz name data rest if_False not_True_eq_False option.case)
qed

lemma parse_tar_end: "parse_tar (replicate 1024 0) = Some []"
  by (subst parse_tar.simps) simp

lemma parse_tar_entries:
  assumes "\<forall>(f, d) \<in> set es. length f < 100 \<and> 0 \<notin> set (bytes_of f) \<and> length d < 8 ^ 11"
  shows "parse_tar (concat (map (\<lambda>(f, d). tar_entry f d) es) @ replicate 1024 0)
    = Some (map (\<lambda>(f, d). (bytes_of f, d)) es)"
  using assms by (induction es) (auto simp: parse_tar_end parse_tar_entry)

lemma custody_names: "f \<in> set CUSTODY_FILES \<Longrightarrow> length f < 100 \<and> 0 \<notin> set (bytes_of f)"
  by (auto simp: CUSTODY_FILES_def bytes_of_def)

section \<open>What a completed handoff means\<close>

fun completed :: "bytes \<Rightarrow> Turn \<Rightarrow> bool" where
  "completed payload AcceptError = False"
| "completed payload (Accepted c) = snd (serve_conn c payload)"

lemma serve_loop_count:
  "serve_loop payload cnt n ts = (m, rest, ret) \<Longrightarrow>
     \<exists>used. ts = used @ rest \<and> m = n + length (filter (completed payload) used)
       \<and> (ret \<longrightarrow> (\<exists>k. cnt = Some k \<and> k \<le> m \<and> (n < k \<longrightarrow> m = k)))
       \<and> (\<not> ret \<longrightarrow> rest = [])"
proof (induction payload cnt n ts arbitrary: m rest ret rule: serve_loop.induct)
  case (2 payload cnt n ts)
  then obtain used where "ts = used @ rest" "m = n + length (filter (completed payload) used)"
    "ret \<longrightarrow> (\<exists>k. cnt = Some k \<and> k \<le> m \<and> (n < k \<longrightarrow> m = k))" "\<not> ret \<longrightarrow> rest = []"
    by fastforce
  then show ?case by (intro exI [of _ "AcceptError # used"]) simp
next
  case (3 payload cnt n c ts)
  define n' where "n' = (if snd (serve_conn c payload) then n + 1 else n)"
  have step: "(if case cnt of None \<Rightarrow> False | Some k \<Rightarrow> k \<le> n' then (n', ts, True)
      else serve_loop payload cnt n' ts) = (m, rest, ret)"
    using "3.prems" by (simp only: serve_loop.simps Let_def n'_def)
  show ?case
  proof (cases "case cnt of None \<Rightarrow> False | Some k \<Rightarrow> k \<le> n'")
    case True
    with step have "m = n'" "rest = ts" "ret" by simp_all
    with True show ?thesis
      by (intro exI [of _ "[Accepted c]"]) (auto simp: n'_def split: option.splits)
  next
    case False
    with step have "serve_loop payload cnt n' ts = (m, rest, ret)" by simp
    with "3.IH" [OF n'_def] False obtain used where "ts = used @ rest"
      "m = n' + length (filter (completed payload) used)"
      "ret \<longrightarrow> (\<exists>k. cnt = Some k \<and> k \<le> m \<and> (n' < k \<longrightarrow> m = k))" "\<not> ret \<longrightarrow> rest = []"
      by fastforce
    with False show ?thesis
      by (intro exI [of _ "Accepted c # used"]) (auto simp: n'_def split: option.splits)
  qed
qed simp

lemma serve_conn_sent:
  "snd (serve_conn c payload) \<Longrightarrow>
     fst (serve_conn c payload) = response_head @ payload \<and> shutdown_ok c \<and> ReadOk [] \<in> set (reads c)"
proof -
  have eof: "wait_eof rs \<Longrightarrow> ReadOk [] \<in> set rs" for rs by (induction rs rule: wait_eof.induct) auto
  have sub: "set (drain_request req rs) \<subseteq> set rs" for req rs
    by (induction req rs rule: drain_request.induct) auto
  assume "snd (serve_conn c payload)"
  then show ?thesis
    using eof [of "drain_request [] (reads c)"] sub [of "[]" "reads c"]
    by (auto simp: serve_conn_def Let_def split: if_splits)
qed

lemma serve_loop_liveness:
  "k \<le> n + length (filter (completed payload) ts) \<Longrightarrow> n < k \<Longrightarrow>
     \<exists>rest. serve_loop payload (Some k) n ts = (k, rest, True)"
proof (induction ts arbitrary: n)
  case (Cons t ts)
  show ?case
  proof (cases t)
    case AcceptError
    with Cons show ?thesis by simp
  next
    case (Accepted c)
    with Cons.prems Cons.IH [of n] Cons.IH [of "n + 1"] show ?thesis
      by (cases "snd (serve_conn c payload)") (auto simp: Let_def)
  qed
qed simp

lemma tar_bundle_roundtrip:
  assumes "\<forall>f \<in> set CUSTODY_FILES. \<exists>d. dir f = Some d \<and> length d < 8 ^ 11"
  shows "\<exists>p. tar_bundle dir = Inr p \<and> length p mod 512 = 0
    \<and> parse_tar p = Some (map (\<lambda>f. (bytes_of f, the (dir f))) CUSTODY_FILES)"
proof -
  let ?es = "map (\<lambda>f. (f, the (dir f))) CUSTODY_FILES"
  have small: "\<forall>f \<in> set CUSTODY_FILES. length f \<le> 100 \<and> (\<exists>d. dir f = Some d \<and> length d < 8 ^ 11)"
    using assms custody_names by fastforce
  have "\<forall>(f, d) \<in> set ?es. length f < 100 \<and> 0 \<notin> set (bytes_of f) \<and> length d < 8 ^ 11"
    using assms custody_names by fastforce
  from parse_tar_entries [OF this]
  have "parse_tar (concat (map (\<lambda>f. tar_entry f (the (dir f))) CUSTODY_FILES) @ replicate 1024 0)
      = Some (map (\<lambda>f. (bytes_of f, the (dir f))) CUSTODY_FILES)"
    by (simp add: comp_def)
  moreover have "length (concat (map (\<lambda>f. tar_entry f (the (dir f))) fs)) mod 512 = 0"
    if "set fs \<subseteq> set CUSTODY_FILES" for fs
    using that
  proof (induction fs)
    case (Cons f fs)
    with small obtain d where "dir f = Some d" "length d < 8 ^ 11" "length f \<le> 100" by auto
    with Cons next_multiple_mod [of "length d" 512] show ?case
      by (simp add: length_tar_entry mod_add_eq [symmetric])
  qed simp
  ultimately show ?thesis
    using tar_files_entries [OF small, of "[]"] by (simp add: tar_bundle_def mod_add_eq [symmetric])
qed

text \<open>C25. \<open>serve --count k\<close> counts landed bundles, not sockets. Among the turns the loop has taken, it has
  returned, for a positive \<open>k\<close>, exactly when \<open>k\<close> of them are completed transfers (and it does return once there are that
  many, whatever fails in between); a completed transfer has sent the response head and the whole
  bundle, half-closed the stream and seen the end of the peer's.
\<close>

theorem serve_count_exact:
  assumes "0 < k"
  shows "((\<exists>rest. serve_loop payload (Some k) 0 ts = (k, rest, True))
      \<longleftrightarrow> k \<le> length (filter (completed payload) ts))
    \<and> (\<forall>c. completed payload (Accepted c) \<longrightarrow>
      fst (serve_conn c payload) = response_head @ payload \<and> shutdown_ok c \<and> ReadOk [] \<in> set (reads c))"
proof -
  have "k \<le> length (filter (completed payload) ts)"
    if "serve_loop payload (Some k) 0 ts = (k, rest, True)" for rest
    using serve_loop_count [OF that] by auto
  with assms show ?thesis
    using serve_loop_liveness [of k 0 payload ts] serve_conn_sent by auto
qed

definition good_peer :: Conn where
  "good_peer = \<lparr>timeout_set = True, reads = [ReadOk (bytes_of ''GET / HTTP/1.0'' @ CRLF @ CRLF), ReadOk []],
     head_ok = True, body_ok = True, shutdown_ok = True\<rparr>"

lemma good_peer_completes: "completed payload (Accepted good_peer)"
proof -
  have "request_complete (bytes_of ''GET / HTTP/1.0'' @ CRLF @ CRLF)" by code_simp
  then show ?thesis
    by (simp add: good_peer_def serve_conn_def CRLF_def)
qed

theorem serve_count_exact_witness:
  "(\<exists>rest. serve_loop [1, 2] (Some 1) 0 [AcceptError, Accepted good_peer] = (1, rest, True))
   \<and> fst (serve_conn good_peer [1, 2]) = response_head @ [1, 2]"
  using serve_count_exact [of 1 "[1, 2]" "[AcceptError, Accepted good_peer]"]
    good_peer_completes [of "[1, 2]"]
  by (simp del: serve_loop.simps)

end
