(* ===== verification/Node_Ip.thy ===== *)
theory Node_Ip
  imports Rust_Str
begin

text \<open>
  The node's own address, \<open>detect_node_ip\<close> of \<open>kubenyx-pki\<close>, with the parts of \<open>std::net\<close> it uses: the
  classification and the printed form of IP addresses. What the kernel answers is the record \<open>HostNet\<close>.
\<close>

unbundle bit_operations_syntax

section \<open>Addresses\<close>

datatype IpAddr = V4 "32 word" | V6 "128 word"

definition octet :: "32 word \<Rightarrow> nat \<Rightarrow> 8 word" where
  "octet a i = ucast (drop_bit (24 - 8 * i) a)"

definition segment :: "128 word \<Rightarrow> nat \<Rightarrow> 16 word" where
  "segment a i = ucast (drop_bit (112 - 16 * i) a)"

fun is_loopback :: "IpAddr \<Rightarrow> bool" where
  "is_loopback (V4 a) \<longleftrightarrow> octet a 0 = 127"
| "is_loopback (V6 a) \<longleftrightarrow> a = 1"

fun is_link_local :: "IpAddr \<Rightarrow> bool" where
  "is_link_local (V4 a) \<longleftrightarrow> octet a 0 = 169 \<and> octet a 1 = 254"
| "is_link_local (V6 a) \<longleftrightarrow> segment a 0 AND 0xffc0 = 0xfe80"

fun is_v4 :: "IpAddr \<Rightarrow> bool" where
  "is_v4 (V4 a) \<longleftrightarrow> True"
| "is_v4 (V6 a) \<longleftrightarrow> False"

section \<open>The printed form\<close>

definition v4_text :: "32 word \<Rightarrow> string" where
  "v4_text a = join ''.'' (map (\<lambda>i. show_nat (unat (octet a i))) [0..<4])"

text \<open>The first of the longest runs of zero segments, as its start and its length.\<close>

fun zero_span :: "nat \<Rightarrow> nat \<times> nat \<Rightarrow> nat \<times> nat \<Rightarrow> 16 word list \<Rightarrow> nat \<times> nat" where
  "zero_span i current longest [] = longest"
| "zero_span i current longest (s # ss) =
     (if s = 0 then
        (let current = (if snd current = 0 then i else fst current, snd current + 1)
         in zero_span (i + 1) current (if snd longest < snd current then current else longest) ss)
      else zero_span (i + 1) (0, 0) longest ss)"

definition hex_segments :: "16 word list \<Rightarrow> string" where
  "hex_segments ss = join '':'' (map (\<lambda>s. show_base 16 (unat s)) ss)"

definition v6_text :: "128 word \<Rightarrow> string" where
  "v6_text a =
     (let segs = map (segment a) [0..<8]
      in if take 6 segs = [0, 0, 0, 0, 0, 0xffff] then ''::ffff:'' @ v4_text (ucast a)
         else case zero_span 0 (0, 0) (0, 0) segs of (start, len) \<Rightarrow>
           if 1 < len then hex_segments (take start segs) @ ''::'' @ hex_segments (drop (start + len) segs)
           else hex_segments segs)"

fun ip_text :: "IpAddr \<Rightarrow> string" where
  "ip_text (V4 a) = v4_text a"
| "ip_text (V6 a) = v6_text a"

section \<open>Detection\<close>

text \<open>\<open>hn_source bind target\<close>: the local address of a UDP socket bound to the one and connected to the other,
  if all three calls succeed. \<open>hn_interfaces\<close>: the addresses of the interfaces, in their order.\<close>

record HostNet =
  hn_source :: "string \<Rightarrow> string \<Rightarrow> IpAddr option"
  hn_interfaces :: "IpAddr list option"

definition ROUTES :: "(string \<times> string) list" where
  "ROUTES = [(''0.0.0.0:0'', ''1.1.1.1:53''), (''[::]:0'', ''[2606:4700:4700::1111]:53'')]"

fun routed_ip :: "HostNet \<Rightarrow> (string \<times> string) list \<Rightarrow> IpAddr option" where
  "routed_ip net [] = None"
| "routed_ip net ((bind, target) # rs) =
     (case hn_source net bind target of
        Some ip \<Rightarrow> if \<not> is_loopback ip then Some ip else routed_ip net rs
      | None \<Rightarrow> routed_ip net rs)"

definition global_ip :: "bool \<Rightarrow> IpAddr list \<Rightarrow> IpAddr option" where
  "global_ip v4 ifs = List.find (\<lambda>ip. is_v4 ip = v4 \<and> \<not> is_loopback ip \<and> \<not> is_link_local ip) ifs"

definition detect_node_ip :: "HostNet \<Rightarrow> string" where
  "detect_node_ip net =
     (case routed_ip net ROUTES of
        Some ip \<Rightarrow> ip_text ip
      | None \<Rightarrow>
          (case Option.bind (hn_interfaces net) (global_ip True) of
             Some ip \<Rightarrow> ip_text ip
           | None \<Rightarrow>
               (case Option.bind (hn_interfaces net) (global_ip False) of
                  Some ip \<Rightarrow> ip_text ip
                | None \<Rightarrow> ''127.0.0.1'')))"

section \<open>What is detected\<close>

text \<open>The addresses that may be chosen: sources of the two routes, and global addresses of interfaces.\<close>

definition candidate :: "HostNet \<Rightarrow> IpAddr \<Rightarrow> bool" where
  "candidate net ip \<longleftrightarrow> \<not> is_loopback ip \<and>
     ((\<exists>(bind, target) \<in> set ROUTES. hn_source net bind target = Some ip)
      \<or> (\<exists>ifs. hn_interfaces net = Some ifs \<and> ip \<in> set ifs \<and> \<not> is_link_local ip))"

lemma takeWhile_dot: "takeWhile (\<lambda>c. c \<noteq> CHR ''.'') (show_nat n @ ''.'' @ r) = show_nat n"
proof -
  have "c \<noteq> CHR ''.''" if "c \<in> set (show_nat n)" for c
  proof -
    from that obtain d where "d < 10" "c = digit_char d" unfolding show_nat_def by (blast dest: show_nat_digits)
    with digit_char_code [of d] have "48 \<le> (of_char c :: nat)" by simp
    then show ?thesis by auto
  qed
  then show ?thesis by (simp add: takeWhile_append2)
qed

lemma v4_text_loopback: "v4_text a = ''127.0.0.1'' \<Longrightarrow> octet a 0 = 127"
proof -
  assume eq: "v4_text a = ''127.0.0.1''"
  have "v4_text a = show_nat (unat (octet a 0)) @ ''.'' @ drop (length (show_nat (unat (octet a 0))) + 1) (v4_text a)"
    by (simp add: v4_text_def join_def upt_rec)
  with eq takeWhile_dot have "show_nat (unat (octet a 0)) = takeWhile (\<lambda>c. c \<noteq> CHR ''.'') ''127.0.0.1''" by metis
  then have "parse_digits 0 (show_nat (unat (octet a 0))) = parse_digits 0 ''127''" by simp
  then have "unat (octet a 0) = 127" by (simp add: show_nat_def parse_show_nat digit_of_def)
  then show ?thesis by (simp add: word_unat_eq_iff)
qed

lemma v6_text_colon: "CHR '':'' \<in> set (v6_text a)"
  by (auto simp: v6_text_def hex_segments_def join_def Let_def upt_rec split: prod.splits)

lemma ip_text_loopback: "ip_text ip = ''127.0.0.1'' \<Longrightarrow> is_loopback ip"
proof (cases ip)
  case (V6 a)
  then show "ip_text ip = ''127.0.0.1'' \<Longrightarrow> is_loopback ip" using v6_text_colon [of a] by simp
qed (simp add: v4_text_loopback)

lemma routed_ip_Some: "routed_ip net rs = Some ip \<Longrightarrow>
    \<not> is_loopback ip \<and> (\<exists>(bind, target) \<in> set rs. hn_source net bind target = Some ip)"
  by (induction net rs rule: routed_ip.induct) (auto split: option.splits if_splits)

lemma routed_ip_None: "routed_ip net rs = None \<longleftrightarrow>
    (\<forall>(bind, target) \<in> set rs. \<forall>ip. hn_source net bind target = Some ip \<longrightarrow> is_loopback ip)"
  by (induction net rs rule: routed_ip.induct) (auto split: option.splits)

text \<open>The detected address is one the host has and, unless it has none that may be used, not a loopback
  address: the fallback is exactly the absence of a candidate.\<close>

theorem detected_address:
  "(\<exists>ip. candidate net ip \<and> detect_node_ip net = ip_text ip)
   \<or> (\<nexists>ip. candidate net ip) \<and> detect_node_ip net = ''127.0.0.1''"
proof (cases "routed_ip net ROUTES")
  case (Some ip)
  with routed_ip_Some [OF Some] show ?thesis by (auto simp: detect_node_ip_def candidate_def)
next
  case None
  show ?thesis
  proof (cases "hn_interfaces net")
    case (Some ifs)
    have *: "candidate net ip" if "global_ip v4 ifs = Some ip" for v4 ip
      using that Some by (auto simp: global_ip_def find_Some_iff candidate_def)
    have "\<not> candidate net ip" if "global_ip True ifs = None" "global_ip False ifs = None" for ip
      using that None Some by (cases "is_v4 ip") (auto simp: global_ip_def find_None_iff candidate_def routed_ip_None)
    with * None Some show ?thesis by (auto simp: detect_node_ip_def split: option.splits)
  next
    case none: None
    have "\<not> candidate net ip" for ip using None none by (auto simp: candidate_def routed_ip_None)
    with None none show ?thesis by (simp add: detect_node_ip_def)
  qed
qed

corollary fallback_iff: "detect_node_ip net = ''127.0.0.1'' \<longleftrightarrow> (\<nexists>ip. candidate net ip)"
  using detected_address [of net] ip_text_loopback by (auto simp: candidate_def)

end
