(* ===== verification/Pki.thy ===== *)
theory Pki
  imports Pki_Tar Node_Ip
begin

text \<open>
  The PKI generator \<open>kubenyx-pki/src/lib.rs\<close>: argument parsing, the CA and service-account key
  gates, leaf issuance with its fingerprint gate, kubeconfig rendering, and the modes \<open>server\<close>, \<open>agent\<close>,
  \<open>mint-ca\<close> and \<open>serve\<close>. The file system is a map from paths to contents, with paths compared as
  they are written (no links, no \<open>.\<close> or \<open>..\<close> components); file modes are left out, directories are only
  created, and a file that exists can be read. Of the longer messages only the part with the data is kept.
  Key generation, X.509, dates, the clock, base64 and the parsing of IP addresses are the fields of an
  \<open>Env\<close> record, together with what the kernel says of the host's addresses and whether it lets a file be
  written, a directory be made and a line be printed; every definition takes it as an argument. The random
  generator of the system does not fail.
\<close>

section \<open>World and environment\<close>

datatype Eku = ServerAuth | ClientAuth

datatype KeyUsage = KeyCertSign | CrlSign | DigitalSignature | KeyEncipherment

datatype San = DnsName string | IpAddress string

record CertParams =
  is_ca :: bool
  serial_number :: string
  not_before :: int
  not_after :: int
  key_usages :: "KeyUsage list"
  extended_key_usages :: "Eku list"
  dn_org :: "string option"
  dn_cn :: string
  subject_alt_names :: "San list"

text \<open>
  What the third-party crates and the system supply. A key pair or certificate is its PEM text. The results
  of random generation and of reading the clock are sequences indexed by the number of draws so far, and so is
  what the disk does with a file that is written. Adding days to a date panics (\<^const>\<open>None\<close>) when the
  duration or the date is out of range.
\<close>

datatype DiskFault = OpenFails | WriteFails nat | SyncFails | RenameFails

record Env =
  gen_key :: "nat \<Rightarrow> string"
  gen_serial :: "nat \<Rightarrow> string"
  gen_sa :: "nat \<Rightarrow> string \<times> string"
  clock :: "nat \<Rightarrow> int"
  key_ok :: "string \<Rightarrow> bool"
  ca_params :: "string \<Rightarrow> CertParams option"
  self_signed :: "CertParams \<Rightarrow> string \<Rightarrow> string option"
  signed_by :: "CertParams \<Rightarrow> string \<Rightarrow> string \<Rightarrow> string \<Rightarrow> string option"
  cert_not_after :: "string \<Rightarrow> int option"
  plus_days :: "int \<Rightarrow> int \<Rightarrow> int option"
  b64 :: "string \<Rightarrow> string"
  ip_ok :: "string \<Rightarrow> bool"
  ia5_ok :: "string \<Rightarrow> bool"
  host_net :: HostNet
  disk :: "nat \<Rightarrow> string \<Rightarrow> DiskFault option"
  dir_ok :: "string \<Rightarrow> bool"
  stderr_ok :: "nat \<Rightarrow> bool"

record World =
  files :: "string \<rightharpoonup> string"
  draws :: nat

text \<open>An action ends in a message of \<open>die\<close> (or of a panic), or normally, with the world it leaves.\<close>

type_synonym 'a act = "World \<Rightarrow> (string + 'a) \<times> World"

definition and_then :: "unit act \<Rightarrow> unit act \<Rightarrow> unit act" where
  "and_then f g w = (case f w of (Inl e, w') \<Rightarrow> (Inl e, w') | (Inr _, w') \<Rightarrow> g w')"

fun all_acts :: "unit act list \<Rightarrow> unit act" where
  "all_acts [] w = (Inr (), w)"
| "all_acts (f # fs) w = and_then f (all_acts fs) w"

text \<open>A failed write has stored a prefix of the data in the temporary file.\<close>

definition write_private :: "Env \<Rightarrow> string \<Rightarrow> string \<Rightarrow> unit act" where
  "write_private env path data w =
     (let tmp = path @ ''.tmp'';
          stored = (\<lambda>s. w\<lparr>files := (files w)(tmp \<mapsto> s)\<rparr>)
      in case disk env (draws w) path of
           Some OpenFails \<Rightarrow> (Inl (''open '' @ tmp), w)
         | Some (WriteFails k) \<Rightarrow> (Inl (''write '' @ tmp), stored (take k data))
         | Some SyncFails \<Rightarrow> (Inl (''fsync '' @ tmp), stored data)
         | Some RenameFails \<Rightarrow> (Inl (''rename '' @ path), stored data)
         | None \<Rightarrow> (Inr (), w\<lparr>files := (files (stored data))(tmp := None, path \<mapsto> data)\<rparr>))"

definition mkdir :: "Env \<Rightarrow> string \<Rightarrow> string \<Rightarrow> unit act" where
  "mkdir env what d w = (if dir_ok env d then (Inr (), w) else (Inl (''mkdir '' @ what), w))"

text \<open>A line on the standard error, which panics when it cannot be written.\<close>

definition report :: "Env \<Rightarrow> unit act" where
  "report env w = (if stderr_ok env (draws w) then (Inr (), w) else (Inl ''failed printing to stderr'', w))"

definition non_empty :: "World \<Rightarrow> string \<Rightarrow> bool" where
  "non_empty w path = (case files w path of None \<Rightarrow> False | Some s \<Rightarrow> 0 < length s)"

definition fnv1a :: "bytes \<Rightarrow> 64 word" where
  "fnv1a data = foldl (\<lambda>h b. (xor h (ucast b)) * 0x100000001b3) 0xcbf29ce484222325 data"

definition DAY :: int where
  "DAY = 86400"

section \<open>The trust roots\<close>

record Issuer =
  i_cert :: string
  i_key :: string
  i_pem :: string
  i_name :: string

definition load_issuer :: "Env \<Rightarrow> string \<Rightarrow> string \<Rightarrow> World \<Rightarrow> string + Issuer" where
  "load_issuer env pki name w =
     (case files w (path_join pki (name @ ''.crt'')) of
        None \<Rightarrow> Inl (''read '' @ name @ ''.crt'')
      | Some crt \<Rightarrow>
      (case files w (path_join pki (name @ ''.key'')) of
        None \<Rightarrow> Inl (''read '' @ name @ ''.key'')
      | Some key \<Rightarrow>
      (if \<not> key_ok env key then Inl (''parse '' @ name @ ''.key'')
       else case ca_params env crt of
          None \<Rightarrow> Inl (''parse '' @ name @ ''.crt'')
        | Some params \<Rightarrow>
        (case self_signed env params key of
          None \<Rightarrow> Inl (''rebuild issuer '' @ name)
        | Some cert \<Rightarrow> Inr \<lparr>i_cert = cert, i_key = key, i_pem = crt, i_name = name\<rparr>))))"

text \<open>The certificate parameters of a CA that is valid to \<open>na\<close>, from the draws that follow the \<open>n\<close>-th.\<close>

definition ca_cert_params :: "Env \<Rightarrow> nat \<Rightarrow> int \<Rightarrow> string \<Rightarrow> CertParams" where
  "ca_cert_params env n na cn = \<lparr>is_ca = True, serial_number = gen_serial env (n + 1),
     not_before = clock env (n + 2) - 300, not_after = na,
     key_usages = [KeyCertSign, CrlSign], extended_key_usages = [],
     dn_org = None, dn_cn = cn, subject_alt_names = []\<rparr>"

definition ensure_ca :: "Env \<Rightarrow> string \<Rightarrow> string \<Rightarrow> string \<Rightarrow> unit act" where
  "ensure_ca env pki name cn w =
     (let crt = path_join pki (name @ ''.crt'');
          key = path_join pki (name @ ''.key'')
      in if non_empty w crt \<and> non_empty w key then (Inr (), w)
         else
           let n = draws w;
               w = w\<lparr>draws := n + 4\<rparr>;
               kp = gen_key env n
           in case plus_days env (clock env (n + 3)) 3650 of
                None \<Rightarrow> (Inl ''resulting value is out of range'', w)
              | Some na \<Rightarrow>
                  (case self_signed env (ca_cert_params env n na cn) kp of
                     None \<Rightarrow> (Inl ''self-sign CA'', w)
                   | Some cert \<Rightarrow>
                       and_then (write_private env key kp) (and_then (write_private env crt cert) (report env)) w))"

definition ensure_sa :: "Env \<Rightarrow> string \<Rightarrow> unit act" where
  "ensure_sa env pki w =
     (if files w (path_join pki ''sa.key'') \<noteq> None then (Inr (), w)
      else
        let n = draws w;
            (sk, pk) = gen_sa env n;
            w = w\<lparr>draws := n + 1\<rparr>
        in and_then (write_private env (path_join pki ''sa.key'') sk)
             (write_private env (path_join pki ''sa.pub'') pk) w)"

definition missing_custody :: "string \<Rightarrow> World \<Rightarrow> string list" where
  "missing_custody dir w = filter (\<lambda>f. \<not> non_empty w (path_join dir f)) CUSTODY_FILES"

section \<open>Leaves\<close>

definition subject :: "string \<Rightarrow> string option \<Rightarrow> string" where
  "subject cn org = (case org of Some o1 \<Rightarrow> ''/O='' @ o1 @ ''/CN='' @ cn | None \<Rightarrow> ''/CN='' @ cn)"

fun eku_str :: "Eku \<Rightarrow> string" where
  "eku_str ServerAuth = ''serverAuth''"
| "eku_str ClientAuth = ''clientAuth''"

definition hex016 :: "64 word \<Rightarrow> string" where
  "hex016 h = (let s = show_base 16 (unat h) in replicate (16 - length s) (CHR ''0'') @ s)"

definition fingerprint :: "Issuer \<Rightarrow> string \<Rightarrow> string option \<Rightarrow> Eku list \<Rightarrow> string list \<Rightarrow> string" where
  "fingerprint issuer cn org ekus san =
     subject cn org @ ''|'' @ join '','' (map eku_str ekus) @ ''|'' @ join '','' san @ ''|''
     @ i_name issuer @ '':'' @ hex016 (fnv1a (bytes_of (i_pem issuer)))"

definition fp_path :: "string \<Rightarrow> string \<Rightarrow> string" where
  "fp_path pki name = path_join pki (''.fp.'' @ map (\<lambda>c. if c = CHR ''/'' then CHR ''_'' else c) name)"

fun san_types :: "Env \<Rightarrow> string list \<Rightarrow> string + San list" where
  "san_types env [] = Inr []"
| "san_types env (s # ss) =
     (case strip_prefix ''DNS:'' s of
        Some d \<Rightarrow> (if ia5_ok env d then map_sum id (Cons (DnsName d)) (san_types env ss) else Inl ''dns san'')
      | None \<Rightarrow>
     (case strip_prefix ''IP:'' s of
        Some ip \<Rightarrow> (if ip_ok env ip then map_sum id (Cons (IpAddress ip)) (san_types env ss)
                    else Inl (''bad IP SAN '' @ ip))
      | None \<Rightarrow> Inl (''bad SAN '' @ s @ '' (want DNS:/IP: prefix)'')))"

record Issue =
  is_pki :: string
  renew_secs :: int
  leaf_days_of :: int

text \<open>The gate of \<open>Issue::ensure\<close>: nothing to do for this leaf.\<close>

definition up_to_date :: "Env \<Rightarrow> Issue \<Rightarrow> string \<Rightarrow> string \<Rightarrow> World \<Rightarrow> bool" where
  "up_to_date env self name want w =
     (case (files w (path_join (is_pki self) (name @ ''.crt'')), files w (fp_path (is_pki self) name)) of
        (Some crt_pem, Some prev) \<Rightarrow>
          files w (path_join (is_pki self) (name @ ''.key'')) \<noteq> None \<and> trim_end prev = want
          \<and> (case cert_not_after env crt_pem of
               None \<Rightarrow> False
             | Some na \<Rightarrow> wrap_i64 (clock env (draws w) + renew_secs self) < na)
      | _ \<Rightarrow> False)"

text \<open>The certificate parameters of a leaf that is valid to \<open>na\<close>, from the draws that follow the \<open>n\<close>-th.\<close>

definition leaf_params :: "Env \<Rightarrow> nat \<Rightarrow> int \<Rightarrow> string \<Rightarrow> string option \<Rightarrow> Eku list \<Rightarrow> San list \<Rightarrow> CertParams" where
  "leaf_params env n na cn org ekus sans = \<lparr>is_ca = False, serial_number = gen_serial env (n + 2),
     not_before = clock env (n + 3) - 300, not_after = na,
     key_usages = [DigitalSignature, KeyEncipherment], extended_key_usages = ekus,
     dn_org = org, dn_cn = cn, subject_alt_names = sans\<rparr>"

definition ensure :: "Env \<Rightarrow> Issue \<Rightarrow> Issuer \<Rightarrow> string \<Rightarrow> string \<Rightarrow> string option \<Rightarrow> Eku list
    \<Rightarrow> string list \<Rightarrow> unit act" where
  "ensure env self issuer name cn org ekus san w =
     (let crt_p = path_join (is_pki self) (name @ ''.crt'');
          key_p = path_join (is_pki self) (name @ ''.key'');
          fp_p = fp_path (is_pki self) name;
          want = fingerprint issuer cn org ekus san;
          n = draws w
      in if up_to_date env self name want w then (Inr (), w\<lparr>draws := n + 1\<rparr>)
         else and_then (report env) (\<lambda>w.
           let w = w\<lparr>draws := n + 5\<rparr>;
               kp = gen_key env (n + 1)
           in case plus_days env (clock env (n + 4)) (leaf_days_of self) of
                None \<Rightarrow> (Inl ''resulting value is out of range'', w)
              | Some na \<Rightarrow>
             (case san_types env san of
                Inl e \<Rightarrow> (Inl e, w)
              | Inr sans \<Rightarrow>
             (case signed_by env (leaf_params env n na cn org ekus sans) kp (i_cert issuer) (i_key issuer) of
                None \<Rightarrow> (Inl (''sign '' @ name), w)
              | Some cert \<Rightarrow>
                  and_then (write_private env key_p kp)
                    (and_then (write_private env crt_p cert) (write_private env fp_p want)) w))) w)"

section \<open>Kubeconfigs\<close>

definition NL :: string where
  "NL = [CHR 0x0A]"

definition kubeconfig_body :: "Env \<Rightarrow> string \<Rightarrow> string \<Rightarrow> string \<Rightarrow> string \<Rightarrow> string \<Rightarrow> string" where
  "kubeconfig_body env api_url user ca_pem crt_pem key_pem =
     ''apiVersion: v1'' @ NL @ ''kind: Config'' @ NL @ ''clusters:'' @ NL @ ''- name: kubenyx'' @ NL
     @ ''  cluster:'' @ NL @ ''    certificate-authority-data: '' @ b64 env ca_pem @ NL
     @ ''    server: '' @ api_url @ NL @ ''users:'' @ NL @ ''- name: '' @ user @ NL @ ''  user:'' @ NL
     @ ''    client-certificate-data: '' @ b64 env crt_pem @ NL
     @ ''    client-key-data: '' @ b64 env key_pem @ NL @ ''contexts:'' @ NL @ ''- name: default'' @ NL
     @ ''  context:'' @ NL @ ''    cluster: kubenyx'' @ NL @ ''    user: '' @ user @ NL
     @ ''current-context: default'' @ NL"

definition kubeconfig_current :: "Env \<Rightarrow> string \<Rightarrow> string \<Rightarrow> string \<Rightarrow> string \<Rightarrow> bool" where
  "kubeconfig_current env body api_url crt_pem ca_pem \<longleftrightarrow>
     contains (''server: '' @ api_url @ NL) body
     \<and> contains (b64 env crt_pem) body \<and> contains (b64 env ca_pem) body"

definition write_kubeconfig :: "Env \<Rightarrow> string \<Rightarrow> string \<Rightarrow> string \<Rightarrow> string \<Rightarrow> string \<Rightarrow> string \<Rightarrow> string
    \<Rightarrow> unit act" where
  "write_kubeconfig env kc out api_url user ca_pem crt key w =
     (case files w crt of
        None \<Rightarrow> (Inl (''read '' @ crt), w)
      | Some crt_pem \<Rightarrow>
     (case files w key of
        None \<Rightarrow> (Inl (''read '' @ key), w)
      | Some key_pem \<Rightarrow>
          let out_p = path_join kc out
          in if (case files w out_p of
                   None \<Rightarrow> False
                 | Some body \<Rightarrow> kubeconfig_current env body api_url crt_pem ca_pem)
             then (Inr (), w)
             else write_private env out_p (kubeconfig_body env api_url user ca_pem crt_pem key_pem) w))"

section \<open>Configuration\<close>

record PkiCfg =
  mode :: string
  pki_dir :: string
  kc_dir :: string
  node_name :: string
  node_address :: "string option"
  api_url_of :: string
  cluster_domain :: string
  service_ip :: string
  extra_sans :: "string list"
  nodes :: "(string \<times> string option) list"
  leaf_days :: int
  renew_days :: int
  etcd :: bool
  etcd_sans :: "string list"
  out_dir :: string
  require_shipped_ca :: bool
  bundle_dir :: string
  pki_listen :: string
  count :: "nat option"

definition pki_defaults :: PkiCfg where
  "pki_defaults = \<lparr>mode = ''server'', pki_dir = ''/var/lib/kubenyx/pki'',
     kc_dir = ''/var/lib/kubenyx/kubeconfigs'', node_name = [], node_address = None,
     api_url_of = ''https://127.0.0.1:6443'', cluster_domain = ''cluster.local'',
     service_ip = ''10.96.0.1'', extra_sans = [], nodes = [], leaf_days = 365, renew_days = 30,
     etcd = False, etcd_sans = [], out_dir = [], require_shipped_ca = False, bundle_dir = [],
     pki_listen = [], count = None\<rparr>"

definition node_arg :: "string \<Rightarrow> string \<times> string option" where
  "node_arg v =
     (case split_once ''='' v of
        None \<Rightarrow> (v, None)
      | Some (n, addr) \<Rightarrow> (n, if addr = [] then None else Some addr))"

text \<open>
  The flags that take a value, as the change each makes to the configuration; \<^const>\<open>Inl\<close> is the
  message for a bad value, \<^const>\<open>None\<close> a flag that is not one of them.
\<close>

definition or_default :: "int option \<Rightarrow> int \<Rightarrow> int" where
  "or_default v d = (case v of Some n \<Rightarrow> n | None \<Rightarrow> d)"

definition valued_flag :: "string \<Rightarrow> (string \<Rightarrow> PkiCfg \<Rightarrow> string + PkiCfg) option" where
  "valued_flag a =
     (if a = ''--out'' then Some (\<lambda>v c. Inr (c\<lparr>out_dir := v\<rparr>))
      else if a = ''--dir'' then Some (\<lambda>v c. Inr (c\<lparr>bundle_dir := v\<rparr>))
      else if a = ''--listen'' then Some (\<lambda>v c. Inr (c\<lparr>pki_listen := v\<rparr>))
      else if a = ''--count'' then Some (\<lambda>v c. case parse_unsigned 64 v of
        None \<Rightarrow> Inl (''bad --count '' @ v) | Some n \<Rightarrow> Inr (c\<lparr>count := Some n\<rparr>))
      else if a = ''--mode'' then Some (\<lambda>v c. Inr (c\<lparr>mode := v\<rparr>))
      else if a = ''--pki-dir'' then Some (\<lambda>v c. Inr (c\<lparr>pki_dir := v\<rparr>))
      else if a = ''--kubeconfig-dir'' then Some (\<lambda>v c. Inr (c\<lparr>kc_dir := v\<rparr>))
      else if a = ''--node-name'' then Some (\<lambda>v c. Inr (c\<lparr>node_name := v\<rparr>))
      else if a = ''--node-address'' then Some (\<lambda>v c. Inr (c\<lparr>node_address := Some v\<rparr>))
      else if a = ''--api-url'' then Some (\<lambda>v c. Inr (c\<lparr>api_url_of := v\<rparr>))
      else if a = ''--cluster-domain'' then Some (\<lambda>v c. Inr (c\<lparr>cluster_domain := v\<rparr>))
      else if a = ''--service-ip'' then Some (\<lambda>v c. Inr (c\<lparr>service_ip := v\<rparr>))
      else if a = ''--extra-san'' then Some (\<lambda>v c. Inr (c\<lparr>extra_sans := extra_sans c @ [v]\<rparr>))
      else if a = ''--node'' then Some (\<lambda>v c. Inr (c\<lparr>nodes := nodes c @ [node_arg v]\<rparr>))
      else if a = ''--leaf-days'' then Some (\<lambda>v c. Inr (c\<lparr>leaf_days := or_default (parse_i64 v) 365\<rparr>))
      else if a = ''--renew-days'' then Some (\<lambda>v c. Inr (c\<lparr>renew_days := or_default (parse_i64 v) 30\<rparr>))
      else if a = ''--etcd-san'' then Some (\<lambda>v c. Inr (c\<lparr>etcd_sans := etcd_sans c @ [v]\<rparr>))
      else None)"

definition plain_flag :: "string \<Rightarrow> PkiCfg \<Rightarrow> PkiCfg option" where
  "plain_flag a c =
     (if a = ''mint-ca'' then Some (c\<lparr>mode := ''mint-ca''\<rparr>)
      else if a = ''serve'' then Some (c\<lparr>mode := ''serve''\<rparr>)
      else if a = ''--require-shipped-ca'' then Some (c\<lparr>require_shipped_ca := True\<rparr>)
      else if a = ''--etcd'' then Some (c\<lparr>etcd := True\<rparr>)
      else None)"

fun pki_flags :: "string list \<Rightarrow> PkiCfg \<Rightarrow> string + PkiCfg" where
  "pki_flags [] c = Inr c"
| "pki_flags (a # args) c =
     (case plain_flag a c of
        Some c' \<Rightarrow> pki_flags args c'
      | None \<Rightarrow>
     (case valued_flag a of
        None \<Rightarrow> Inl (''unknown flag '' @ a)
      | Some set_value \<Rightarrow>
     (case args of
        [] \<Rightarrow> Inl (''missing value for '' @ a)
      | v # rest \<Rightarrow>
     (case set_value v c of
        Inl e \<Rightarrow> Inl e
      | Inr c' \<Rightarrow> pki_flags rest c'))))"

definition pki_parse_args :: "string list \<Rightarrow> string + PkiCfg" where
  "pki_parse_args args =
     (case pki_flags args pki_defaults of
        Inl e \<Rightarrow> Inl e
      | Inr c \<Rightarrow>
          if node_name c = [] \<and> mode c \<noteq> ''mint-ca'' \<and> mode c \<noteq> ''serve''
          then Inl ''--node-name is required'' else Inr c)"

section \<open>Server mode\<close>

definition node_ip_of :: "Env \<Rightarrow> PkiCfg \<Rightarrow> string" where
  "node_ip_of env cfg =
     (case node_address cfg of
        None \<Rightarrow> detect_node_ip (host_net env)
      | Some s \<Rightarrow> if s = [] then detect_node_ip (host_net env) else s)"

text \<open>A node for which no address is configured or found is reported.\<close>

definition warn_address :: "Env \<Rightarrow> PkiCfg \<Rightarrow> unit act" where
  "warn_address env cfg w =
     (if (node_address cfg = None \<or> node_address cfg = Some []) \<and> detect_node_ip (host_net env) = ''127.0.0.1''
      then report env w else (Inr (), w))"

definition custody_step :: "Env \<Rightarrow> PkiCfg \<Rightarrow> unit act" where
  "custody_step env cfg w =
     (let pki = pki_dir cfg
      in if require_shipped_ca cfg then
           (let missing = missing_custody pki w
            in if missing \<noteq> [] then
                 (Inl (''durable posture (balanced profile + persistent datastore) requires an operator-shipped CA bundle, but ''
                   @ pki @ '' is missing: '' @ join '' '' missing), w)
               else (Inr (), w))
         else
           and_then (ensure_ca env pki ''ca'' ''kubenyx-ca'')
             (and_then (ensure_ca env pki ''front-proxy-ca'' ''kubenyx-front-proxy-ca'')
               (ensure_sa env pki)) w)"

definition api_san :: "PkiCfg \<Rightarrow> string \<Rightarrow> string list" where
  "api_san cfg node_ip =
     [''DNS:kubernetes'', ''DNS:kubernetes.default'', ''DNS:kubernetes.default.svc'',
      ''DNS:kubernetes.default.svc.'' @ cluster_domain cfg, ''DNS:'' @ node_name cfg, ''DNS:localhost'',
      ''IP:127.0.0.1'', ''IP:'' @ service_ip cfg, ''IP:'' @ node_ip] @ extra_sans cfg"

text \<open>One call of \<open>issue.ensure\<close>: whether the front-proxy CA signs, and the arguments.\<close>

record Leaf =
  by_front_proxy :: bool
  l_name :: string
  l_cn :: string
  l_org :: "string option"
  l_ekus :: "Eku list"
  l_san :: "string list"

definition client_leaf :: "string \<Rightarrow> string \<Rightarrow> string option \<Rightarrow> Leaf" where
  "client_leaf name cn org = \<lparr>by_front_proxy = False, l_name = name, l_cn = cn, l_org = org,
     l_ekus = [ClientAuth], l_san = []\<rparr>"

definition server_leaves :: "PkiCfg \<Rightarrow> string \<Rightarrow> Leaf list" where
  "server_leaves cfg node_ip =
     [(client_leaf ''apiserver'' ''kube-apiserver'' None)
        \<lparr>l_ekus := [ServerAuth], l_san := api_san cfg node_ip\<rparr>,
      client_leaf ''apiserver-kubelet-client'' ''kube-apiserver-kubelet-client'' None,
      (client_leaf ''front-proxy-client'' ''front-proxy-client'' None)\<lparr>by_front_proxy := True\<rparr>,
      client_leaf ''admin'' ''kubenyx-admin'' (Some ''kubenyx:cluster-admins''),
      client_leaf ''bootstrap'' ''kubenyx-bootstrap'' (Some ''system:masters''),
      client_leaf ''controller-manager'' ''system:kube-controller-manager'' None,
      client_leaf ''scheduler'' ''system:kube-scheduler'' None,
      client_leaf ''kube-proxy'' ''system:kube-proxy'' None,
      client_leaf ''coredns'' ''system:coredns'' None,
      client_leaf ''healthz'' ''kubenyx-healthz'' None]
     @ (if etcd cfg then
          [(client_leaf ''etcd-server'' ''kube-etcd'' None)
             \<lparr>l_ekus := [ServerAuth, ClientAuth], l_san := [''DNS:localhost'', ''IP:127.0.0.1''] @ etcd_sans cfg\<rparr>,
           client_leaf ''apiserver-etcd-client'' ''kube-apiserver-etcd-client'' None]
        else [])"

definition kubelet_san :: "PkiCfg \<Rightarrow> string \<Rightarrow> string \<times> string option \<Rightarrow> string list" where
  "kubelet_san cfg node_ip n =
     [''DNS:'' @ fst n, ''IP:127.0.0.1'']
     @ (case snd n of
          Some a \<Rightarrow> [''IP:'' @ a]
        | None \<Rightarrow> if fst n = node_name cfg then [''IP:'' @ node_ip] else [])"

definition node_leaves :: "PkiCfg \<Rightarrow> string \<Rightarrow> string \<times> string option \<Rightarrow> Leaf list" where
  "node_leaves cfg node_ip n =
     [client_leaf (''nodes/'' @ fst n @ ''/kubelet'') (''system:node:'' @ fst n) (Some ''system:nodes''),
      (client_leaf (''nodes/'' @ fst n @ ''/kubelet-server'') (''system:node:'' @ fst n) None)
        \<lparr>l_ekus := [ServerAuth], l_san := kubelet_san cfg node_ip n\<rparr>]"

definition ensure_leaf :: "Env \<Rightarrow> Issue \<Rightarrow> Issuer \<Rightarrow> Issuer \<Rightarrow> Leaf \<Rightarrow> unit act" where
  "ensure_leaf env self ca fp_ca l =
     ensure env self (if by_front_proxy l then fp_ca else ca) (l_name l) (l_cn l) (l_org l) (l_ekus l) (l_san l)"

definition copy_file :: "Env \<Rightarrow> string \<Rightarrow> string \<Rightarrow> string \<Rightarrow> unit act" where
  "copy_file env what src dst w =
     (case files w src of
        None \<Rightarrow> (Inl (''package '' @ what), w)
      | Some d \<Rightarrow>
          (case disk env (draws w) dst of
             Some OpenFails \<Rightarrow> (Inl (''package '' @ what), w)
           | Some (WriteFails k) \<Rightarrow> (Inl (''package '' @ what), w\<lparr>files := (files w)(dst \<mapsto> take k d)\<rparr>)
           | _ \<Rightarrow> (Inr (), w\<lparr>files := (files w)(dst \<mapsto> d)\<rparr>)))"

definition PACKAGED :: "string list" where
  "PACKAGED = [''ca.crt'', ''kube-proxy.crt'', ''kube-proxy.key'', ''coredns.crt'', ''coredns.key'']"

definition package_node :: "Env \<Rightarrow> PkiCfg \<Rightarrow> string \<times> string option \<Rightarrow> unit act list" where
  "package_node env cfg n =
     (if fst n = node_name cfg then []
      else map (\<lambda>f. copy_file env (fst n @ ''/'' @ f) (path_join (pki_dir cfg) f)
                  (path_join (path_join (path_join (pki_dir cfg) ''nodes'') (fst n)) f)) PACKAGED)"

text \<open>The entries of the \<open>BTreeMap\<close> in its order: file, user and the base name of the leaf.\<close>

definition KUBECONFIGS :: "(string \<times> string \<times> string) list" where
  "KUBECONFIGS =
     [(''admin.kubeconfig'', ''kubenyx-admin'', ''admin''),
      (''bootstrap.kubeconfig'', ''kubenyx-bootstrap'', ''bootstrap''),
      (''controller-manager.kubeconfig'', ''system:kube-controller-manager'', ''controller-manager''),
      (''coredns.kubeconfig'', ''system:coredns'', ''coredns''),
      (''kube-proxy.kubeconfig'', ''system:kube-proxy'', ''kube-proxy''),
      (''scheduler.kubeconfig'', ''system:kube-scheduler'', ''scheduler'')]"

definition kubeconfig_act :: "Env \<Rightarrow> PkiCfg \<Rightarrow> string \<Rightarrow> string \<times> string \<times> string \<Rightarrow> unit act" where
  "kubeconfig_act env cfg ca_pem e =
     (case e of (out, user, base) \<Rightarrow>
        write_kubeconfig env (kc_dir cfg) out (api_url_of cfg) user ca_pem
          (path_join (pki_dir cfg) (base @ ''.crt'')) (path_join (pki_dir cfg) (base @ ''.key'')))"

definition server_kubeconfigs :: "Env \<Rightarrow> PkiCfg \<Rightarrow> unit act" where
  "server_kubeconfigs env cfg w =
     (case files w (path_join (pki_dir cfg) ''ca.crt'') of
        None \<Rightarrow> (Inl ''ca.crt'', w)
      | Some ca_pem \<Rightarrow>
          all_acts (map (kubeconfig_act env cfg ca_pem)
            (KUBECONFIGS @ [(''kubelet.kubeconfig'', ''system:node:'' @ node_name cfg,
               ''nodes/'' @ node_name cfg @ ''/kubelet'')])) w)"

definition issue_of :: "PkiCfg \<Rightarrow> Issue" where
  "issue_of cfg = \<lparr>is_pki = pki_dir cfg, renew_secs = wrap_i64 (renew_days cfg * DAY),
     leaf_days_of = leaf_days cfg\<rparr>"

definition all_leaves :: "Env \<Rightarrow> PkiCfg \<Rightarrow> Leaf list" where
  "all_leaves env cfg =
     (let node_ip = node_ip_of env cfg
      in server_leaves cfg node_ip @ concat (map (node_leaves cfg node_ip) (nodes cfg)))"

definition issue_leaves :: "Env \<Rightarrow> PkiCfg \<Rightarrow> unit act" where
  "issue_leaves env cfg w =
     (case load_issuer env (pki_dir cfg) ''ca'' w of
        Inl e \<Rightarrow> (Inl e, w)
      | Inr ca \<Rightarrow>
     (case load_issuer env (pki_dir cfg) ''front-proxy-ca'' w of
        Inl e \<Rightarrow> (Inl e, w)
      | Inr fp_ca \<Rightarrow>
          all_acts (map (ensure_leaf env (issue_of cfg) ca fp_ca) (all_leaves env cfg)) w))"

definition server :: "Env \<Rightarrow> PkiCfg \<Rightarrow> unit act" where
  "server env cfg =
     and_then (warn_address env cfg)
       (and_then (custody_step env cfg)
         (and_then (issue_leaves env cfg)
           (and_then (all_acts (concat (map (package_node env cfg) (nodes cfg))))
             (server_kubeconfigs env cfg))))"

section \<open>Agent, mint-ca, serve\<close>

definition AGENT_FILES :: "string list" where
  "AGENT_FILES = [''ca.crt'', ''kubelet.crt'', ''kubelet.key'', ''kubelet-server.crt'', ''kubelet-server.key'',
     ''kube-proxy.crt'', ''kube-proxy.key'', ''coredns.crt'', ''coredns.key'']"

text \<open>The warning about a kubelet certificate in its last fortnight.\<close>

definition warn_expiry :: "Env \<Rightarrow> PkiCfg \<Rightarrow> unit act" where
  "warn_expiry env cfg w =
     (case Option.bind (files w (path_join (pki_dir cfg) ''kubelet.crt'')) (cert_not_after env) of
        None \<Rightarrow> (Inr (), w)
      | Some na \<Rightarrow>
          let n = draws w; w = w\<lparr>draws := n + 1\<rparr>
          in if na < wrap_i64 (clock env n + 14 * DAY) then report env w else (Inr (), w))"

definition agent :: "Env \<Rightarrow> PkiCfg \<Rightarrow> unit act" where
  "agent env cfg w =
     (let pki = pki_dir cfg;
          missing = filter (\<lambda>f. \<not> non_empty w (path_join pki f)) AGENT_FILES
      in if missing \<noteq> [] then report env w
         else and_then (warn_expiry env cfg) (\<lambda>w.
                case files w (path_join pki ''ca.crt'') of
                  None \<Rightarrow> (Inl ''ca.crt'', w)
                | Some ca_pem \<Rightarrow>
                    all_acts (map (kubeconfig_act env cfg ca_pem)
                      [(''kubelet.kubeconfig'', ''system:node:'' @ node_name cfg, ''kubelet''),
                       (''kube-proxy.kubeconfig'', ''system:kube-proxy'', ''kube-proxy''),
                       (''coredns.kubeconfig'', ''system:coredns'', ''coredns'')]) w) w)"

definition mint_ca :: "Env \<Rightarrow> PkiCfg \<Rightarrow> unit act" where
  "mint_ca env cfg w =
     (if out_dir cfg = [] then (Inl ''mint-ca requires --out DIR'', w)
      else
        all_acts
          [mkdir env (out_dir cfg) (out_dir cfg),
           ensure_ca env (out_dir cfg) ''ca'' ''kubenyx-ca'',
           ensure_ca env (out_dir cfg) ''front-proxy-ca'' ''kubenyx-front-proxy-ca'',
           ensure_sa env (out_dir cfg),
           report env] w)"

text \<open>The part of \<open>serve\<close> before the accept loop: the bundle that every connection is sent.\<close>

definition serve_payload :: "PkiCfg \<Rightarrow> World \<Rightarrow> string + bytes" where
  "serve_payload cfg w =
     (if bundle_dir cfg = [] \<or> pki_listen cfg = [] then Inl ''serve requires --dir and --listen''
      else
        let missing = missing_custody (bundle_dir cfg) w
        in if missing \<noteq> [] then
             Inl (''serve: '' @ bundle_dir cfg @ '' is missing: '' @ join '' '' missing
                  @ '' - run `kubenyx-pki mint-ca --out` first'')
           else case tar_bundle (\<lambda>f. map_option bytes_of (files w (path_join (bundle_dir cfg) f))) of
                  Inl (ReadFailed f) \<Rightarrow> Inl (''serve: read '' @ f)
                | Inl HeaderPanic \<Rightarrow> Inl ''copy_from_slice''
                | Inr payload \<Rightarrow> Inr payload)"

text \<open>The whole mode, on an address that can be bound.\<close>

definition serve_mode :: "PkiCfg \<Rightarrow> Turn list \<Rightarrow> World \<Rightarrow> string + (nat \<times> Turn list \<times> bool)" where
  "serve_mode cfg turns w =
     (case serve_payload cfg w of
        Inl e \<Rightarrow> Inl e
      | Inr payload \<Rightarrow> Inr (serve_loop payload (count cfg) 0 turns))"

definition pki_mode :: "Env \<Rightarrow> PkiCfg \<Rightarrow> unit act" where
  "pki_mode env cfg w =
     (if mode cfg = ''mint-ca'' then mint_ca env cfg w
      else
        and_then (mkdir env ''pki'' (pki_dir cfg))
          (and_then (mkdir env ''kubeconfigs'' (kc_dir cfg)) (\<lambda>w.
            if mode cfg = ''server'' then server env cfg w
            else if mode cfg = ''agent'' then agent env cfg w
            else (Inl (''unknown mode '' @ mode cfg), w))) w)"

text \<open>
  \<open>run\<close>: the turns are what happens on the listening socket in mode \<open>serve\<close>; the result there is whether
  the accept loop has returned, and in the other modes \<^const>\<open>True\<close>.
\<close>

definition pki_run :: "Env \<Rightarrow> string list \<Rightarrow> Turn list \<Rightarrow> World \<Rightarrow> (string + bool) \<times> World" where
  "pki_run env args turns w =
     (case pki_parse_args args of
        Inl e \<Rightarrow> (Inl e, w)
      | Inr cfg \<Rightarrow>
          if mode cfg = ''serve'' then (map_sum id (\<lambda>r. snd (snd r)) (serve_mode cfg turns w), w)
          else apfst (map_sum id (\<lambda>_. True)) (pki_mode env cfg w))"

end
