(* ===== verification/Pki_Props.thy ===== *)
theory Pki_Props
  imports Pki
begin

text \<open>
  Correctness of the PKI generator: which files each mode may change (a frame argument over the actions),
  the custody rule of the durable posture, completeness and idempotence of \<open>mint-ca\<close>, the bundle that
  \<open>serve\<close> ships, and the two gates (leaf fingerprint, kubeconfig contents).
\<close>

section \<open>Paths\<close>

lemma path_join_rel: "hd f \<noteq> CHR ''/'' \<Longrightarrow> path_join d f = dir_prefix d @ f"
  by (simp add: path_join_def)

lemma path_join_Cons [simp]: "c \<noteq> CHR ''/'' \<Longrightarrow> path_join d (c # f) = dir_prefix d @ c # f"
  by (simp add: path_join_def)

lemma last_path_join: "f \<noteq> [] \<Longrightarrow> last (path_join d f) = last f"
  by (simp add: path_join_def)

definition custody_paths :: "string \<Rightarrow> string set" where
  "custody_paths d = path_join d ` set CUSTODY_FILES"

lemma custody_paths_eq: "custody_paths d = (\<lambda>f. dir_prefix d @ f) ` set CUSTODY_FILES"
  by (simp add: custody_paths_def CUSTODY_FILES_def)

lemma custody_other_file: "f \<notin> set CUSTODY_FILES \<Longrightarrow> dir_prefix d @ f \<notin> custody_paths d"
  by (auto simp: custody_paths_eq)

lemma custody_last: "p \<in> custody_paths d \<Longrightarrow> last p \<in> {CHR ''t'', CHR ''y'', CHR ''b''}"
  by (auto simp: custody_paths_eq CUSTODY_FILES_def)

lemma custody_not_tmp: "p @ ''.tmp'' \<notin> custody_paths d"
  using custody_last [of "p @ ''.tmp''" d] by auto

section \<open>Frames\<close>

text \<open>An action keeps a set of paths when it changes none of the files there, however it ends.\<close>

definition keeps :: "string set \<Rightarrow> unit act \<Rightarrow> bool" where
  "keeps S f \<longleftrightarrow> (\<forall>w. \<forall>p \<in> S. files (snd (f w)) p = files w p)"

lemma keepsI: "(\<And>w p. p \<in> S \<Longrightarrow> files (snd (f w)) p = files w p) \<Longrightarrow> keeps S f"
  by (simp add: keeps_def)

lemma keepsD: "keeps S f \<Longrightarrow> p \<in> S \<Longrightarrow> files (snd (f w)) p = files w p"
  by (simp add: keeps_def)

lemma keeps_and_then: "keeps S f \<Longrightarrow> keeps S g \<Longrightarrow> keeps S (and_then f g)"
  unfolding keeps_def and_then_def by (simp split: prod.splits sum.splits) (metis snd_conv)

lemma keeps_all_acts: "(\<And>f. f \<in> set fs \<Longrightarrow> keeps S f) \<Longrightarrow> keeps S (all_acts fs)"
proof (induction fs)
  case (Cons f fs)
  then have "keeps S (and_then f (all_acts fs))" by (intro keeps_and_then) auto
  then show ?case by (simp add: keeps_def)
qed (simp add: keeps_def)

lemma keeps_draws: "keeps S f \<Longrightarrow> p \<in> S \<Longrightarrow> files (snd (f (w\<lparr>draws := n\<rparr>))) p = files w p"
  by (simp add: keeps_def)

lemma keeps_report [simp]: "keeps S (report env)"
  by (simp add: keeps_def report_def)

lemma keeps_warn_address [simp]: "keeps S (warn_address env cfg)"
  by (simp add: keeps_def warn_address_def report_def)

lemma keeps_write_private: "path \<notin> S \<Longrightarrow> path @ ''.tmp'' \<notin> S \<Longrightarrow> keeps S (write_private env path data)"
  by (intro keepsI) (auto simp: write_private_def Let_def split: option.split DiskFault.split)

text \<open>What a write that succeeds leaves. One that fails, at whatever step, leaves the file itself as it was.\<close>

definition stored :: "string \<Rightarrow> string \<Rightarrow> World \<Rightarrow> World" where
  "stored path data w = w\<lparr>files := (files w)(path @ ''.tmp'' := None, path \<mapsto> data)\<rparr>"

lemma files_stored:
  "files (stored path data w) p =
     (if p = path then Some data else if p = path @ ''.tmp'' then None else files w p)"
  by (simp add: stored_def)

lemma draws_stored [simp]: "draws (stored path data w) = draws w"
  by (simp add: stored_def)

lemma write_private_ok: "disk env (draws w) path = None \<Longrightarrow> write_private env path data w = (Inr (), stored path data w)"
  by (simp add: write_private_def Let_def stored_def)

lemma write_private_Inr: "write_private env path data w = (Inr u, w') \<Longrightarrow> w' = stored path data w"
  by (auto simp: write_private_def Let_def stored_def split: option.splits DiskFault.splits)

lemma write_private_atomic:
  "files (snd (write_private env path data w)) path =
     (if isl (fst (write_private env path data w)) then files w path else Some data)"
  by (auto simp: write_private_def Let_def split: option.split DiskFault.split)

lemma and_then_Inr:
  "and_then f g w = (Inr u, w') \<longleftrightarrow> (\<exists>w1. f w = (Inr (), w1) \<and> g w1 = (Inr u, w'))"
  by (auto simp: and_then_def split: prod.splits sum.splits)

lemma keeps_ensure:
  assumes "\<And>p. p \<in> {path_join (is_pki self) (name @ ''.crt''), path_join (is_pki self) (name @ ''.key''),
      fp_path (is_pki self) name} \<Longrightarrow> p \<notin> S \<and> p @ ''.tmp'' \<notin> S"
  shows "keeps S (ensure env self issuer name cn org ekus san)"
proof (rule keepsI)
  fix w p assume p: "p \<in> S"
  have "keeps S (and_then (write_private env (path_join (is_pki self) (name @ ''.key'')) k)
      (and_then (write_private env (path_join (is_pki self) (name @ ''.crt'')) c)
        (write_private env (fp_path (is_pki self) name) f)))" for k c f
    using assms by (intro keeps_and_then keeps_write_private) auto
  from keeps_draws [OF this p]
  show "files (snd (ensure env self issuer name cn org ekus san w)) p = files w p"
    by (auto simp: ensure_def Let_def and_then_def [of "report env"] report_def split: sum.split option.split)
qed

lemma keeps_write_kubeconfig:
  assumes "path_join kc out \<notin> S" "path_join kc out @ ''.tmp'' \<notin> S"
  shows "keeps S (write_kubeconfig env kc out api_url user ca_pem crt key)"
  using keepsD [OF keeps_write_private [OF assms]]
  by (intro keepsI) (auto simp: write_kubeconfig_def Let_def split: option.split)

lemma keeps_copy_file: "dst \<notin> S \<Longrightarrow> keeps S (copy_file env what src dst)"
  by (intro keepsI) (auto simp: copy_file_def split: option.split DiskFault.split)

section \<open>Names of leaves\<close>

definition leaf_name :: "string \<Rightarrow> bool" where
  "leaf_name n \<longleftrightarrow> n \<noteq> [] \<and> hd n \<noteq> CHR ''/'' \<and> hd n \<noteq> CHR ''.''
     \<and> n \<notin> {''ca'', ''front-proxy-ca'', ''sa''}"

lemma all_leaves_named: "l \<in> set (all_leaves env cfg) \<Longrightarrow> leaf_name (l_name l)"
  by (auto simp: all_leaves_def server_leaves_def node_leaves_def client_leaf_def leaf_name_def Let_def
      split: if_splits)

lemma leaf_files_not_custody:
  assumes "leaf_name n"
  shows "n @ ''.crt'' \<notin> set CUSTODY_FILES" "n @ ''.key'' \<notin> set CUSTODY_FILES"
  using assms by (auto simp: leaf_name_def CUSTODY_FILES_def append_eq_Cons_conv)

lemma leaf_path:
  "leaf_name n \<Longrightarrow> path_join d (n @ s) = dir_prefix d @ n @ s"
  by (cases n) (auto simp: leaf_name_def)

lemma fp_path_eq:
  "fp_path d n = dir_prefix d @ ''.fp.'' @ map (\<lambda>c. if c = CHR ''/'' then CHR ''_'' else c) n"
  by (simp add: fp_path_def)

lemma leaf_keeps_custody:
  assumes "leaf_name n" "p \<in> {path_join d (n @ ''.crt''), path_join d (n @ ''.key''), fp_path d n}"
  shows "p \<notin> custody_paths d \<and> p @ ''.tmp'' \<notin> custody_paths d"
proof -
  have "fp_path d n \<notin> custody_paths d"
    unfolding fp_path_eq by (rule custody_other_file) (simp add: CUSTODY_FILES_def)
  with assms show ?thesis
    using custody_other_file leaf_files_not_custody [OF assms(1)]
    by (auto simp: leaf_path custody_not_tmp)
qed

section \<open>The custody rule\<close>

lemma issue_leaves_keeps: "keeps (custody_paths (pki_dir cfg)) (issue_leaves env cfg)"
proof -
  have "keeps (custody_paths (pki_dir cfg))
      (all_acts (map (ensure_leaf env (issue_of cfg) ca fp_ca) (all_leaves env cfg)))" for ca fp_ca
  proof (rule keeps_all_acts)
    fix f assume "f \<in> set (map (ensure_leaf env (issue_of cfg) ca fp_ca) (all_leaves env cfg))"
    then obtain l where l: "l \<in> set (all_leaves env cfg)" "f = ensure_leaf env (issue_of cfg) ca fp_ca l"
      by auto
    show "keeps (custody_paths (pki_dir cfg)) f"
      unfolding l(2) ensure_leaf_def
      using leaf_keeps_custody [OF all_leaves_named [OF l(1)]]
      by (intro keeps_ensure) (simp add: issue_of_def)
  qed
  then show ?thesis
    by (simp add: keeps_def issue_leaves_def split: sum.split)
qed

lemma package_keeps:
  assumes "\<forall>n \<in> set (nodes cfg). fst n = [] \<or> hd (fst n) \<noteq> CHR ''/''"
  shows "keeps (custody_paths (pki_dir cfg)) (all_acts (concat (map (package_node env cfg) (nodes cfg))))"
proof (rule keeps_all_acts)
  fix f assume "f \<in> set (concat (map (package_node env cfg) (nodes cfg)))"
  then obtain n g where n: "n \<in> set (nodes cfg)" and g: "g \<in> set PACKAGED"
    and f: "f = copy_file env (fst n @ ''/'' @ g) (path_join (pki_dir cfg) g)
      (path_join (path_join (path_join (pki_dir cfg) ''nodes'') (fst n)) g)"
    by (auto simp: package_node_def split: if_splits)
  from assms n have "path_join (path_join (pki_dir cfg) ''nodes'') (fst n)
      = dir_prefix (pki_dir cfg) @ ''nodes/'' @ fst n"
    by (auto simp: path_join_def dir_prefix_def)
  moreover from g have "path_join d g = dir_prefix d @ g" for d by (auto simp: PACKAGED_def)
  moreover obtain s where "dir_prefix (dir_prefix (pki_dir cfg) @ ''nodes/'' @ fst n)
      = dir_prefix (pki_dir cfg) @ ''nodes/'' @ fst n @ s"
    by (cases "last (dir_prefix (pki_dir cfg) @ ''nodes/'' @ fst n) = CHR ''/''")
       (simp_all add: dir_prefix_def [of "dir_prefix (pki_dir cfg) @ _"])
  ultimately have "path_join (path_join (path_join (pki_dir cfg) ''nodes'') (fst n)) g
      = dir_prefix (pki_dir cfg) @ ''nodes/'' @ fst n @ s @ g"
    by simp
  moreover have "''nodes/'' @ fst n @ s @ g \<notin> set CUSTODY_FILES" by (simp add: CUSTODY_FILES_def)
  ultimately show "keeps (custody_paths (pki_dir cfg)) f"
    unfolding f by (intro keeps_copy_file) (simp only: custody_other_file not_False_eq_True)
qed

lemma kubeconfig_act_keeps:
  assumes "\<And>p. last p = CHR ''g'' \<or> last p = CHR ''p'' \<Longrightarrow> p \<notin> S" and "last (fst e) = CHR ''g''" "fst e \<noteq> []"
  shows "keeps S (kubeconfig_act env cfg ca_pem e)"
  using assms
  by (cases e) (auto simp: kubeconfig_act_def last_path_join intro!: keeps_write_kubeconfig)

lemma kubeconfigs_keep:
  assumes "\<And>p. last p = CHR ''g'' \<or> last p = CHR ''p'' \<Longrightarrow> p \<notin> S"
  shows "keeps S (server_kubeconfigs env cfg)"
proof -
  have "keeps S (all_acts (map (kubeconfig_act env cfg ca_pem) (KUBECONFIGS @ [(''kubelet.kubeconfig'', u, b)])))"
    for ca_pem u b
    using assms by (intro keeps_all_acts) (auto simp: KUBECONFIGS_def intro!: kubeconfig_act_keeps)
  then show ?thesis by (simp add: keeps_def server_kubeconfigs_def split: option.split)
qed

lemma custody_no_kubeconfig:
  "last p = CHR ''g'' \<or> last p = CHR ''p'' \<Longrightarrow> p \<notin> custody_paths d"
  using custody_last [of p d] by auto

text \<open>C13. Trust roots in the durable posture are never minted or touched. With \<open>--require-shipped-ca\<close> the
  server mode refuses, changing nothing at all, as soon as one of the six custody files is missing or
  empty; and whatever else happens in it, to its end or to any \<open>die\<close> on the way, the six files keep
  their contents (for node names that are not absolute paths, and paths as they are written: a node
  named \<open>..\<close> is another name for the directory itself, which this does not see).
\<close>

theorem shipped_ca_custody:
  assumes "require_shipped_ca cfg" "\<forall>n \<in> set (nodes cfg). fst n = [] \<or> hd (fst n) \<noteq> CHR ''/''"
  shows "(missing_custody (pki_dir cfg) w \<noteq> [] \<longrightarrow> (\<exists>e. server env cfg w = (Inl e, w)))
    \<and> (\<forall>f \<in> set CUSTODY_FILES. files (snd (server env cfg w)) (path_join (pki_dir cfg) f)
         = files w (path_join (pki_dir cfg) f))"
proof
  show "missing_custody (pki_dir cfg) w \<noteq> [] \<longrightarrow> (\<exists>e. server env cfg w = (Inl e, w))"
    using assms(1) by (simp add: server_def and_then_def custody_step_def warn_address_def report_def Let_def)
  have "keeps (custody_paths (pki_dir cfg)) (custody_step env cfg)"
    using assms(1) by (intro keepsI) (simp add: custody_step_def Let_def)
  then have "keeps (custody_paths (pki_dir cfg)) (server env cfg)"
    unfolding server_def
    by (intro keeps_and_then keeps_warn_address issue_leaves_keeps package_keeps [OF assms(2)]
        kubeconfigs_keep custody_no_kubeconfig)
  then show "\<forall>f \<in> set CUSTODY_FILES. files (snd (server env cfg w)) (path_join (pki_dir cfg) f)
      = files w (path_join (pki_dir cfg) f)"
    by (auto simp: custody_paths_def intro: keepsD)
qed

section \<open>Minting\<close>

text \<open>
  A host on which files can be written, directories made and lines printed. What \<open>mint-ca\<close> relies on:
  besides that, generated keys and self-signed CA certificates exist and are not empty, and a date ten years
  ahead is in range.
\<close>

definition works :: "Env \<Rightarrow> bool" where
  "works env \<longleftrightarrow> (\<forall>n p. disk env n p = None) \<and> (\<forall>d. dir_ok env d) \<and> (\<forall>n. stderr_ok env n)"

lemma works_write: "works env \<Longrightarrow> write_private env path data w = (Inr (), stored path data w)"
  by (simp add: works_def write_private_ok)

lemma works_report: "works env \<Longrightarrow> report env w = (Inr (), w)"
  by (simp add: works_def report_def)

lemma works_address: "works env \<Longrightarrow> warn_address env cfg w = (Inr (), w)"
  by (simp add: works_report warn_address_def)

definition mints :: "Env \<Rightarrow> bool" where
  "mints env \<longleftrightarrow> works env \<and> (\<forall>n. plus_days env (clock env n) 3650 \<noteq> None)
     \<and> (\<forall>n. gen_key env n \<noteq> [] \<and> fst (gen_sa env n) \<noteq> [] \<and> snd (gen_sa env n) \<noteq> [])
     \<and> (\<forall>p k. is_ca p \<longrightarrow> (\<exists>c. self_signed env p k = Some c \<and> c \<noteq> []))"

lemma non_empty_stored:
  "non_empty (stored path data w) p =
     (if p = path then data \<noteq> [] else if p = path @ ''.tmp'' then False else non_empty w p)"
  by (simp add: non_empty_def files_stored)

lemma non_empty_draws [simp]: "non_empty (w\<lparr>draws := n\<rparr>) p = non_empty w p"
  by (simp add: non_empty_def)

lemma ensure_ca_done:
  assumes "non_empty w (path_join d (n @ ''.crt''))" "non_empty w (path_join d (n @ ''.key''))"
  shows "ensure_ca env d n cn w = (Inr (), w)"
  using assms by (simp add: ensure_ca_def)

text \<open>The files an action leaves behind in a directory, and those it leaves as they were.\<close>

lemma ensure_ca_mints:
  assumes "mints env" and n: "n \<noteq> []" "hd n \<noteq> CHR ''/''"
  obtains w' where "ensure_ca env d n cn w = (Inr (), w')"
    "non_empty w' (path_join d (n @ ''.crt''))" "non_empty w' (path_join d (n @ ''.key''))"
    "\<And>p. p \<notin> (\<lambda>s. dir_prefix d @ n @ s) ` {''.crt'', ''.key'', ''.crt.tmp'', ''.key.tmp''} \<Longrightarrow>
       files w' p = files w p"
    "non_empty w (path_join d (n @ ''.crt'')) \<and> non_empty w (path_join d (n @ ''.key'')) \<Longrightarrow> w' = w"
proof (cases "non_empty w (path_join d (n @ ''.crt'')) \<and> non_empty w (path_join d (n @ ''.key''))")
  case True
  with that [of w] show ?thesis by (simp add: ensure_ca_done)
next
  case False
  have path: "path_join d (n @ s) = dir_prefix d @ n @ s" for s using n by (simp add: path_join_def)
  define i where "i = draws w"
  obtain na where na: "plus_days env (clock env (i + 3)) 3650 = Some na"
    using assms(1) unfolding mints_def by blast
  have "is_ca (ca_cert_params env i na cn)" by (simp add: ca_cert_params_def)
  with assms(1) obtain c where c: "self_signed env (ca_cert_params env i na cn) (gen_key env i) = Some c" "c \<noteq> []"
    unfolding mints_def by blast
  have k: "gen_key env i \<noteq> []" and host: "works env" using assms(1) by (simp_all add: mints_def)
  let ?w = "stored (path_join d (n @ ''.crt'')) c
      (stored (path_join d (n @ ''.key'')) (gen_key env i) (w\<lparr>draws := i + 4\<rparr>))"
  have "ensure_ca env d n cn w = (Inr (), ?w)"
    using False c(1) na
    by (simp only: ensure_ca_def Let_def i_def if_False option.case and_then_def works_write [OF host]
        works_report [OF host] sum.case prod.case)
  moreover have "non_empty ?w (path_join d (n @ ''.crt''))" "non_empty ?w (path_join d (n @ ''.key''))"
    using c(2) k by (simp_all add: non_empty_stored path)
  moreover have "files ?w p = files w p"
    if "p \<notin> (\<lambda>s. dir_prefix d @ n @ s) ` {''.crt'', ''.key'', ''.crt.tmp'', ''.key.tmp''}" for p
    using that by (simp add: files_stored path)
  ultimately show ?thesis using False that [of ?w] by blast
qed

lemma ensure_sa_mints:
  assumes "mints env"
  obtains w' where "ensure_sa env d w = (Inr (), w')"
    "files w (path_join d ''sa.key'') = None \<Longrightarrow>
       non_empty w' (path_join d ''sa.key'') \<and> non_empty w' (path_join d ''sa.pub'')"
    "files w (path_join d ''sa.key'') \<noteq> None \<Longrightarrow> w' = w"
    "\<And>p. p \<notin> (\<lambda>s. dir_prefix d @ s) ` {''sa.key'', ''sa.pub'', ''sa.key.tmp'', ''sa.pub.tmp''} \<Longrightarrow>
       files w' p = files w p"
proof (cases "files w (path_join d ''sa.key'')")
  case (Some s)
  with that [of w] show ?thesis by (simp add: ensure_sa_def)
next
  case None
  obtain sk pk where g: "gen_sa env (draws w) = (sk, pk)" by (cases "gen_sa env (draws w)")
  with assms have "sk \<noteq> []" "pk \<noteq> []" unfolding mints_def by (metis fst_conv, metis snd_conv)
  moreover have "works env" using assms by (simp add: mints_def)
  ultimately show ?thesis
    using None g that [of "stored (path_join d ''sa.pub'') pk
      (stored (path_join d ''sa.key'') sk (w\<lparr>draws := draws w + 1\<rparr>))"]
    by (simp add: ensure_sa_def Let_def and_then_def works_write non_empty_stored files_stored)
qed

lemma missing_custody_Nil:
  "missing_custody d w = [] \<longleftrightarrow> (\<forall>f \<in> set CUSTODY_FILES. non_empty w (path_join d f))"
  by (simp add: missing_custody_def filter_empty_conv)

lemma mint_ca_idle:
  assumes "missing_custody (out_dir cfg) w = []" "out_dir cfg \<noteq> []" "works env"
  shows "mint_ca env cfg w = (Inr (), w)"
proof -
  from assms(1) have ne: "\<forall>f \<in> set CUSTODY_FILES. non_empty w (path_join (out_dir cfg) f)"
    by (simp only: missing_custody_Nil)
  have "ensure_ca env (out_dir cfg) ''ca'' cn w = (Inr (), w)"
    "ensure_ca env (out_dir cfg) ''front-proxy-ca'' cn w = (Inr (), w)" for cn
    using ne by (intro ensure_ca_done; simp add: CUSTODY_FILES_def)+
  moreover have "ensure_sa env (out_dir cfg) w = (Inr (), w)"
    using ne by (auto simp: ensure_sa_def CUSTODY_FILES_def non_empty_def split: option.splits)
  ultimately show ?thesis using assms(2,3) by (simp add: mint_ca_def and_then_def mkdir_def works_report) (simp add: works_def)
qed

text \<open>The three steps of \<open>mint-ca\<close>: the worlds between them, and what each may change.\<close>

lemma mint_ca_worlds:
  assumes env: "mints env" and out: "out_dir cfg = d" "d \<noteq> []"
  obtains w1 w2 w3 where "mint_ca env cfg w = (Inr (), w3)"
    "non_empty w1 (path_join d ''ca.crt'')" "non_empty w1 (path_join d ''ca.key'')"
    "\<And>p. p \<notin> (\<lambda>s. dir_prefix d @ ''ca'' @ s) ` {''.crt'', ''.key'', ''.crt.tmp'', ''.key.tmp''} \<Longrightarrow>
       files w1 p = files w p"
    "non_empty w (path_join d ''ca.crt'') \<and> non_empty w (path_join d ''ca.key'') \<Longrightarrow> w1 = w"
    "non_empty w2 (path_join d ''front-proxy-ca.crt'')" "non_empty w2 (path_join d ''front-proxy-ca.key'')"
    "\<And>p. p \<notin> (\<lambda>s. dir_prefix d @ ''front-proxy-ca'' @ s) ` {''.crt'', ''.key'', ''.crt.tmp'', ''.key.tmp''} \<Longrightarrow>
       files w2 p = files w1 p"
    "non_empty w1 (path_join d ''front-proxy-ca.crt'') \<and> non_empty w1 (path_join d ''front-proxy-ca.key'')
       \<Longrightarrow> w2 = w1"
    "files w2 (path_join d ''sa.key'') = None \<Longrightarrow>
       non_empty w3 (path_join d ''sa.key'') \<and> non_empty w3 (path_join d ''sa.pub'')"
    "files w2 (path_join d ''sa.key'') \<noteq> None \<Longrightarrow> w3 = w2"
    "\<And>p. p \<notin> (\<lambda>s. dir_prefix d @ s) ` {''sa.key'', ''sa.pub'', ''sa.key.tmp'', ''sa.pub.tmp''} \<Longrightarrow>
       files w3 p = files w2 p"
proof (rule ensure_ca_mints [OF env, of "''ca''" d "''kubenyx-ca''" w], simp, simp, goal_cases)
  case outer: (1 w1)
  show ?case
  proof (rule ensure_ca_mints [OF env, of "''front-proxy-ca''" d "''kubenyx-front-proxy-ca''" w1],
      simp, simp, goal_cases)
    case (1 w2)
    obtain w3 where w3: "ensure_sa env d w2 = (Inr (), w3)"
      "files w2 (path_join d ''sa.key'') = None \<Longrightarrow>
         non_empty w3 (path_join d ''sa.key'') \<and> non_empty w3 (path_join d ''sa.pub'')"
      "files w2 (path_join d ''sa.key'') \<noteq> None \<Longrightarrow> w3 = w2"
      "\<And>p. p \<notin> (\<lambda>s. dir_prefix d @ s) ` {''sa.key'', ''sa.pub'', ''sa.key.tmp'', ''sa.pub.tmp''} \<Longrightarrow>
         files w3 p = files w2 p"
      by (rule ensure_sa_mints [OF env, of d w2]) auto
    have "mint_ca env cfg w = (Inr (), w3)"
      using out outer(2) 1(1) w3(1) env
      by (simp add: mint_ca_def and_then_def mkdir_def mints_def works_report) (simp add: works_def)
    then show ?case
      using outer(3-6) 1(2-5) w3(2-4)
      by (intro that [of w3 w1 w2]) simp_all
  qed
qed

text \<open>\<open>mint-ca\<close> completes a bundle and then rests. Into any directory that holds either no
  service-account key or a complete pair of them, it ends normally with all six custody files present
  and not empty, a second run changes nothing, and it has replaced neither a CA whose two halves were
  present, nor the service-account key, nor any file that is not part of the bundle (or the temporary
  of one).
\<close>

theorem mint_ca_completes:
  assumes env: "mints env" and out: "out_dir cfg = d" "d \<noteq> []"
    and sa: "files w (path_join d ''sa.key'') = None
      \<or> (non_empty w (path_join d ''sa.key'') \<and> non_empty w (path_join d ''sa.pub''))"
  shows "\<exists>w'. mint_ca env cfg w = (Inr (), w') \<and> missing_custody d w' = []
    \<and> mint_ca env cfg w' = (Inr (), w')
    \<and> (\<forall>n \<in> {''ca'', ''front-proxy-ca''}.
         non_empty w (path_join d (n @ ''.crt'')) \<and> non_empty w (path_join d (n @ ''.key'')) \<longrightarrow>
         files w' (path_join d (n @ ''.crt'')) = files w (path_join d (n @ ''.crt''))
         \<and> files w' (path_join d (n @ ''.key'')) = files w (path_join d (n @ ''.key'')))
    \<and> (files w (path_join d ''sa.key'') \<noteq> None \<longrightarrow>
         files w' (path_join d ''sa.key'') = files w (path_join d ''sa.key''))
    \<and> (\<forall>p. (\<forall>f \<in> set CUSTODY_FILES. p \<noteq> path_join d f \<and> p \<noteq> path_join d f @ ''.tmp'') \<longrightarrow>
         files w' p = files w p)"
proof (rule mint_ca_worlds [OF env out, of w])
  fix w1 w2 w3
  assume run: "mint_ca env cfg w = (Inr (), w3)"
    and ca: "non_empty w1 (path_join d ''ca.crt'')" "non_empty w1 (path_join d ''ca.key'')"
    and w1: "\<And>p. p \<notin> (\<lambda>s. dir_prefix d @ ''ca'' @ s) ` {''.crt'', ''.key'', ''.crt.tmp'', ''.key.tmp''} \<Longrightarrow>
       files w1 p = files w p"
    and ca_kept: "non_empty w (path_join d ''ca.crt'') \<and> non_empty w (path_join d ''ca.key'') \<Longrightarrow> w1 = w"
    and fp: "non_empty w2 (path_join d ''front-proxy-ca.crt'')" "non_empty w2 (path_join d ''front-proxy-ca.key'')"
    and w2: "\<And>p. p \<notin> (\<lambda>s. dir_prefix d @ ''front-proxy-ca'' @ s) ` {''.crt'', ''.key'', ''.crt.tmp'', ''.key.tmp''} \<Longrightarrow>
       files w2 p = files w1 p"
    and fp_kept: "non_empty w1 (path_join d ''front-proxy-ca.crt'') \<and> non_empty w1 (path_join d ''front-proxy-ca.key'')
       \<Longrightarrow> w2 = w1"
    and sa_new: "files w2 (path_join d ''sa.key'') = None \<Longrightarrow>
       non_empty w3 (path_join d ''sa.key'') \<and> non_empty w3 (path_join d ''sa.pub'')"
    and sa_kept: "files w2 (path_join d ''sa.key'') \<noteq> None \<Longrightarrow> w3 = w2"
    and w3: "\<And>p. p \<notin> (\<lambda>s. dir_prefix d @ s) ` {''sa.key'', ''sa.pub'', ''sa.key.tmp'', ''sa.pub.tmp''} \<Longrightarrow>
       files w3 p = files w2 p"
  have sa2: "files w2 (dir_prefix d @ f) = files w (dir_prefix d @ f)" if "f \<in> {''sa.key'', ''sa.pub''}" for f
    using that w1 [of "dir_prefix d @ f"] w2 [of "dir_prefix d @ f"] by auto
  have ca3: "files w3 (dir_prefix d @ f) = files w1 (dir_prefix d @ f)" if "f \<in> {''ca.crt'', ''ca.key''}" for f
    using that w2 [of "dir_prefix d @ f"] w3 [of "dir_prefix d @ f"] by auto
  have fp3: "files w3 (dir_prefix d @ f) = files w2 (dir_prefix d @ f)"
    "files w1 (dir_prefix d @ f) = files w (dir_prefix d @ f)"
    if "f \<in> {''front-proxy-ca.crt'', ''front-proxy-ca.key''}" for f
    using that w1 [of "dir_prefix d @ f"] w3 [of "dir_prefix d @ f"] by auto
  have "non_empty w3 (path_join d ''sa.key'')" "non_empty w3 (path_join d ''sa.pub'')"
    using sa sa_new sa_kept sa2 by (auto simp: non_empty_def split: option.splits)
  then have complete: "missing_custody d w3 = []"
    using ca3 fp3 ca fp by (simp add: missing_custody_Nil CUSTODY_FILES_def non_empty_def)
  then have "mint_ca env cfg w3 = (Inr (), w3)" using out env by (simp add: mint_ca_idle mints_def)
  moreover have "files w3 p = files w p"
    if "\<forall>f \<in> set CUSTODY_FILES. p \<noteq> path_join d f \<and> p \<noteq> path_join d f @ ''.tmp''" for p
    using that w1 [of p] w2 [of p] w3 [of p] by (simp add: CUSTODY_FILES_def)
  moreover have "files w (path_join d ''sa.key'') \<noteq> None \<longrightarrow>
      files w3 (path_join d ''sa.key'') = files w (path_join d ''sa.key'')"
    using sa_kept sa2 by auto
  moreover have "\<forall>n \<in> {''ca'', ''front-proxy-ca''}.
      non_empty w (path_join d (n @ ''.crt'')) \<and> non_empty w (path_join d (n @ ''.key'')) \<longrightarrow>
      files w3 (path_join d (n @ ''.crt'')) = files w (path_join d (n @ ''.crt''))
      \<and> files w3 (path_join d (n @ ''.key'')) = files w (path_join d (n @ ''.key''))"
    using ca_kept fp_kept ca3 fp3 by (simp add: non_empty_def)
  ultimately show ?thesis using run complete by blast
qed

section \<open>The bundle that is served\<close>

text \<open>C24. What \<open>serve\<close> ships is the custody directory. With the six files present, not empty and below the
  limit of the size field, the payload is a whole number of 512-byte blocks from which a reader that
  verifies magic, check sums and trailer recovers exactly the six names with exactly the bytes on disk,
  in order; with one of them missing there is no payload.
\<close>

theorem serve_ships_bundle:
  assumes "bundle_dir cfg = d" "d \<noteq> []" "pki_listen cfg \<noteq> []"
    and small: "\<forall>f \<in> set CUSTODY_FILES. \<forall>s. files w (path_join d f) = Some s \<longrightarrow> length s < 8 ^ 11"
  shows "(missing_custody d w \<noteq> [] \<longrightarrow> (\<exists>e. serve_payload cfg w = Inl e))
    \<and> (missing_custody d w = [] \<longrightarrow>
        (\<exists>p. serve_payload cfg w = Inr p \<and> length p mod 512 = 0
          \<and> parse_tar p = Some (map (\<lambda>f. (bytes_of f, bytes_of (the (files w (path_join d f))))) CUSTODY_FILES)))"
proof (intro conjI impI)
  show "\<exists>e. serve_payload cfg w = Inl e" if "missing_custody d w \<noteq> []"
    using that assms(1-3) by (simp add: serve_payload_def Let_def)
  assume none: "missing_custody d w = []"
  let ?dir = "\<lambda>f. map_option bytes_of (files w (path_join d f))"
  have present: "\<exists>s. files w (path_join d f) = Some s \<and> length s < 8 ^ 11" if "f \<in> set CUSTODY_FILES" for f
  proof -
    have "non_empty w (path_join d f)" using none that by (simp only: missing_custody_Nil)
    then obtain s where "files w (path_join d f) = Some s"
      by (auto simp: non_empty_def split: option.splits)
    with small that show ?thesis by blast
  qed
  have "\<forall>f \<in> set CUSTODY_FILES. \<exists>b. ?dir f = Some b \<and> length b < 8 ^ 11"
  proof
    fix f assume "f \<in> set CUSTODY_FILES"
    from present [OF this] obtain s where "files w (path_join d f) = Some s" "length s < 8 ^ 11" by blast
    then show "\<exists>b. ?dir f = Some b \<and> length b < 8 ^ 11" by (intro exI [of _ "bytes_of s"]) simp
  qed
  from tar_bundle_roundtrip [OF this] obtain p where p: "tar_bundle ?dir = Inr p" "length p mod 512 = 0"
    "parse_tar p = Some (map (\<lambda>f. (bytes_of f, the (?dir f))) CUSTODY_FILES)" by (elim exE conjE)
  have eq: "map (\<lambda>f. (bytes_of f, the (?dir f))) CUSTODY_FILES
      = map (\<lambda>f. (bytes_of f, bytes_of (the (files w (path_join d f))))) CUSTODY_FILES"
  proof (rule map_cong [OF refl])
    fix f assume "f \<in> set CUSTODY_FILES"
    from present [OF this] obtain s where "files w (path_join d f) = Some s" by blast
    then show "(bytes_of f, the (?dir f)) = (bytes_of f, bytes_of (the (files w (path_join d f))))" by simp
  qed
  have "serve_payload cfg w = Inr p"
    using p(1) none assms(1-3) by (simp add: serve_payload_def)
  with p(2) p(3) [unfolded eq] show "\<exists>p. serve_payload cfg w = Inr p \<and> length p mod 512 = 0
      \<and> parse_tar p = Some (map (\<lambda>f. (bytes_of f, bytes_of (the (files w (path_join d f))))) CUSTODY_FILES)"
    by (intro exI [of _ p] conjI)
qed

section \<open>The leaf gate\<close>

definition hex_value :: "string \<Rightarrow> nat" where
  "hex_value s = foldl (\<lambda>a c. 16 * a + (if of_char c < (58 :: nat) then of_char c - 48 else of_char c - 87)) 0 s"

lemma hex_value_snoc:
  "d < 16 \<Longrightarrow> hex_value (s @ [digit_char d]) = 16 * hex_value s + d"
  by (simp add: hex_value_def digit_char_def)

lemma hex_value_show: "hex_value (show_base 16 n) = n"
proof (induction n rule: less_induct)
  case (less n)
  show ?case
  proof (cases "n < 16")
    case True
    then show ?thesis
      using hex_value_snoc [of n "[]"] by (subst show_base.simps) (simp add: hex_value_def)
  next
    case False
    then have "hex_value (show_base 16 (n div 16)) = n div 16" by (intro less.IH) simp
    with False show ?thesis by (subst show_base.simps) (simp add: hex_value_snoc)
  qed
qed

lemma hex_value_hex016: "hex_value (hex016 h) = unat h"
proof -
  have "hex_value (replicate k (CHR ''0'') @ s) = hex_value s" for k s
    by (induction k) (simp_all add: hex_value_def)
  then show ?thesis by (simp add: hex016_def Let_def hex_value_show)
qed

lemma hex016_inj: "hex016 a = hex016 b \<Longrightarrow> a = b"
  using hex_value_hex016 [of a] hex_value_hex016 [of b] by (simp add: word_unat_eq_iff)

lemma last_hex016: "hex016 h \<noteq> [] \<and> \<not> is_ws (last (hex016 h))"
proof -
  have "last (show_base 16 n) = digit_char (n mod 16)" for n
    by (subst show_base.simps) simp
  moreover have "\<not> is_ws (digit_char d)" if "d < 16" for d
  proof
    assume "is_ws (digit_char d)"
    then have "of_char (digit_char d) \<in> {9, 10, 11, 12, 13, 32 :: nat}" by (auto simp: is_ws_def)
    with that show False by (simp add: digit_char_def split: if_splits)
  qed
  ultimately show ?thesis by (simp add: hex016_def Let_def show_base_nonempty)
qed

lemma trim_end_fingerprint: "trim_end (fingerprint issuer cn org ekus san) = fingerprint issuer cn org ekus san"
  using last_hex016 by (intro trim_end_id) (simp add: fingerprint_def)

text \<open>The gate forces nothing when the recorded parameters, CA and validity still hold.\<close>

lemma ensure_idle:
  "up_to_date env self name (fingerprint issuer cn org ekus san) w \<Longrightarrow>
     ensure env self issuer name cn org ekus san w = (Inr (), w\<lparr>draws := draws w + 1\<rparr>)"
  by (simp add: ensure_def Let_def)

lemma leaf_paths_distinct:
  assumes "leaf_name n"
  shows "path_join d (n @ ''.crt'') \<noteq> fp_path d n" "path_join d (n @ ''.key'') \<noteq> fp_path d n"
    "path_join d (n @ ''.crt'') \<noteq> fp_path d n @ ''.tmp''" "path_join d (n @ ''.key'') \<noteq> fp_path d n @ ''.tmp''"
    "fp_path d n \<noteq> path_join d (n @ ''.crt'') @ ''.tmp''" "fp_path d n \<noteq> path_join d (n @ ''.key'') @ ''.tmp''"
  using assms by (cases n; simp add: leaf_name_def fp_path_eq)+

text \<open>What a leaf carries when it is issued.\<close>

definition issued :: "Env \<Rightarrow> Issue \<Rightarrow> Issuer \<Rightarrow> string \<Rightarrow> string \<Rightarrow> string option \<Rightarrow> Eku list
    \<Rightarrow> string list \<Rightarrow> World \<Rightarrow> World \<Rightarrow> bool" where
  "issued env self issuer name cn org ekus san w w' \<longleftrightarrow>
     (\<exists>params cert.
        signed_by env params (gen_key env (draws w + 1)) (i_cert issuer) (i_key issuer) = Some cert
        \<and> files w' (path_join (is_pki self) (name @ ''.crt'')) = Some cert
        \<and> files w' (path_join (is_pki self) (name @ ''.key'')) = Some (gen_key env (draws w + 1))
        \<and> files w' (fp_path (is_pki self) name) = Some (fingerprint issuer cn org ekus san)
        \<and> \<not> is_ca params \<and> dn_cn params = cn \<and> dn_org params = org \<and> extended_key_usages params = ekus
        \<and> san_types env san = Inr (subject_alt_names params)
        \<and> plus_days env (clock env (draws w + 4)) (leaf_days_of self) = Some (not_after params))"

text \<open>The three files of a leaf that is issued.\<close>

definition leaf_stored :: "Env \<Rightarrow> Issue \<Rightarrow> string \<Rightarrow> string \<Rightarrow> string \<Rightarrow> World \<Rightarrow> World" where
  "leaf_stored env self name want cert w =
     stored (fp_path (is_pki self) name) want
      (stored (path_join (is_pki self) (name @ ''.crt'')) cert
        (stored (path_join (is_pki self) (name @ ''.key'')) (gen_key env (draws w + 1)) (w\<lparr>draws := draws w + 5\<rparr>)))"

lemma leaf_stored_files:
  assumes "leaf_name name"
  shows "files (leaf_stored env self name want cert w) (path_join (is_pki self) (name @ ''.crt'')) = Some cert"
    "files (leaf_stored env self name want cert w) (path_join (is_pki self) (name @ ''.key'')) = Some (gen_key env (draws w + 1))"
    "files (leaf_stored env self name want cert w) (fp_path (is_pki self) name) = Some want"
  using leaf_paths_distinct [OF assms] by (auto simp: leaf_stored_def files_stored leaf_path [OF assms])

lemma ensure_stale:
  assumes "\<not> up_to_date env self name (fingerprint issuer cn org ekus san) w" "works env"
    and "plus_days env (clock env (draws w + 4)) (leaf_days_of self) = Some na" "san_types env san = Inr sans"
    and "signed_by env (leaf_params env (draws w) na cn org ekus sans) (gen_key env (draws w + 1))
      (i_cert issuer) (i_key issuer) = Some cert"
  shows "ensure env self issuer name cn org ekus san w =
    (Inr (), leaf_stored env self name (fingerprint issuer cn org ekus san) cert w)"
  using assms by (simp add: ensure_def Let_def and_then_def works_write works_report leaf_stored_def)

lemma ensure_stored:
  assumes stale: "\<not> up_to_date env self name (fingerprint issuer cn org ekus san) w"
    and run: "ensure env self issuer name cn org ekus san w = (Inr (), w')"
  obtains na sans cert where "plus_days env (clock env (draws w + 4)) (leaf_days_of self) = Some na"
    "san_types env san = Inr sans"
    "signed_by env (leaf_params env (draws w) na cn org ekus sans) (gen_key env (draws w + 1))
      (i_cert issuer) (i_key issuer) = Some cert"
    "w' = leaf_stored env self name (fingerprint issuer cn org ekus san) cert w"
  using assms
  by (auto simp: ensure_def Let_def and_then_Inr report_def leaf_stored_def split: if_splits option.splits sum.splits
      dest!: write_private_Inr)

lemma ensure_issues:
  assumes n: "leaf_name name"
    and stale: "\<not> up_to_date env self name (fingerprint issuer cn org ekus san) w"
    and run: "ensure env self issuer name cn org ekus san w = (Inr (), w')"
  shows "issued env self issuer name cn org ekus san w w'"
proof (rule ensure_stored [OF stale run])
  fix na sans cert
  assume "plus_days env (clock env (draws w + 4)) (leaf_days_of self) = Some na" "san_types env san = Inr sans"
    "signed_by env (leaf_params env (draws w) na cn org ekus sans) (gen_key env (draws w + 1))
      (i_cert issuer) (i_key issuer) = Some cert"
    "w' = leaf_stored env self name (fingerprint issuer cn org ekus san) cert w"
  then show ?thesis
    unfolding issued_def
    by (intro exI [of _ "leaf_params env (draws w) na cn org ekus sans"] exI [of _ cert])
       (simp add: leaf_params_def leaf_stored_files [OF n])
qed

text \<open>A validity that reaches past the last date is a panic, after which no file of the leaf has changed.\<close>

lemma leaf_days_panic:
  assumes "\<not> up_to_date env self name (fingerprint issuer cn org ekus san) w"
    and "plus_days env (clock env (draws w + 4)) (leaf_days_of self) = None"
  shows "isl (fst (ensure env self issuer name cn org ekus san w))
    \<and> files (snd (ensure env self issuer name cn org ekus san w)) = files w"
  using assms by (simp add: ensure_def Let_def and_then_def report_def)

lemma fingerprint_digest:
  "fnv1a (bytes_of (i_pem i1)) \<noteq> fnv1a (bytes_of (i_pem i2)) \<Longrightarrow> i_name i1 = i_name i2 \<Longrightarrow>
     fingerprint i1 cn org ekus san \<noteq> fingerprint i2 cn org ekus san"
  using hex016_inj by (auto simp: fingerprint_def)

lemma up_to_date_unique:
  "up_to_date env self name f1 w \<Longrightarrow> up_to_date env self name f2 w \<Longrightarrow> f1 = f2"
  by (auto simp: up_to_date_def split: option.splits)

text \<open>C23. Rotating a CA cascades into its leaves. A leaf that is current under one CA is issued anew by the
  next run with another CA of the same name whose PEM has a different digest: the certificate on disk is
  then signed with the new CA's key, over a new key pair, for the same subject, usages and names, and the
  recorded fingerprint is that of the new CA.
\<close>

theorem ca_rotation_cascades:
  assumes "leaf_name name"
    and "up_to_date env self name (fingerprint old_ca cn org ekus san) w"
    and "i_name new_ca = i_name old_ca" "fnv1a (bytes_of (i_pem new_ca)) \<noteq> fnv1a (bytes_of (i_pem old_ca))"
    and "ensure env self new_ca name cn org ekus san w = (Inr (), w')"
  shows "issued env self new_ca name cn org ekus san w w'"
proof (rule ensure_issues [OF assms(1) _ assms(5)])
  show "\<not> up_to_date env self name (fingerprint new_ca cn org ekus san) w"
    using up_to_date_unique [OF assms(2)] fingerprint_digest [OF assms(4,3)] by metis
qed

text \<open>A leaf is left alone exactly until its renewal window. When the certificates of the X.509 library
  report the expiry they were made with and \<open>Duration::days\<close> counts days, then for a leaf issued in one run
  a later run with the same parameters changes no file while its clock plus the renewal window is before
  the expiry, and issues a new certificate and key from then on.
\<close>

theorem leaf_lifetime:
  assumes n: "leaf_name name"
    and x509: "\<And>p k ic ik c. signed_by env p k ic ik = Some c \<Longrightarrow> cert_not_after env c = Some (not_after p)"
    and days: "\<And>t d e. plus_days env t d = Some e \<Longrightarrow> e = t + d * DAY"
    and first: "issued env self issuer name cn org ekus san w w'"
    and later: "files w2 = files w'"
    and second: "ensure env self issuer name cn org ekus san w2 = (Inr (), w3)"
  shows "if wrap_i64 (clock env (draws w2) + renew_secs self) < clock env (draws w + 4) + leaf_days_of self * DAY
    then files w3 = files w2
    else issued env self issuer name cn org ekus san w2 w3"
proof -
  have gate: "up_to_date env self name (fingerprint issuer cn org ekus san) w2 \<longleftrightarrow>
      wrap_i64 (clock env (draws w2) + renew_secs self) < clock env (draws w + 4) + leaf_days_of self * DAY"
    using first x509 by (auto simp: issued_def up_to_date_def later trim_end_fingerprint dest!: days)
  show ?thesis
  proof (cases "up_to_date env self name (fingerprint issuer cn org ekus san) w2")
    case True
    with ensure_idle [OF this] second gate show ?thesis by auto
  next
    case False
    with ensure_issues [OF n False second] gate show ?thesis by simp
  qed
qed

section \<open>The kubeconfig gate\<close>

lemma contains_here: "contains p (p @ b)"
proof (cases "p @ b")
  case (Cons c s)
  then have "strip_prefix p (c # s) = Some b" by (simp add: strip_prefix_Some)
  with Cons show ?thesis by (simp add: contains_def)
qed (simp add: contains_def)

lemma contains_here3: "contains (a @ b @ c) (a @ b @ c @ d)"
  using contains_here [of "a @ b @ c" d] by simp

lemma contains_left: "contains p s \<Longrightarrow> contains p (a @ s)"
  by (induction a) (auto simp: contains_def split: option.splits)

lemma body_current:
  "kubeconfig_current env (kubeconfig_body env url user ca_pem crt_pem key_pem) url crt_pem ca_pem"
proof -
  have lit: "''    server: '' @ s = ''    '' @ ''server: '' @ s" for s by simp
  show ?thesis
    unfolding kubeconfig_current_def kubeconfig_body_def lit
    by (intro conjI; (rule contains_here3 | rule contains_here | rule contains_left)+)
qed

lemma write_kubeconfig_ok:
  assumes "write_kubeconfig env kc out url user ca_pem crt key w = (Inr (), w')"
  obtains crt_pem key_pem body where "files w crt = Some crt_pem" "files w key = Some key_pem"
    "files w' (path_join kc out) = Some body" "kubeconfig_current env body url crt_pem ca_pem"
proof -
  obtain crt_pem key_pem where r: "files w crt = Some crt_pem" "files w key = Some key_pem"
    using assms by (auto simp: write_kubeconfig_def split: option.splits)
  have "\<exists>body. files w' (path_join kc out) = Some body \<and> kubeconfig_current env body url crt_pem ca_pem"
    using assms r body_current
    by (auto simp: write_kubeconfig_def Let_def files_stored split: option.splits if_splits dest!: write_private_Inr)
  with r that show ?thesis by blast
qed

text \<open>The kubeconfig of an entry is current with respect to the leaf certificate on disk.\<close>

definition kubeconfig_fresh :: "Env \<Rightarrow> PkiCfg \<Rightarrow> string \<Rightarrow> World \<Rightarrow> string \<times> string \<times> string \<Rightarrow> bool" where
  "kubeconfig_fresh env cfg ca_pem w e =
     (case e of (out, user, base) \<Rightarrow>
        \<exists>crt_pem body. files w (path_join (pki_dir cfg) (base @ ''.crt'')) = Some crt_pem
          \<and> files w (path_join (kc_dir cfg) out) = Some body
          \<and> kubeconfig_current env body (api_url_of cfg) crt_pem ca_pem)"

lemma kubeconfig_fresh_cong:
  assumes "\<And>p. last p = CHR ''t'' \<or> p = path_join (kc_dir cfg) (fst e) \<Longrightarrow> files w p = files w' p"
  shows "kubeconfig_fresh env cfg ca_pem w e = kubeconfig_fresh env cfg ca_pem w' e"
proof -
  obtain out user base where e: "e = (out, user, base)" by (cases e)
  have "last (path_join (pki_dir cfg) (base @ ''.crt'')) = CHR ''t''" by (simp add: last_path_join)
  with assms show ?thesis by (simp add: kubeconfig_fresh_def e)
qed

lemma kubeconfig_act_fresh:
  assumes "kubeconfig_act env cfg ca_pem e w = (Inr (), w')" "last (fst e) = CHR ''g''" "fst e \<noteq> []"
  shows "kubeconfig_fresh env cfg ca_pem w' e"
proof -
  obtain out user base where e: "e = (out, user, base)" by (cases e)
  obtain crt_pem body where "files w (path_join (pki_dir cfg) (base @ ''.crt'')) = Some crt_pem"
    "files w' (path_join (kc_dir cfg) out) = Some body"
    "kubeconfig_current env body (api_url_of cfg) crt_pem ca_pem"
    using assms(1) by (auto simp: kubeconfig_act_def e elim: write_kubeconfig_ok)
  moreover have "keeps {p. last p = CHR ''t''} (kubeconfig_act env cfg ca_pem e)"
    using assms(2,3) by (intro kubeconfig_act_keeps) auto
  then have "files (snd (kubeconfig_act env cfg ca_pem e w)) (path_join (pki_dir cfg) (base @ ''.crt''))
      = files w (path_join (pki_dir cfg) (base @ ''.crt''))"
    by (rule keepsD) (simp add: last_path_join)
  then have "files w' (path_join (pki_dir cfg) (base @ ''.crt'')) = files w (path_join (pki_dir cfg) (base @ ''.crt''))"
    by (simp only: assms(1) snd_conv)
  ultimately show ?thesis by (simp add: kubeconfig_fresh_def e)
qed

definition kubeconfig_names :: "(string \<times> string \<times> string) list \<Rightarrow> bool" where
  "kubeconfig_names es \<longleftrightarrow> distinct (map fst es)
     \<and> (\<forall>e \<in> set es. fst e \<noteq> [] \<and> hd (fst e) \<noteq> CHR ''/'' \<and> last (fst e) = CHR ''g'')"

lemma all_kubeconfigs_fresh:
  assumes "all_acts (map (kubeconfig_act env cfg ca_pem) es) w = (Inr (), w')" "kubeconfig_names es"
  shows "\<forall>e \<in> set es. kubeconfig_fresh env cfg ca_pem w' e"
  using assms
proof (induction es arbitrary: w)
  case (Cons e es)
  obtain w1 where w1: "kubeconfig_act env cfg ca_pem e w = (Inr (), w1)"
    and w': "all_acts (map (kubeconfig_act env cfg ca_pem) es) w1 = (Inr (), w')"
    using Cons.prems(1) by (auto simp: and_then_def split: prod.splits sum.splits)
  let ?S = "{p. last p = CHR ''t''} \<union> {path_join (kc_dir cfg) (fst e)}"
  have "keeps ?S (kubeconfig_act env cfg ca_pem e')" if "e' \<in> set es" for e'
  proof -
    obtain out user base where e': "e' = (out, user, base)" by (cases e')
    have "fst e \<notin> set (map fst es)" using Cons.prems(2) by (simp add: kubeconfig_names_def)
    moreover have "out \<in> set (map fst es)" using that e' by force
    ultimately have ne: "out \<noteq> fst e" by metis
    have n: "out \<noteq> []" "last out = CHR ''g''" "hd out \<noteq> CHR ''/''" "fst e \<noteq> []"
      "last (fst e) = CHR ''g''" "hd (fst e) \<noteq> CHR ''/''"
      using Cons.prems(2) that e' by (auto simp: kubeconfig_names_def)
    have "path_join (kc_dir cfg) out @ ''.tmp'' \<noteq> path_join (kc_dir cfg) (fst e)"
    proof
      assume "path_join (kc_dir cfg) out @ ''.tmp'' = path_join (kc_dir cfg) (fst e)"
      then have "last (path_join (kc_dir cfg) out @ ''.tmp'') = CHR ''g''" using n by (simp only: last_path_join not_False_eq_True)
      then show False by simp
    qed
    with n ne show ?thesis
      by (simp add: kubeconfig_act_def e' keeps_write_kubeconfig last_path_join path_join_rel)
  qed
  then have "keeps ?S (all_acts (map (kubeconfig_act env cfg ca_pem) es))"
    by (intro keeps_all_acts) auto
  then have "\<And>p. p \<in> ?S \<Longrightarrow> files (snd (all_acts (map (kubeconfig_act env cfg ca_pem) es) w1)) p = files w1 p"
    by (rule keepsD)
  then have "kubeconfig_fresh env cfg ca_pem w' e = kubeconfig_fresh env cfg ca_pem w1 e"
    unfolding w' snd_conv by (intro kubeconfig_fresh_cong) auto
  moreover have "kubeconfig_fresh env cfg ca_pem w1 e"
    using kubeconfig_act_fresh [OF w1] Cons.prems(2) by (simp add: kubeconfig_names_def)
  moreover have "\<forall>e \<in> set es. kubeconfig_fresh env cfg ca_pem w' e"
    using Cons.IH [OF w'] Cons.prems(2) by (simp add: kubeconfig_names_def)
  ultimately show ?case by simp
qed simp

text \<open>Every kubeconfig a server boot leaves behind is current: when the server mode ends normally, each of
  the seven kubeconfigs exists and contains the configured server URL, the CA certificate on disk and the
  leaf certificate on disk, whether it was rendered in this boot or kept from an earlier one.
\<close>

theorem server_kubeconfigs_current:
  assumes "server env cfg w = (Inr (), w')"
  shows "\<exists>ca_pem. files w' (path_join (pki_dir cfg) ''ca.crt'') = Some ca_pem
    \<and> (\<forall>e \<in> set (KUBECONFIGS @ [(''kubelet.kubeconfig'', ''system:node:'' @ node_name cfg,
         ''nodes/'' @ node_name cfg @ ''/kubelet'')]). kubeconfig_fresh env cfg ca_pem w' e)"
proof -
  obtain v where v: "server_kubeconfigs env cfg v = (Inr (), w')"
    using assms by (auto simp: server_def and_then_def split: prod.splits sum.splits)
  let ?es = "KUBECONFIGS @ [(''kubelet.kubeconfig'', ''system:node:'' @ node_name cfg,
         ''nodes/'' @ node_name cfg @ ''/kubelet'')]"
  obtain ca_pem where ca: "files v (path_join (pki_dir cfg) ''ca.crt'') = Some ca_pem"
    and acts: "all_acts (map (kubeconfig_act env cfg ca_pem) ?es) v = (Inr (), w')"
    using v by (auto simp: server_kubeconfigs_def split: option.splits)
  have "keeps {p. last p = CHR ''t''} (server_kubeconfigs env cfg)" by (intro kubeconfigs_keep) auto
  from keepsD [OF this, of "path_join (pki_dir cfg) ''ca.crt''" v] v ca
  have "files w' (path_join (pki_dir cfg) ''ca.crt'') = Some ca_pem" by simp
  moreover have "kubeconfig_names ?es" by (simp add: kubeconfig_names_def KUBECONFIGS_def)
  ultimately show ?thesis using all_kubeconfigs_fresh [OF acts] by blast
qed

section \<open>A boot completes\<close>

text \<open>
  Total correctness triples for actions: from a world with \<open>P\<close> the action ends normally, in one with \<open>Q\<close>.
\<close>

definition valid :: "(World \<Rightarrow> bool) \<Rightarrow> unit act \<Rightarrow> (World \<Rightarrow> bool) \<Rightarrow> bool" where
  "valid P f Q \<longleftrightarrow> (\<forall>w. P w \<longrightarrow> (\<exists>w'. f w = (Inr (), w') \<and> Q w'))"

lemma validI: "(\<And>w. P w \<Longrightarrow> \<exists>w'. f w = (Inr (), w') \<and> Q w') \<Longrightarrow> valid P f Q"
  by (simp add: valid_def)

lemma valid_and_then: "valid P f Q \<Longrightarrow> valid Q g R \<Longrightarrow> valid P (and_then f g) R"
  by (fastforce simp: valid_def and_then_def)

lemma valid_all_acts: "(\<And>f. f \<in> set fs \<Longrightarrow> valid P f P) \<Longrightarrow> valid P (all_acts fs) P"
proof (induction fs)
  case (Cons f fs)
  then have "valid P (and_then f (all_acts fs)) P" by (intro valid_and_then [of P f P]) auto
  then show ?case by (simp add: valid_def)
qed (simp add: valid_def)

text \<open>All files of a set are there. No action removes a file other than a temporary one.\<close>

definition has :: "string set \<Rightarrow> World \<Rightarrow> bool" where
  "has S w \<longleftrightarrow> (\<forall>p \<in> S. files w p \<noteq> None)"

definition durable_names :: "string set \<Rightarrow> bool" where
  "durable_names S \<longleftrightarrow> (\<forall>p \<in> S. last p \<noteq> CHR ''p'')"

lemma has_stored: "durable_names S \<Longrightarrow> has S w \<Longrightarrow> has (insert path S) (stored path data w)"
  by (auto simp: has_def durable_names_def files_stored)

definition leaf_files :: "Issue \<Rightarrow> string \<Rightarrow> string set" where
  "leaf_files self name = {path_join (is_pki self) (name @ ''.crt''), path_join (is_pki self) (name @ ''.key'')}"

lemma durable_leaf_files: "durable_names (leaf_files self name)"
  by (simp add: durable_names_def leaf_files_def last_path_join)

lemma valid_ensure:
  assumes S: "durable_names S" and n: "leaf_name name" and host: "works env"
    and days: "\<And>n. plus_days env (clock env n) (leaf_days_of self) \<noteq> None"
    and signs: "\<And>p k ic ik. signed_by env p k ic ik \<noteq> None" and sans: "san_types env san = Inr sans"
  shows "valid (has S) (ensure env self issuer name cn org ekus san) (has (S \<union> leaf_files self name))"
proof (rule validI)
  fix w assume h: "has S w"
  let ?want = "fingerprint issuer cn org ekus san"
  show "\<exists>w'. ensure env self issuer name cn org ekus san w = (Inr (), w') \<and> has (S \<union> leaf_files self name) w'"
  proof (cases "up_to_date env self name ?want w")
    case True
    with h ensure_idle [OF True] show ?thesis
      by (auto simp: has_def leaf_files_def up_to_date_def split: option.splits)
  next
    case False
    obtain na where na: "plus_days env (clock env (draws w + 4)) (leaf_days_of self) = Some na" using days by blast
    obtain cert where "signed_by env (leaf_params env (draws w) na cn org ekus sans)
        (gen_key env (draws w + 1)) (i_cert issuer) (i_key issuer) = Some cert" using signs by blast
    note run = ensure_stale [OF False host na sans this]
    have "has S (w\<lparr>draws := draws w + 5\<rparr>)" using h by (simp add: has_def)
    then show ?thesis
      unfolding run has_def leaf_files_def leaf_stored_def
      using S leaf_paths_distinct [OF n, of "is_pki self"]
      by (auto simp: files_stored durable_names_def leaf_path [OF n] has_def)
  qed
qed

lemma valid_leaves:
  assumes "durable_names S" and host: "works env"
    and days: "\<And>n. plus_days env (clock env n) (leaf_days_of self) \<noteq> None"
    and signs: "\<And>p k ic ik. signed_by env p k ic ik \<noteq> None"
    and "\<And>l. l \<in> set ls \<Longrightarrow> leaf_name (l_name l) \<and> (\<exists>sans. san_types env (l_san l) = Inr sans)"
  shows "valid (has S) (all_acts (map (ensure_leaf env self ca fp_ca) ls))
    (has (S \<union> (\<Union>l \<in> set ls. leaf_files self (l_name l))))"
  using assms(1,5)
proof (induction ls arbitrary: S)
  case (Cons l ls)
  let ?S = "S \<union> leaf_files self (l_name l)"
  have "durable_names ?S" using Cons.prems(1) durable_leaf_files by (auto simp: durable_names_def)
  from Cons.IH [OF this] Cons.prems(2)
  have "valid (has ?S) (all_acts (map (ensure_leaf env self ca fp_ca) ls))
      (has (?S \<union> (\<Union>l \<in> set ls. leaf_files self (l_name l))))" by simp
  moreover have "valid (has S) (ensure_leaf env self ca fp_ca l) (has ?S)"
    unfolding ensure_leaf_def using Cons.prems host days signs by (metis list.set_intros(1) valid_ensure)
  ultimately have "valid (has S) (and_then (ensure_leaf env self ca fp_ca l)
      (all_acts (map (ensure_leaf env self ca fp_ca) ls))) (has (?S \<union> (\<Union>l \<in> set ls. leaf_files self (l_name l))))"
    by (rule valid_and_then [rotated])
  then show ?case by (simp add: valid_def Un_assoc)
qed (simp add: valid_def)

lemma valid_copy: "src \<in> S \<Longrightarrow> works env \<Longrightarrow> valid (has S) (copy_file env what src dst) (has S)"
  by (intro validI) (fastforce simp: has_def copy_file_def works_def split: option.split)

lemma valid_kubeconfig:
  assumes "durable_names S" "crt \<in> S" "key \<in> S" and host: "works env"
  shows "valid (has S) (write_kubeconfig env kc out url user ca_pem crt key) (has S)"
proof (rule validI)
  fix w assume h: "has S w"
  with assms obtain c k where "files w crt = Some c" "files w key = Some k" unfolding has_def by blast
  moreover have "has S (stored (path_join kc out) d w)" for d
    using has_stored [OF assms(1) h] by (auto simp: has_def)
  ultimately show "\<exists>w'. write_kubeconfig env kc out url user ca_pem crt key w = (Inr (), w') \<and> has S w'"
    using h by (auto simp: write_kubeconfig_def Let_def works_write [OF host] split: option.split)
qed

lemma load_issuer_has:
  "load_issuer env pki name w = Inr i \<Longrightarrow> files w (path_join pki (name @ ''.crt'')) \<noteq> None"
  by (auto simp: load_issuer_def split: option.splits)

definition leaf_paths :: "Env \<Rightarrow> PkiCfg \<Rightarrow> string set" where
  "leaf_paths env cfg = (\<Union>l \<in> set (all_leaves env cfg). leaf_files (issue_of cfg) (l_name l))"

lemma durable_boot: "durable_names (insert (path_join (pki_dir cfg) ''ca.crt'') (leaf_paths env cfg))"
  using durable_leaf_files by (fastforce simp: durable_names_def leaf_paths_def)

lemma leaf_path_member:
  assumes "n \<in> l_name ` set (all_leaves env cfg)"
  shows "path_join (pki_dir cfg) (n @ ''.crt'') \<in> leaf_paths env cfg"
    "path_join (pki_dir cfg) (n @ ''.key'') \<in> leaf_paths env cfg"
  using assms by (auto simp: leaf_paths_def leaf_files_def issue_of_def)

lemma boot_leaf_names:
  "{''admin'', ''bootstrap'', ''controller-manager'', ''coredns'', ''kube-proxy'', ''scheduler''}
     \<subseteq> l_name ` set (all_leaves env cfg)"
  by (simp add: all_leaves_def server_leaves_def client_leaf_def Let_def)

lemma node_leaf_name:
  assumes "n \<in> fst ` set (nodes cfg)"
  shows "''nodes/'' @ n @ ''/kubelet'' \<in> l_name ` set (all_leaves env cfg)"
proof -
  from assms obtain m where m: "m \<in> set (nodes cfg)" "n = fst m" by blast
  let ?l = "client_leaf (''nodes/'' @ n @ ''/kubelet'') (''system:node:'' @ n) (Some ''system:nodes'')"
  have "?l \<in> set (node_leaves cfg (node_ip_of env cfg) m)" by (simp add: node_leaves_def m(2))
  with m(1) have "?l \<in> set (all_leaves env cfg)" by (auto simp: all_leaves_def Let_def)
  then show ?thesis by (rule rev_image_eqI) (simp add: client_leaf_def)
qed

lemma valid_package:
  assumes "S = insert (path_join (pki_dir cfg) ''ca.crt'') (leaf_paths env cfg)" and host: "works env"
  shows "valid (has S) (all_acts (concat (map (package_node env cfg) (nodes cfg)))) (has S)"
proof (rule valid_all_acts)
  fix f assume "f \<in> set (concat (map (package_node env cfg) (nodes cfg)))"
  then obtain what g dst where g: "g \<in> set PACKAGED" and f: "f = copy_file env what (path_join (pki_dir cfg) g) dst"
    by (auto simp: package_node_def split: if_splits)
  have "path_join (pki_dir cfg) g \<in> S"
    using g boot_leaf_names [of env cfg] leaf_path_member [of "''kube-proxy''" env cfg]
      leaf_path_member [of "''coredns''" env cfg]
    by (auto simp: PACKAGED_def assms(1))
  then show "valid (has S) f (has S)" unfolding f using host by (rule valid_copy)
qed

lemma valid_server_kubeconfigs:
  assumes S: "S = insert (path_join (pki_dir cfg) ''ca.crt'') (leaf_paths env cfg)"
    and node: "node_name cfg \<in> fst ` set (nodes cfg)" and host: "works env"
  shows "valid (has S) (server_kubeconfigs env cfg) (has S)"
proof (rule validI)
  fix w assume h: "has S w"
  then obtain ca_pem where ca: "files w (path_join (pki_dir cfg) ''ca.crt'') = Some ca_pem"
    by (auto simp: has_def S)
  let ?es = "KUBECONFIGS @ [(''kubelet.kubeconfig'', ''system:node:'' @ node_name cfg,
      ''nodes/'' @ node_name cfg @ ''/kubelet'')]"
  have "valid (has S) (kubeconfig_act env cfg ca_pem e) (has S)" if "e \<in> set ?es" for e
  proof -
    obtain out user base where e: "e = (out, user, base)" by (cases e)
    have "base \<in> l_name ` set (all_leaves env cfg)"
      using that boot_leaf_names [of env cfg] node_leaf_name [OF node, of env]
      by (auto simp: e KUBECONFIGS_def)
    from leaf_path_member [OF this] durable_boot [of cfg env] show ?thesis
      unfolding e kubeconfig_act_def using host by (auto simp: S intro: valid_kubeconfig)
  qed
  then have "valid (has S) (all_acts (map (kubeconfig_act env cfg ca_pem) ?es)) (has S)"
    by (intro valid_all_acts) auto
  with h ca show "\<exists>w'. server_kubeconfigs env cfg w = (Inr (), w') \<and> has S w'"
    by (simp add: valid_def server_kubeconfigs_def)
qed

lemma server_completes:
  assumes roots: "custody_step env cfg w = (Inr (), w1)"
    and ca: "load_issuer env (pki_dir cfg) ''ca'' w1 = Inr ca"
    and fp: "load_issuer env (pki_dir cfg) ''front-proxy-ca'' w1 = Inr fp_ca"
    and host: "works env" and days: "\<And>n. plus_days env (clock env n) (leaf_days cfg) \<noteq> None"
    and signs: "\<And>p k ic ik. signed_by env p k ic ik \<noteq> None"
    and sans: "\<And>l. l \<in> set (all_leaves env cfg) \<Longrightarrow> \<exists>s. san_types env (l_san l) = Inr s"
    and node: "node_name cfg \<in> fst ` set (nodes cfg)"
  shows "\<exists>w'. server env cfg w = (Inr (), w')
    \<and> (\<forall>l \<in> set (all_leaves env cfg). \<forall>ext \<in> {''.crt'', ''.key''}.
         files w' (path_join (pki_dir cfg) (l_name l @ ext)) \<noteq> None)"
proof -
  define S where "S = insert (path_join (pki_dir cfg) ''ca.crt'') (leaf_paths env cfg)"
  let ?ca = "{path_join (pki_dir cfg) ''ca.crt''}"
  have "valid (has ?ca) (all_acts (map (ensure_leaf env (issue_of cfg) ca fp_ca) (all_leaves env cfg)))
      (has (?ca \<union> (\<Union>l \<in> set (all_leaves env cfg). leaf_files (issue_of cfg) (l_name l))))"
    using host days signs sans all_leaves_named by (intro valid_leaves) (auto simp: durable_names_def issue_of_def)
  moreover have "has ?ca w1" using load_issuer_has [OF ca] by (simp add: has_def)
  ultimately obtain w2 where w2: "issue_leaves env cfg w1 = (Inr (), w2)" "has S w2"
    by (auto simp: valid_def issue_leaves_def ca fp S_def leaf_paths_def)
  obtain w3 where w3: "all_acts (concat (map (package_node env cfg) (nodes cfg))) w2 = (Inr (), w3)" "has S w3"
    using valid_package [OF S_def host] w2(2) by (auto simp: valid_def)
  obtain w4 where w4: "server_kubeconfigs env cfg w3 = (Inr (), w4)" "has S w4"
    using valid_server_kubeconfigs [OF S_def node host] w3(2) by (auto simp: valid_def)
  have "server env cfg w = (Inr (), w4)"
    by (simp add: server_def and_then_def works_address [OF host] roots w2(1) w3(1) w4(1))
  moreover have "files w4 (path_join (pki_dir cfg) (l_name l @ ext)) \<noteq> None"
    if "l \<in> set (all_leaves env cfg)" "ext \<in> {''.crt'', ''.key''}" for l ext
    using w4(2) that leaf_path_member [of "l_name l" env cfg] by (auto simp: has_def S_def)
  ultimately show ?thesis by blast
qed

text \<open>C14. A server boot completes. When the trust roots are in place and load, files can be written and
  lines printed, the validity asked for ends on a date that can be represented, signing never fails, every
  subject alternative name of a leaf parses, and the node's own name is among the \<open>--node\<close> flags, the
  server mode ends normally, with a certificate and key on disk for every leaf.
\<close>

theorem server_boot_completes:
  assumes roots: "custody_step env cfg w = (Inr (), w1)"
    and ca: "load_issuer env (pki_dir cfg) ''ca'' w1 = Inr ca"
    and fp: "load_issuer env (pki_dir cfg) ''front-proxy-ca'' w1 = Inr fp_ca"
    and host: "works env" and days: "\<And>n. plus_days env (clock env n) (leaf_days cfg) \<noteq> None"
    and signs: "\<And>p k ic ik. signed_by env p k ic ik \<noteq> None"
    and sans: "\<And>l. l \<in> set (all_leaves env cfg) \<Longrightarrow> \<exists>s. san_types env (l_san l) = Inr s"
    and node: "node_name cfg \<in> fst ` set (nodes cfg)"
  shows "\<exists>w'. server env cfg w = (Inr (), w')
    \<and> (\<forall>l \<in> set (all_leaves env cfg). \<forall>ext \<in> {''.crt'', ''.key''}.
         files w' (path_join (pki_dir cfg) (l_name l @ ext)) \<noteq> None)"
  using server_completes [OF roots ca fp host days signs sans node] .

section \<open>A concrete environment\<close>

text \<open>Certificates that are the decimal text of their expiry, and constant keys.\<close>

definition demo_cert :: "int \<Rightarrow> string" where
  "demo_cert i = (if i < 0 then CHR ''-'' # show_nat (nat (- i)) else show_nat (nat i))"

definition demo_expiry :: "string \<Rightarrow> int option" where
  "demo_expiry s =
     (case s of
        [] \<Rightarrow> None
      | c # cs \<Rightarrow> if c = CHR ''-'' then map_option (\<lambda>n. - int n) (parse_digits 0 cs)
                  else map_option int (parse_digits 0 s))"

definition demo_env :: Env where
  "demo_env = \<lparr>gen_key = (\<lambda>n. ''KEY''), gen_serial = (\<lambda>n. ''01''), gen_sa = (\<lambda>n. (''SK'', ''PK'')),
     clock = (\<lambda>n. 1000), key_ok = (\<lambda>k. k \<noteq> []),
     ca_params = (\<lambda>s. Some \<lparr>is_ca = True, serial_number = [], not_before = 0, not_after = 0,
       key_usages = [], extended_key_usages = [], dn_org = None, dn_cn = s, subject_alt_names = []\<rparr>),
     self_signed = (\<lambda>p k. Some ''CA''), signed_by = (\<lambda>p k ic ik. Some (demo_cert (not_after p))),
     cert_not_after = demo_expiry,
     plus_days = (\<lambda>t d. if t + d * DAY \<le> 253402300799 then Some (t + d * DAY) else None), b64 = (\<lambda>s. s),
     ip_ok = (\<lambda>s. True), ia5_ok = (\<lambda>s. True), host_net = \<lparr>hn_source = (\<lambda>_ _. Some (V4 0x0a000001)), hn_interfaces = None\<rparr>,
     disk = (\<lambda>n p. None), dir_ok = (\<lambda>d. True), stderr_ok = (\<lambda>n. True)\<rparr>"

definition demo_cfg :: PkiCfg where
  "demo_cfg = pki_defaults\<lparr>node_name := ''n1'', nodes := [(''n1'', None)], out_dir := ''/b'', bundle_dir := ''/b'',
     pki_listen := '':0''\<rparr>"

definition demo_world :: World where
  "demo_world = \<lparr>files = (\<lambda>p. None), draws = 0\<rparr>"

lemma demo_expiry_cert: "demo_expiry (demo_cert i) = Some i"
proof (cases "i < 0")
  case True
  then show ?thesis by (simp add: demo_expiry_def demo_cert_def show_nat_def parse_show_nat)
next
  case False
  obtain c cs where s: "show_base 10 (nat i) = c # cs"
    using show_base_nonempty [of 10 "nat i"] by (cases "show_base 10 (nat i)") auto
  have "\<exists>d < 10. c = digit_char d" using show_nat_digits [of c "nat i"] by (simp add: s)
  then have "c \<noteq> CHR ''-''" using digit_char_code by force
  with False s parse_show_nat [of "nat i"] show ?thesis
    by (simp add: demo_expiry_def demo_cert_def show_nat_def)
qed

lemma demo_works: "works demo_env"
  by (simp add: works_def demo_env_def)

lemma demo_mints: "mints demo_env"
  using demo_works by (simp add: mints_def) (simp add: demo_env_def DAY_def)

lemma demo_days: "plus_days demo_env (clock demo_env n) (leaf_days demo_cfg) \<noteq> None"
  "plus_days demo_env (clock demo_env n) 1 \<noteq> None"
  by (simp_all add: demo_env_def demo_cfg_def pki_defaults_def DAY_def)

lemma demo_signs: "signed_by demo_env p k ic ik \<noteq> None"
  by (simp add: demo_env_def)

lemma demo_sans: "\<forall>s \<in> set san. (\<exists>d. s = ''DNS:'' @ d) \<or> (\<exists>d. s = ''IP:'' @ d) \<Longrightarrow> \<exists>r. san_types demo_env san = Inr r"
proof (induction san)
  case (Cons s san)
  then obtain r where r: "san_types demo_env san = Inr r" by auto
  from Cons.prems consider d where "s = ''DNS:'' @ d" | d where "s = ''IP:'' @ d" by auto
  then show ?case
  proof cases
    case 1
    with r show ?thesis by (simp add: strip_prefix_def demo_env_def)
  next
    case 2
    with r show ?thesis by (simp add: strip_prefix_def demo_env_def)
  qed
qed simp

lemma demo_leaf_sans: "l \<in> set (all_leaves demo_env demo_cfg) \<Longrightarrow> \<exists>s. san_types demo_env (l_san l) = Inr s"
  by (rule demo_sans) (auto simp: all_leaves_def server_leaves_def node_leaves_def client_leaf_def api_san_def
      kubelet_san_def demo_cfg_def pki_defaults_def Let_def)

definition demo_roots :: World where
  "demo_roots = snd (custody_step demo_env demo_cfg demo_world)"

lemma demo_custody: "custody_step demo_env demo_cfg demo_world = (Inr (), demo_roots)"
  by (simp add: demo_roots_def custody_step_def demo_cfg_def pki_defaults_def demo_world_def demo_env_def
      ensure_ca_def ensure_sa_def and_then_def non_empty_def write_private_def report_def DAY_def Let_def)

lemma demo_root_files:
  "f \<in> {''ca.crt'', ''front-proxy-ca.crt''} \<Longrightarrow> files demo_roots (''/var/lib/kubenyx/pki/'' @ f) = Some ''CA''"
  "f \<in> {''ca.key'', ''front-proxy-ca.key''} \<Longrightarrow> files demo_roots (''/var/lib/kubenyx/pki/'' @ f) = Some ''KEY''"
  by (auto simp: demo_roots_def custody_step_def demo_cfg_def pki_defaults_def demo_world_def demo_env_def
      ensure_ca_def ensure_sa_def and_then_def non_empty_def write_private_def report_def DAY_def Let_def dir_prefix_def)

lemma demo_pki: "dir_prefix (pki_dir demo_cfg) = ''/var/lib/kubenyx/pki/''"
  by (simp add: demo_cfg_def pki_defaults_def dir_prefix_def)

lemma demo_load:
  obtains ca fp_ca where "load_issuer demo_env (pki_dir demo_cfg) ''ca'' demo_roots = Inr ca"
    "load_issuer demo_env (pki_dir demo_cfg) ''front-proxy-ca'' demo_roots = Inr fp_ca"
  using demo_root_files(1) [of "''ca.crt''"] demo_root_files(1) [of "''front-proxy-ca.crt''"]
    demo_root_files(2) [of "''ca.key''"] demo_root_files(2) [of "''front-proxy-ca.key''"]
  by (simp add: load_issuer_def demo_pki demo_env_def)

lemma demo_node: "node_name demo_cfg \<in> fst ` set (nodes demo_cfg)"
  by (simp add: demo_cfg_def)

lemma demo_boot: "\<exists>w'. server demo_env demo_cfg demo_world = (Inr (), w')"
proof -
  obtain ca fp_ca where "load_issuer demo_env (pki_dir demo_cfg) ''ca'' demo_roots = Inr ca"
    "load_issuer demo_env (pki_dir demo_cfg) ''front-proxy-ca'' demo_roots = Inr fp_ca"
    by (rule demo_load)
  from server_completes [OF demo_custody this demo_works demo_days(1) demo_signs demo_leaf_sans demo_node] show ?thesis by blast
qed

theorem server_boot_completes_witness:
  "\<exists>w'. server demo_env demo_cfg demo_world = (Inr (), w')
    \<and> (\<forall>l \<in> set (all_leaves demo_env demo_cfg). \<forall>ext \<in> {''.crt'', ''.key''}.
         files w' (path_join (pki_dir demo_cfg) (l_name l @ ext)) \<noteq> None)"
proof -
  obtain ca fp_ca where "load_issuer demo_env (pki_dir demo_cfg) ''ca'' demo_roots = Inr ca"
    "load_issuer demo_env (pki_dir demo_cfg) ''front-proxy-ca'' demo_roots = Inr fp_ca"
    by (rule demo_load)
  from server_boot_completes [OF demo_custody this demo_works demo_days(1) demo_signs demo_leaf_sans demo_node] show ?thesis .
qed

theorem server_kubeconfigs_current_witness:
  "\<exists>w' ca_pem. files w' (path_join (pki_dir demo_cfg) ''ca.crt'') = Some ca_pem
    \<and> kubeconfig_fresh demo_env demo_cfg ca_pem w' (''admin.kubeconfig'', ''kubenyx-admin'', ''admin'')"
proof -
  obtain w' where "server demo_env demo_cfg demo_world = (Inr (), w')" using demo_boot by blast
  from server_kubeconfigs_current [OF this] show ?thesis by (auto simp: KUBECONFIGS_def)
qed

theorem shipped_ca_custody_witness:
  "\<exists>e. server demo_env (demo_cfg\<lparr>require_shipped_ca := True\<rparr>) demo_world = (Inl e, demo_world)"
proof -
  let ?cfg = "demo_cfg\<lparr>require_shipped_ca := True\<rparr>"
  have "missing_custody (pki_dir ?cfg) demo_world \<noteq> []"
    by (simp add: missing_custody_def CUSTODY_FILES_def non_empty_def demo_world_def)
  moreover have "\<forall>n \<in> set (nodes ?cfg). fst n = [] \<or> hd (fst n) \<noteq> CHR ''/''" by (simp add: demo_cfg_def)
  ultimately show ?thesis using shipped_ca_custody [of ?cfg demo_world demo_env] by simp
qed

theorem mint_ca_completes_witness:
  "\<exists>w'. mint_ca demo_env demo_cfg demo_world = (Inr (), w') \<and> missing_custody ''/b'' w' = []
    \<and> mint_ca demo_env demo_cfg w' = (Inr (), w')"
  using mint_ca_completes [OF demo_mints, of demo_cfg "''/b''" demo_world]
  by (auto simp: demo_cfg_def demo_world_def)

definition demo_bundle :: World where
  "demo_bundle = \<lparr>files = (\<lambda>p. Some ''x''), draws = 0\<rparr>"

theorem serve_ships_bundle_witness:
  "\<exists>p. serve_payload demo_cfg demo_bundle = Inr p \<and> length p mod 512 = 0
    \<and> parse_tar p = Some (map (\<lambda>f. (bytes_of f, bytes_of ''x'')) CUSTODY_FILES)"
  using serve_ships_bundle [of demo_cfg "''/b''" demo_bundle]
  by (simp add: demo_cfg_def demo_bundle_def missing_custody_Nil non_empty_def)

definition demo_ca :: "string \<Rightarrow> Issuer" where
  "demo_ca pem = \<lparr>i_cert = pem, i_key = ''KEY'', i_pem = pem, i_name = ''ca''\<rparr>"

definition demo_issue :: Issue where
  "demo_issue = \<lparr>is_pki = ''/p'', renew_secs = 10, leaf_days_of = 1\<rparr>"

definition demo_leaf :: World where
  "demo_leaf = \<lparr>files = [''/p/a.crt'' \<mapsto> demo_cert 5000, ''/p/a.key'' \<mapsto> ''K'',
     ''/p/.fp.a'' \<mapsto> fingerprint (demo_ca ''A'') ''cn'' None [ClientAuth] []], draws = 0\<rparr>"

lemma demo_leaf_current:
  "up_to_date demo_env demo_issue ''a'' (fingerprint (demo_ca ''A'') ''cn'' None [ClientAuth] []) demo_leaf"
  by (simp add: up_to_date_def demo_issue_def demo_leaf_def path_join_def dir_prefix_def fp_path_def
      trim_end_fingerprint demo_env_def demo_expiry_cert i64_min_def i64_max_def)

lemma demo_digests: "fnv1a (bytes_of ''B'') \<noteq> fnv1a (bytes_of ''A'')"
  by code_simp

lemma demo_leaf_stale:
  "\<not> up_to_date demo_env demo_issue ''a'' (fingerprint (demo_ca ''B'') ''cn'' None [ClientAuth] []) demo_leaf"
proof
  assume "up_to_date demo_env demo_issue ''a'' (fingerprint (demo_ca ''B'') ''cn'' None [ClientAuth] []) demo_leaf"
  from up_to_date_unique [OF this demo_leaf_current] show False
    using fingerprint_digest [of "demo_ca ''B''" "demo_ca ''A''"] demo_digests by (simp add: demo_ca_def)
qed

theorem ca_rotation_cascades_witness:
  "\<exists>w'. ensure demo_env demo_issue (demo_ca ''B'') ''a'' ''cn'' None [ClientAuth] [] demo_leaf = (Inr (), w')
    \<and> issued demo_env demo_issue (demo_ca ''B'') ''a'' ''cn'' None [ClientAuth] [] demo_leaf w'"
proof -
  have name: "leaf_name ''a''" by (simp add: leaf_name_def)
  obtain w' where run: "ensure demo_env demo_issue (demo_ca ''B'') ''a'' ''cn'' None [ClientAuth] [] demo_leaf = (Inr (), w')"
    using valid_ensure [of "{}" "''a''" demo_env demo_issue "[]" "[]"] demo_works demo_days(2) demo_signs name
    by (fastforce simp: valid_def durable_names_def has_def demo_issue_def)
  with ca_rotation_cascades [OF name demo_leaf_current _ _ run] demo_digests show ?thesis
    by (simp add: demo_ca_def)
qed

theorem leaf_lifetime_witness:
  "\<exists>w' w3. issued demo_env demo_issue (demo_ca ''B'') ''a'' ''cn'' None [ClientAuth] [] demo_leaf w'
    \<and> ensure demo_env demo_issue (demo_ca ''B'') ''a'' ''cn'' None [ClientAuth] [] w' = (Inr (), w3)
    \<and> files w3 = files w'"
proof -
  have name: "leaf_name ''a''" by (simp add: leaf_name_def)
  have v: "valid (has {}) (ensure demo_env demo_issue (demo_ca ''B'') ''a'' ''cn'' None [ClientAuth] []) (has {})"
    using valid_ensure [of "{}" "''a''" demo_env demo_issue "[]" "[]"] demo_works demo_days(2) demo_signs name
    by (fastforce simp: valid_def durable_names_def has_def demo_issue_def)
  obtain w' where run: "ensure demo_env demo_issue (demo_ca ''B'') ''a'' ''cn'' None [ClientAuth] [] demo_leaf = (Inr (), w')"
    using v by (auto simp: valid_def has_def)
  obtain w3 where run2: "ensure demo_env demo_issue (demo_ca ''B'') ''a'' ''cn'' None [ClientAuth] [] w' = (Inr (), w3)"
    using v by (auto simp: valid_def has_def)
  have first: "issued demo_env demo_issue (demo_ca ''B'') ''a'' ''cn'' None [ClientAuth] [] demo_leaf w'"
    by (rule ensure_issues [OF name demo_leaf_stale run])
  have days: "e = t + d * DAY" if "plus_days demo_env t d = Some e" for t d e
    using that by (simp add: demo_env_def split: if_splits)
  have "files w3 = files w'"
    using leaf_lifetime [OF name _ days first refl run2]
    by (simp add: demo_env_def demo_expiry_cert demo_issue_def DAY_def i64_min_def i64_max_def)
  with first run2 show ?thesis by blast
qed

text \<open>
  Re-running \<open>mint-ca\<close> over a damaged bundle: a lone CA certificate is replaced together with its missing
  key, and a service-account key without its public half stays without it, so that the bundle is reported
  ready and \<open>serve\<close> then refuses it.
\<close>

definition damaged_bundle :: World where
  "damaged_bundle = \<lparr>files = [''/b/ca.crt'' \<mapsto> ''OLD'', ''/b/sa.key'' \<mapsto> ''S''], draws = 0\<rparr>"

theorem mint_ca_damaged:
  "\<exists>w'. mint_ca demo_env demo_cfg damaged_bundle = (Inr (), w')
    \<and> files w' ''/b/ca.crt'' = Some ''CA'' \<and> missing_custody ''/b'' w' = [''sa.pub'']"
  by (simp add: mint_ca_def demo_cfg_def demo_env_def damaged_bundle_def ensure_ca_def ensure_sa_def
      and_then_def mkdir_def non_empty_def write_private_def report_def DAY_def Let_def missing_custody_def
      CUSTODY_FILES_def dir_prefix_def)

end
