(* ===== verification/Kubeconfig.thy ===== *)
theory Kubeconfig
  imports Pki_Props Snap_Cmd
begin

text \<open>
  The kubeconfig between two programs: \<open>kubenyx-pki\<close> writes it (\<open>write_kubeconfig\<close>), the mesh resume of
  \<open>kubenyx-snap\<close> fetches it from a restored node and builds its client from it (\<open>quorum_client\<close>).
\<close>

lemma strip_cr_plain: "plain v \<Longrightarrow> last p \<noteq> CHR 0x0D \<Longrightarrow> strip_cr (p @ v) = p @ v"
  by (auto simp: strip_cr_def plain_def is_ws_def last_append)

lemma line_plain:
  assumes "plain v" "CHR 0x0A \<notin> set p" "last p \<noteq> CHR 0x0D"
  shows "str_lines (p @ v @ NL @ r) = (p @ v) # str_lines r"
  using str_lines_line [of "p @ v" r] assms strip_cr_plain [of v p] by (simp add: plain_def NL_def)

lemma line_fixed:
  assumes "CHR 0x0A \<notin> set p" "last p \<noteq> CHR 0x0D"
  shows "str_lines (p @ NL @ r) = p # str_lines r"
  using line_plain [of "[]" p r] assms by (simp add: plain_def)

lemma line_last: "CHR 0x0A \<notin> set p \<Longrightarrow> last p \<noteq> CHR 0x0D \<Longrightarrow> str_lines (p @ NL) = [p]"
  using line_fixed [of p "[]"] by simp

lemma kubeconfig_lines:
  assumes "plain url" "plain user" "plain (b64 env ca)" "plain (b64 env crt)" "plain (b64 env key)"
  shows "str_lines (kubeconfig_body env url user ca crt key) =
    [''apiVersion: v1'', ''kind: Config'', ''clusters:'', ''- name: kubenyx'', ''  cluster:'',
     ''    certificate-authority-data: '' @ b64 env ca, ''    server: '' @ url, ''users:'', ''- name: '' @ user, ''  user:'',
     ''    client-certificate-data: '' @ b64 env crt, ''    client-key-data: '' @ b64 env key, ''contexts:'',
     ''- name: default'', ''  context:'', ''    cluster: kubenyx'', ''    user: '' @ user, ''current-context: default'']"
  unfolding kubeconfig_body_def
  by (simp add: line_plain line_fixed line_last assms del: append_Cons)

text \<open>C21: the mesh resume finds in a kubeconfig what the PKI generator put there: the server's address and
  host and the three pieces of key material, base64 as it was encoded, for any file that \<open>write_kubeconfig\<close>
  writes with an https URL; so its client is built exactly when the TLS library accepts that material.\<close>
theorem kubeconfig_roundtrip:
  assumes "plain (''https://'' @ addr)" "plain user" "plain (b64 env ca)" "plain (b64 env crt)" "plain (b64 env key)"
  shows "quorum_client certs (kubeconfig_body env (''https://'' @ addr) user ca crt key) =
    (case certs (b64 env ca) (b64 env crt) (b64 env key) of Some e \<Rightarrow> Inl e | None \<Rightarrow> Inr (host_of addr, addr))"
proof -
  define url where "url = ''https://'' @ addr"
  let ?kc = "kubeconfig_body env url user ca crt key"
  have url: "plain url" using assms(1) by (simp add: url_def)
  note find = kubeconfig_value_def kubeconfig_lines [OF url assms(2-)] strip_prefix_def trim_start_def is_ws_def
    trim_plain [OF url] trim_plain [OF assms(3)] trim_plain [OF assms(4)] trim_plain [OF assms(5)]
  have "kubeconfig_value ?kc ''certificate-authority-data'' = Some (b64 env ca)"
    "kubeconfig_value ?kc ''client-certificate-data'' = Some (b64 env crt)"
    "kubeconfig_value ?kc ''client-key-data'' = Some (b64 env key)"
    "kubeconfig_value ?kc ''server'' = Some url"
    by (simp_all add: find)
  then have "quorum_client certs ?kc =
      (case certs (b64 env ca) (b64 env crt) (b64 env key) of Some e \<Rightarrow> Inl e | None \<Rightarrow> Inr (host_of addr, addr))"
    by (simp add: quorum_client_def url_def strip_prefix_def split: option.split)
  then show ?thesis by (simp add: url_def)
qed

theorem kubeconfig_roundtrip_witness:
  "quorum_client (\<lambda>ca crt key. None) (kubeconfig_body demo_env (''https://'' @ ''10.100.0.2:6443'') ''admin'' ''CA'' ''CRT'' ''KEY'') =
     Inr (''10.100.0.2'', ''10.100.0.2:6443'')"
proof -
  have "quorum_client (\<lambda>ca crt key. None) (kubeconfig_body demo_env (''https://'' @ ''10.100.0.2:6443'') ''admin'' ''CA'' ''CRT'' ''KEY'') =
      Inr (host_of ''10.100.0.2:6443'', ''10.100.0.2:6443'')"
    by (subst kubeconfig_roundtrip) (simp_all add: plain_def is_ws_def demo_env_def)
  then show ?thesis by (simp add: host_of_def)
qed

end
