(* ===== verification/Ready_Props.thy ===== *)
theory Ready_Props
  imports Ready
begin

text \<open>
  Correctness of the readiness wrapper: when its loops end and with what, that systemd is told of readiness
  once and only after a probe of the running child, that no exit status is lost, and what a probe is built from.
\<close>

section \<open>Polling\<close>

text \<open>A loop that asks a question once per round and ends with the first answer.\<close>

locale poll =
  fixes ask :: "nat \<Rightarrow> 'r option" and loop :: "nat \<Rightarrow> 'r option"
  assumes loop_step: "loop k = (case ask k of Some r \<Rightarrow> Some r | None \<Rightarrow> loop (Suc k))"
    and loop_answered: "loop k = Some r \<Longrightarrow> \<exists>n \<ge> k. ask n \<noteq> None"
begin

lemma loop_skip: "(\<And>j. k \<le> j \<Longrightarrow> j < k + d \<Longrightarrow> ask j = None) \<Longrightarrow> loop k = loop (k + d)"
proof (induction d)
  case (Suc d)
  then have "loop k = loop (k + d)" by simp
  also have "\<dots> = loop (k + Suc d)" using Suc.prems [of "k + d"] by (simp add: loop_step [of "k + d"])
  finally show ?case .
qed simp

lemma loop_at_first:
  assumes "k \<le> n" "ask n = Some r" "\<And>j. k \<le> j \<Longrightarrow> j < n \<Longrightarrow> ask j = None"
  shows "loop k = Some r"
proof -
  have "loop k = loop n" using loop_skip [of k "n - k"] assms(1,3) by simp
  with assms(2) show ?thesis by (simp add: loop_step [of n])
qed

lemma first_answer:
  assumes "k \<le> n" "ask n \<noteq> None"
  shows "\<exists>m r. k \<le> m \<and> ask m = Some r \<and> (\<forall>j. k \<le> j \<and> j < m \<longrightarrow> ask j = None)"
proof -
  let ?P = "\<lambda>m. k \<le> m \<and> ask m \<noteq> None"
  have "?P (LEAST m. ?P m)" using assms by (intro LeastI [of ?P n]) simp
  moreover have "ask j = None" if "k \<le> j" "j < (LEAST m. ?P m)" for j using not_less_Least [OF that(2)] that(1) by simp
  ultimately show ?thesis by blast
qed

lemma loop_iff_first:
  "loop k = Some r \<longleftrightarrow> (\<exists>n \<ge> k. ask n = Some r \<and> (\<forall>j. k \<le> j \<and> j < n \<longrightarrow> ask j = None))"
proof
  assume r: "loop k = Some r"
  then obtain n where "k \<le> n" "ask n \<noteq> None" using loop_answered by blast
  then obtain m s where "k \<le> m" "ask m = Some s" "\<forall>j. k \<le> j \<and> j < m \<longrightarrow> ask j = None" using first_answer by blast
  with loop_at_first [of k m s] r show "\<exists>n \<ge> k. ask n = Some r \<and> (\<forall>j. k \<le> j \<and> j < n \<longrightarrow> ask j = None)" by auto
qed (use loop_at_first in blast)

lemma loop_returns_iff: "(\<exists>r. loop k = Some r) \<longleftrightarrow> (\<exists>n \<ge> k. ask n \<noteq> None)"
  using first_answer loop_iff_first loop_answered by blast

end

definition wait_ask :: "(nat \<Rightarrow> string + bool) \<Rightarrow> nat \<Rightarrow> (string + unit) option" where
  "wait_ask probe k = (case probe k of Inl e \<Rightarrow> Some (Inl e) | Inr ok \<Rightarrow> if ok then Some (Inr ()) else None)"

lemma wait_probe_answered:
  assumes "wait_probe probe k = Some r"
  shows "\<exists>n \<ge> k. wait_ask probe n \<noteq> None"
proof (rule wait_probe.raw_induct [OF _ assms])
  fix loop probe k r
  assume IH: "\<And>probe k (r :: string + unit). loop probe k = Some r \<Longrightarrow> \<exists>n \<ge> k. wait_ask probe n \<noteq> None"
    and body: "(case probe k of Inl e \<Rightarrow> Some (Inl e) | Inr ok \<Rightarrow> if ok then Some (Inr ()) else loop probe (Suc k)) = Some r"
  show "\<exists>n \<ge> k. wait_ask probe n \<noteq> None"
  proof (cases "wait_ask probe k")
    case None
    with body have "loop probe (Suc k) = Some r" by (auto simp: wait_ask_def split: sum.splits if_splits)
    from IH [OF this] show ?thesis by (meson Suc_leD)
  next
    case (Some a)
    then show ?thesis by (intro exI [of _ k]) simp
  qed
qed

interpretation wait: poll "wait_ask probe" "wait_probe probe" for probe
proof
  show "wait_probe probe k = (case wait_ask probe k of Some r \<Rightarrow> Some r | None \<Rightarrow> wait_probe probe (Suc k))" for k
    by (subst wait_probe.simps) (auto simp: wait_ask_def split: sum.split)
qed (rule wait_probe_answered)

definition watch_ask :: "(nat \<Rightarrow> 32 word option) \<Rightarrow> (nat \<Rightarrow> string + bool) \<Rightarrow> nat \<Rightarrow> Watched option" where
  "watch_ask try_wait probe k =
     (case try_wait k of
        Some st \<Rightarrow> Some (ChildGone st)
      | None \<Rightarrow> (case probe k of Inl e \<Rightarrow> Some (ProbeDied e) | Inr ok \<Rightarrow> if ok then Some (ProbedReady k) else None))"

lemma watch_child_answered:
  assumes "watch_child tw probe k = Some r"
  shows "\<exists>n \<ge> k. watch_ask tw probe n \<noteq> None"
proof (rule watch_child.raw_induct [OF _ assms])
  fix loop tw probe k r
  assume IH: "\<And>tw probe k r. loop tw probe k = Some r \<Longrightarrow> \<exists>n \<ge> k. watch_ask tw probe n \<noteq> None"
    and body: "(case tw k of Some st \<Rightarrow> Some (ChildGone st) | None \<Rightarrow>
      (case probe k of Inl e \<Rightarrow> Some (ProbeDied e)
       | Inr ok \<Rightarrow> if ok then Some (ProbedReady k) else loop tw probe (Suc k))) = Some r"
  show "\<exists>n \<ge> k. watch_ask tw probe n \<noteq> None"
  proof (cases "watch_ask tw probe k")
    case None
    with body have "loop tw probe (Suc k) = Some r" by (auto simp: watch_ask_def split: option.splits sum.splits if_splits)
    from IH [OF this] show ?thesis by (meson Suc_leD)
  next
    case (Some a)
    then show ?thesis by (intro exI [of _ k]) simp
  qed
qed

interpretation watch: poll "watch_ask tw probe" "watch_child tw probe" for tw probe
proof
  show "watch_child tw probe k = (case watch_ask tw probe k of Some r \<Rightarrow> Some r | None \<Rightarrow> watch_child tw probe (Suc k))" for k
    by (subst watch_child.simps) (auto simp: watch_ask_def split: sum.split option.split)
qed (rule watch_child_answered)

section \<open>Exit codes\<close>

lemma and_mask_bound: "uint (w AND 0xFF :: 32 word) \<le> 255" "uint (w AND 0x7F :: 32 word) \<le> 127"
  using word_and_le1 [of w "0xFF"] word_and_le1 [of w "0x7F"] by (simp_all add: word_le_def)

text \<open>C38: the exit code of the wrapper is a code of its own range for every wait status the kernel can
  report, so the parent sees it as it is, and it is 0 only when the child itself exited with 0: a signal, a
  failure or a stop is never reported as success.\<close>
theorem exit_code_bounds:
  "0 \<le> exit_code st \<and> exit_code st \<le> 255 \<and> (exit_code st = 0 \<longleftrightarrow> status_code st = Some 0)
   \<and> (status_code st = None \<longrightarrow> 128 < exit_code st)"
proof -
  have sig: "0 < s \<and> s \<le> 127" if "status_code st = None" "status_signal st = Some s" for s
  proof -
    have "st AND 0x7F \<noteq> 0" using that(1) by (auto simp: status_code_def split: if_splits)
    then have "uint (st AND 0x7F) \<noteq> 0" by (simp add: word_uint_eq_iff)
    with that(2) and_mask_bound(2) [of st] show ?thesis
      by (auto simp: status_signal_def order.not_eq_order_implies_strict split: if_splits)
  qed
  show ?thesis
    using sig and_mask_bound(1) [of "drop_bit 8 st"]
    by (auto simp: exit_code_def status_code_def split: option.split if_splits)
qed

theorem exit_code_bounds_witness: "128 < exit_code 9 \<and> exit_code 9 \<le> 255"
  using exit_code_bounds [of 9] by (simp add: status_code_def)

section \<open>The probe\<close>

lemma rsplit_once_char: "c \<notin> set p \<Longrightarrow> rsplit_once c (h @ c # p) = Some (h, p)"
  by (auto simp: rsplit_once_def takeWhile_append dropWhile_append)

lemma show_nat_plain: "CHR '':'' \<notin> set (show_nat n)" "CHR ''/'' \<notin> set (show_nat n)"
proof -
  have "48 \<le> (of_char c :: nat) \<and> (of_char c :: nat) < 58" if "c \<in> set (show_nat n)" for c
    using that show_nat_digits [of c n] digit_char_code by (force simp: show_nat_def)
  from this [of "CHR '':''"] this [of "CHR ''/''"]
  show "CHR '':'' \<notin> set (show_nat n)" "CHR ''/'' \<notin> set (show_nat n)" by auto
qed

text \<open>A probe is what its URL says: scheme, host, port and path of a URL come back as the fields of the
  probe, with the port as the 16-bit number it was written as, for http and, when the TLS configuration can be
  built, for https.\<close>
theorem probe_url_roundtrip:
  assumes "CHR ''/'' \<notin> set host" "port < 2 ^ 16"
  shows "build_probe te (''http://'' @ host @ '':'' @ show_nat port @ ''/'' @ path) cacert cert key insecure =
      Inr \<lparr>p_host = host, p_port = word_of_nat port, p_path = ''/'' @ path, p_tls = False, p_config = None\<rparr>
    \<and> build_probe te (''https://'' @ host @ '':'' @ show_nat port @ ''/'' @ path) cacert cert key insecure =
      map_sum id (\<lambda>config. \<lparr>p_host = host, p_port = word_of_nat port, p_path = ''/'' @ path, p_tls = True, p_config = Some config\<rparr>)
        (tls_config te cacert cert key insecure)
    \<and> unat (word_of_nat port :: 16 word) = port"
proof -
  have "split_path (host @ '':'' @ show_nat port @ ''/'' @ path) = (host @ '':'' @ show_nat port, ''/'' @ path)"
    using split_once_char [of "CHR ''/''" "host @ '':'' @ show_nat port" path] assms(1) show_nat_plain(2)
    by (simp add: split_path_def)
  moreover have "split_port tls (host @ '':'' @ show_nat port) = Inr (host, word_of_nat port)" for tls
    using rsplit_once_char [OF show_nat_plain(1), of host port] parse_unsigned_show [OF assms(2)] by (simp add: split_port_def)
  moreover have "split_scheme (''http://'' @ r) = Inr (False, r)" "split_scheme (''https://'' @ r) = Inr (True, r)" for r
    by (simp_all add: split_scheme_def strip_prefix_def)
  moreover have "unat (word_of_nat port :: 16 word) = port" using assms(2) by (simp add: unsigned_of_nat take_bit_nat_eq_self)
  ultimately show ?thesis
    by (cases "tls_config te cacert cert key insecure") (simp_all add: build_probe_def strip_prefix_def [of "''unix://''"])
qed

text \<open>C37: a probe that \<open>build_probe\<close> returns is well formed: it has a TLS configuration exactly when it speaks
  TLS, so \<open>check\<close> never unwraps a missing one; and without \<open>--insecure\<close> that configuration verifies the
  server against the certificates of the \<open>--cacert\<close> file and nothing else.\<close>
theorem probe_well_formed:
  assumes "build_probe te url cacert cert key insecure = Inr p"
  shows "(p_tls p \<longleftrightarrow> p_config p \<noteq> None)
    \<and> (\<forall>net. check p net \<noteq> Inl ''called Option::unwrap() on a None value'')
    \<and> (\<forall>config. p_config p = Some config \<longrightarrow> \<not> insecure \<longrightarrow>
         (\<exists>ca certs. cacert = Some ca \<and> load_pem_certs te ca = Inr certs \<and> tc_trust config = RootCerts certs))"
proof -
  have cfg: "p_tls p \<longleftrightarrow> p_config p \<noteq> None"
    and trust: "\<And>config. p_config p = Some config \<Longrightarrow> tls_config te cacert cert key insecure = Inr config"
    using assms by (cases "tls_config te cacert cert key insecure";
        auto simp: build_probe_def split: option.splits sum.splits prod.splits if_splits)+
  have "\<exists>ca certs. cacert = Some ca \<and> load_pem_certs te ca = Inr certs \<and> tc_trust config = RootCerts certs"
    if "tls_config te cacert cert key insecure = Inr config" "\<not> insecure" for config
    using that by (auto simp: tls_config_def server_trust_def split: option.splits sum.splits if_splits)
  with cfg trust show ?thesis by (auto simp: check_def split: option.split)
qed

definition demo_tls :: TlsEnv where
  "demo_tls = \<lparr>te_provider = \<lparr>cp_verify12 = (\<lambda>_ _ _. True), cp_verify13 = (\<lambda>_ _ _. True), cp_schemes = []\<rparr>,
     te_read = (\<lambda>_. Some []), te_certs = (\<lambda>_. Some [[1]]), te_key = (\<lambda>_. None), te_root_ok = (\<lambda>_. True),
     te_auth_ok = (\<lambda>_ _. True)\<rparr>"

theorem probe_url_roundtrip_witness:
  "\<exists>config. build_probe demo_tls (''https://'' @ ''localhost'' @ '':'' @ show_nat 6443 @ ''/'' @ ''readyz'') (Some ''ca.crt'') None None False =
    Inr \<lparr>p_host = ''localhost'', p_port = word_of_nat 6443, p_path = ''/readyz'', p_tls = True, p_config = Some config\<rparr>"
  using probe_url_roundtrip [of "''localhost''" 6443 demo_tls "''readyz''" "Some ''ca.crt''" None None False]
  by (simp add: tls_config_def server_trust_def client_auth_def load_pem_certs_def demo_tls_def)

theorem probe_well_formed_witness:
  "\<exists>p config. build_probe demo_tls ''https://localhost'' (Some ''ca.crt'') None None False = Inr p \<and> p_config p = Some config
     \<and> tc_trust config = RootCerts [[1]]"
proof -
  obtain p where p: "build_probe demo_tls ''https://localhost'' (Some ''ca.crt'') None None False = Inr p" "p_tls p"
    by (simp add: build_probe_def split_scheme_def split_path_def split_port_def rsplit_once_def strip_prefix_def
        tls_config_def server_trust_def client_auth_def load_pem_certs_def demo_tls_def)
  from probe_well_formed [OF p(1)] p show ?thesis by (force simp: load_pem_certs_def demo_tls_def)
qed

section \<open>The wrapper\<close>

fun is_ready :: "ReadyEffect \<Rightarrow> bool" where
  "is_ready (SendReady addr) \<longleftrightarrow> True"
| "is_ready _ \<longleftrightarrow> False"

text \<open>Round \<open>k\<close> is the first in which the loop learns anything.\<close>

definition quiet_until :: "ReadyHost \<Rightarrow> Probe \<Rightarrow> nat \<Rightarrow> bool" where
  "quiet_until h p k \<longleftrightarrow> (\<forall>j < k. h_try_wait h j = None \<and> check p (h_net h j) = Inr False)"

lemma watch_ask_None: "watch_ask tw probe j = None \<longleftrightarrow> tw j = None \<and> probe j = Inr False"
  by (auto simp: watch_ask_def split: option.splits sum.splits if_splits)

lemma watch_ask_Some:
  "watch_ask tw probe j = Some (ProbedReady k) \<longleftrightarrow> j = k \<and> tw k = None \<and> probe k = Inr True"
  "watch_ask tw probe j = Some (ChildGone st) \<longleftrightarrow> tw j = Some st"
  by (auto simp: watch_ask_def split: option.splits sum.splits if_splits)

lemma wait_only_exits: "wait_only h p = Some es \<Longrightarrow> \<exists>c. es = [ExitWith c]"
  unfolding wait_only_def map_option_eq_Some by (auto simp: die_ready_def split: sum.split)

lemma run_supervises:
  assumes "ready_run h args = Some es" "\<exists>e \<in> set es. is_ready e \<or> (\<exists>prog cargs. e = SpawnChild prog cargs)"
  shows "\<exists>a url p prog cargs. parse_args no_args args = Inr a \<and> r_cmd a = Some (prog # cargs) \<and> r_url a = Some url
    \<and> build_probe (h_tls h) url (r_cacert a) (r_cert a) (r_key a) (r_insecure a) = Inr p
    \<and> supervise h p prog cargs = Some es"
  using assms
  by (auto simp: ready_run_def Let_def die_ready_def split: sum.splits option.splits if_splits list.splits dest!: wait_only_exits)

lemma supervise_watch:
  assumes "h_spawn h prog args" "watch_child (h_try_wait h) (\<lambda>k. check p (h_net h k)) 0 = Some r"
  shows "supervise h p prog args = Some (SpawnChild prog args # after_watch h r)"
  using assms by (simp add: supervise_def)

lemma watch_first:
  "watch_child (h_try_wait h) (\<lambda>k. check p (h_net h k)) 0 = Some r \<longleftrightarrow>
     (\<exists>k. quiet_until h p k \<and> watch_ask (h_try_wait h) (\<lambda>k. check p (h_net h k)) k = Some r)"
  by (auto simp: watch.loop_iff_first watch_ask_None quiet_until_def)

text \<open>C20: systemd is told that the component is ready at most once, and only after the probe built from the
  flags succeeded for the first time, in a round in which the child had been spawned and had not exited: a
  notification is the second thing the wrapper does, and nothing but its exit can follow.\<close>
theorem ready_after_probe:
  assumes "ready_run h args = Some es" "SendReady addr \<in> set es"
  shows "\<exists>a url p k prog cargs tail. parse_args no_args args = Inr a \<and> r_url a = Some url
    \<and> build_probe (h_tls h) url (r_cacert a) (r_cert a) (r_key a) (r_insecure a) = Inr p
    \<and> quiet_until h p k \<and> h_try_wait h k = None \<and> check p (h_net h k) = Inr True
    \<and> es = SpawnChild prog cargs # SendReady addr # tail \<and> set tail \<subseteq> range ExitWith"
proof -
  have "\<exists>e \<in> set es. is_ready e \<or> (\<exists>prog cargs. e = SpawnChild prog cargs)" using assms(2) by (intro bexI [of _ "SendReady addr"]) auto
  then obtain a url p prog cargs where a: "parse_args no_args args = Inr a" "r_url a = Some url"
    "build_probe (h_tls h) url (r_cacert a) (r_cert a) (r_key a) (r_insecure a) = Inr p"
    and sup: "supervise h p prog cargs = Some es"
    using run_supervises [OF assms(1)] by blast
  obtain r where r: "watch_child (h_try_wait h) (\<lambda>k. check p (h_net h k)) 0 = Some r"
    and es: "es = SpawnChild prog cargs # after_watch h r"
    using sup assms(2) by (auto simp: supervise_def die_ready_def split: if_splits)
  from es assms(2) obtain k where k: "r = ProbedReady k"
    by (cases r) (auto simp: after_watch_def die_ready_def)
  with r have "quiet_until h p k" "h_try_wait h k = None" "check p (h_net h k) = Inr True"
    by (auto simp: watch_first watch_ask_Some)
  moreover from es k assms(2) obtain tail where "es = SpawnChild prog cargs # SendReady addr # tail" "set tail \<subseteq> range ExitWith"
    by (auto simp: after_watch_def notify_def die_ready_def split: option.splits sum.splits)
  ultimately show ?thesis using a by blast
qed

text \<open>A component that turns healthy in its second round and later exits with 3.\<close>

definition demo_ready :: ReadyHost where
  "demo_ready =
     \<lparr>h_tls = demo_tls,
      h_net = (\<lambda>k. \<lparr>n_unix = (\<lambda>_. False), n_tcp = (\<lambda>_. True), n_name = (\<lambda>_. True), n_session = (\<lambda>_ _. True),
        n_write = (\<lambda>_. True), n_read = (if k = 0 then None else Some ''HTTP/1.1 200 OK'')\<rparr>),
      h_spawn = (\<lambda>_ _. True), h_try_wait = (\<lambda>_. None), h_wait = (\<lambda>_. Some (Inr 768)),
      h_notify = Some ''@notify'', h_unbound = True, h_abstract = (\<lambda>_. True)\<rparr>"

definition demo_probe :: Probe where
  "demo_probe = \<lparr>p_host = ''localhost'', p_port = 80, p_path = ''/healthz'', p_tls = False, p_config = None\<rparr>"

lemma demo_check: "check demo_probe (h_net demo_ready k) = Inr (k \<noteq> 0)"
  by (simp add: check_def exchange_def demo_probe_def demo_ready_def)

lemma demo_quiet: "quiet_until demo_ready demo_probe 1"
  using demo_check [of 0] by (simp add: quiet_until_def) (simp add: demo_ready_def)

lemma demo_ready_run:
  "ready_run demo_ready [''--url'', ''http://localhost/healthz'', ''--'', ''kine''] =
     Some [SpawnChild ''kine'' [], SendReady (AbstractName ''notify''), ExitWith 3]"
proof -
  have w: "watch_child (h_try_wait demo_ready) (\<lambda>k. check demo_probe (h_net demo_ready k)) 0 = Some (ProbedReady 1)"
    unfolding watch_first using demo_quiet demo_check [of 1]
    by (intro exI [of _ 1]) (simp add: watch_ask_def demo_ready_def)
  have "exit_code 768 = 3" by (simp add: exit_code_def status_code_def)
  with w have "supervise demo_ready demo_probe ''kine'' [] =
      Some [SpawnChild ''kine'' [], SendReady (AbstractName ''notify''), ExitWith 3]"
    by (simp add: supervise_def after_watch_def notify_def sd_notify_ready_def strip_prefix_def) (simp add: demo_ready_def strip_prefix_def)
  then show ?thesis
    by (simp add: ready_run_def no_args_def build_probe_def split_scheme_def split_path_def split_port_def rsplit_once_def
        strip_prefix_def demo_probe_def)
qed

theorem ready_after_probe_witness:
  "\<exists>p k. quiet_until demo_ready p k \<and> check p (h_net demo_ready k) = Inr True"
  using ready_after_probe [OF demo_ready_run, of "AbstractName ''notify''"] by auto

text \<open>The wrapper ends as its child ends: when the child exits before any probe succeeds, or after the
  notification, the wrapper's last act is to exit with the child's code.\<close>
theorem child_status_propagated:
  assumes "h_spawn h prog args" "quiet_until h p k"
    and "h_try_wait h k = Some st \<or> h_try_wait h k = None \<and> check p (h_net h k) = Inr True \<and> h_wait h k = Some (Inr st)"
  shows "\<exists>notified. supervise h p prog args = Some (SpawnChild prog args # notified @ [ExitWith (exit_code st)])
    \<and> (notified = [] \<or> h_try_wait h k = None \<and> notified = notify h)"
proof -
  let ?r = "case h_try_wait h k of Some st \<Rightarrow> ChildGone st | None \<Rightarrow> ProbedReady k"
  have "watch_ask (h_try_wait h) (\<lambda>k. check p (h_net h k)) k = Some ?r"
    using assms(3) by (auto simp: watch_ask_def)
  with assms(2) have "watch_child (h_try_wait h) (\<lambda>k. check p (h_net h k)) 0 = Some ?r" unfolding watch_first by blast
  from supervise_watch [where h = h and p = p, OF assms(1) this] assms(3) show ?thesis by (auto simp: after_watch_def)
qed

theorem child_status_propagated_witness:
  "\<exists>notified. supervise demo_ready demo_probe ''kine'' [] = Some (SpawnChild ''kine'' [] # notified @ [ExitWith (exit_code 768)])"
  using child_status_propagated [of demo_ready "''kine''" "[]" demo_probe 1 768] demo_quiet demo_check [of 1]
  by (auto simp: demo_ready_def)

lemma after_watch_exits:
  "(\<exists>es c. after_watch h r = es @ [ExitWith c]) \<longleftrightarrow> (\<forall>k. r = ProbedReady k \<longrightarrow> h_wait h k \<noteq> None)"
  by (cases r) (auto simp: after_watch_def die_ready_def notify_def split: option.splits sum.splits)

lemma after_watch_last:
  "(\<exists>es c. x # after_watch h r = es @ [ExitWith c]) \<longleftrightarrow> (\<exists>es c. after_watch h r = es @ [ExitWith c]) \<or> after_watch h r = [] \<and> (\<exists>c. x = ExitWith c)"
  by (auto simp: Cons_eq_append_conv)

text \<open>C36: when the wrapper ends. \<open>--wait\<close> exits if and only if some probe succeeds or hits an invalid server
  name. The supervising wrapper exits if and only if the child cannot be spawned or, in the first round that learns
  anything, the child has exited, the probe hits an invalid server name, or the probe succeeds and the child, on
  which the wrapper then blocks, exits later. Each takes finitely many rounds.\<close>
theorem loops_return_iff:
  "((\<exists>c. wait_only h p = Some [ExitWith c]) \<longleftrightarrow> (\<exists>k. check p (h_net h k) \<noteq> Inr False))
   \<and> ((\<exists>es c. supervise h p prog args = Some (es @ [ExitWith c])) \<longleftrightarrow>
       \<not> h_spawn h prog args
       \<or> (\<exists>k. quiet_until h p k
            \<and> (h_try_wait h k \<noteq> None \<or> (\<exists>e. check p (h_net h k) = Inl e)
               \<or> check p (h_net h k) = Inr True \<and> h_wait h k \<noteq> None)))"
proof
  have "wait_ask probe j = None \<longleftrightarrow> probe j = Inr False" for probe j
    by (auto simp: wait_ask_def split: sum.splits)
  then have "(\<exists>es. wait_only h p = Some es) \<longleftrightarrow> (\<exists>k. check p (h_net h k) \<noteq> Inr False)"
    using wait.loop_returns_iff [of "\<lambda>k. check p (h_net h k)" 0] by (auto simp: wait_only_def)
  then show "(\<exists>c. wait_only h p = Some [ExitWith c]) \<longleftrightarrow> (\<exists>k. check p (h_net h k) \<noteq> Inr False)"
    using wait_only_exits [of h p] by blast
  let ?ask = "watch_ask (h_try_wait h) (\<lambda>k. check p (h_net h k))"
  have ends: "(\<exists>r. ?ask k = Some r \<and> (\<forall>j. r = ProbedReady j \<longrightarrow> h_wait h j \<noteq> None)) \<longleftrightarrow>
      h_try_wait h k \<noteq> None \<or> (\<exists>e. check p (h_net h k) = Inl e) \<or> check p (h_net h k) = Inr True \<and> h_wait h k \<noteq> None" for k
    by (auto simp: watch_ask_def split: option.splits sum.splits if_splits)
  have "(\<exists>es c. supervise h p prog args = Some (es @ [ExitWith c])) \<longleftrightarrow>
      (\<exists>r. watch_child (h_try_wait h) (\<lambda>k. check p (h_net h k)) 0 = Some r
        \<and> (\<exists>es c. SpawnChild prog args # after_watch h r = es @ [ExitWith c]))" if "h_spawn h prog args"
    using that by (auto simp: supervise_def)
  then have "(\<exists>es c. supervise h p prog args = Some (es @ [ExitWith c])) \<longleftrightarrow>
      (\<exists>k. quiet_until h p k \<and> (\<exists>r. ?ask k = Some r \<and> (\<forall>j. r = ProbedReady j \<longrightarrow> h_wait h j \<noteq> None)))"
    if "h_spawn h prog args"
    using that unfolding watch_first after_watch_last after_watch_exits by blast
  then show "(\<exists>es c. supervise h p prog args = Some (es @ [ExitWith c])) \<longleftrightarrow>
       \<not> h_spawn h prog args
       \<or> (\<exists>k. quiet_until h p k
            \<and> (h_try_wait h k \<noteq> None \<or> (\<exists>e. check p (h_net h k) = Inl e)
               \<or> check p (h_net h k) = Inr True \<and> h_wait h k \<noteq> None))"
    unfolding ends by (auto simp: supervise_def die_ready_def)
qed

text \<open>A child that never exits after READY keeps the wrapper for ever, in spite of the successful probe.\<close>

theorem loops_return_iff_witness:
  "(\<exists>c. wait_only demo_ready demo_probe = Some [ExitWith c])
   \<and> (\<exists>es c. supervise demo_ready demo_probe ''kine'' [] = Some (es @ [ExitWith c]))
   \<and> \<not> (\<exists>es c. supervise (demo_ready\<lparr>h_wait := \<lambda>_. None\<rparr>) demo_probe ''kine'' [] = Some (es @ [ExitWith c]))"
proof -
  let ?stuck = "demo_ready\<lparr>h_wait := \<lambda>_. None\<rparr>"
  have one: "check demo_probe (h_net demo_ready 1) = Inr True" by (simp add: demo_check)
  have "h_wait demo_ready 1 \<noteq> None" by (simp add: demo_ready_def)
  with loops_return_iff [of demo_ready demo_probe "''kine''" "[]"] demo_quiet one
  have ends: "\<exists>c. wait_only demo_ready demo_probe = Some [ExitWith c]"
    "\<exists>es c. supervise demo_ready demo_probe ''kine'' [] = Some (es @ [ExitWith c])" by auto
  have "h_spawn ?stuck ''kine'' []" "h_try_wait ?stuck k = None" "check demo_probe (h_net ?stuck k) = Inr (k \<noteq> 0)" for k
    using demo_check [of k] by (simp_all add: demo_ready_def)
  with loops_return_iff [of ?stuck demo_probe "''kine''" "[]"]
  have "\<not> (\<exists>es c. supervise ?stuck demo_probe ''kine'' [] = Some (es @ [ExitWith c]))" by simp
  with ends show ?thesis by blast
qed

section \<open>Corner cases\<close>

text \<open>A probe that dies on an invalid server name does so after the child was spawned, and leaves it running.\<close>

lemma probe_death_leaves_child:
  assumes "h_spawn h prog args" "quiet_until h p k" "h_try_wait h k = None" "check p (h_net h k) = Inl e"
  shows "supervise h p prog args = Some [SpawnChild prog args, ExitWith 2]"
proof -
  have "watch_ask (h_try_wait h) (\<lambda>k. check p (h_net h k)) k = Some (ProbeDied e)"
    using assms(3,4) by (simp add: watch_ask_def)
  with assms(2) have "watch_child (h_try_wait h) (\<lambda>k. check p (h_net h k)) 0 = Some (ProbeDied e)" unfolding watch_first by blast
  from supervise_watch [where h = h and p = p, OF assms(1) this] show ?thesis by (simp add: after_watch_def die_ready_def)
qed

text \<open>The port that marks a socket probe can be written in a URL, which then probes a socket named as the host.\<close>

lemma port_zero_probes_a_socket:
  "p_port p = 0 \<Longrightarrow> check p net = Inr (n_unix net (p_host p))"
  by (simp add: check_def)

text \<open>Of the 2xx answers only 200 counts.\<close>

lemma only_200_is_ready:
  assumes "p_port p \<noteq> 0" "check p net = Inr True"
  shows "\<exists>data. n_read net = Some data \<and> 12 \<le> length data \<and> take 3 (drop 9 data) = ''200''"
proof -
  have "exchange p net" using assms by (auto simp: check_def split: if_splits option.splits)
  then obtain data where "n_read net = Some data" "12 \<le> length (take 64 data)" "take 3 (drop 9 (take 64 data)) = ''200''"
    by (auto simp: exchange_def Let_def split: if_splits option.splits)
  then show ?thesis by (simp add: drop_take min_def split: if_splits)
qed

end
