(* ===== verification/Spec2Isabelle.thy ===== *)
theory Spec2Isabelle
  imports Etcd_Process Etcd_Watch_Props Clockstep Dispatch Lb_Run Snap_Cmd_Props Snap_Life Pki_Props Kubeconfig Ready_Props
begin

text \<open>
  Kubenyx: the Rust tools of the repository (\<open>rust/\<close>), which boot and snapshot small Kubernetes
  clusters in microVMs.

  \<^bold>\<open>The parts and how they meet.\<close> One multicall binary (\<open>kubenyx/src/main.rs\<close>) routes to six tools.
  \<open>etcd-mem\<close> is an in-memory etcd: a store (\<open>store.rs\<close>) under one lock, gRPC handlers and watch
  streams around it (\<open>svc.rs\<close>), and a task that revokes expired leases (\<open>lib.rs\<close>). \<open>kubenyx-lb\<close>
  forwards TCP connections to the apiservers that answer their health probes. \<open>kubenyx-snap\<close> takes
  and resumes VM snapshots, of one VM or of a mesh; it refuses to resume where the recorded identity
  does not match, and pokes the guests' clocks afterwards, which \<open>kubenyx-clockstep\<close> receives.
  \<open>kubenyx-pki\<close> mints certificates and \<open>kubenyx-ready\<close> waits for readiness.

  \<^bold>\<open>Theories.\<close>
  \<^item> \<open>Kubenyx_Prelude\<close>: byte strings, signed 64-bit counters, panics, shared list lemmas.
  \<^item> \<open>BTree_Map\<close>: the ordered map of the standard library as its entry list. Its contract is the
    locale \<open>ordered_map\<close>, interpreted on the entry list.
  \<^item> \<open>Rust_Str\<close>: the string methods the tools use (splitting, trimming, lines, integers).
  \<^item> \<open>Etcd_Types\<close>: the messages of \<open>proto/rpc.proto\<close>.
  \<^item> \<open>Etcd_Store\<close>: \<open>store.rs\<close>, one definition per method, with the record \<open>Store\<close>. The broadcast
    sender is the field \<open>sent\<close>, the list of batches handed to it; \<open>Instant::now()\<close> is the argument
    \<open>now\<close>, in nanoseconds; a panic is a value next to the store left behind. The field \<open>kvs_root\<close> says whether
    the ordered map ever held an entry: only then does it reject an interval the wrong way round.
  \<^item> \<open>Etcd_Store_Facts\<close>: what each operation does to each field; the accumulator loops as folds.
  \<^item> \<open>Etcd_Store_Inv\<close>: the invariant (entries, history, leases) and that every operation keeps it.
    The locale \<open>mutation_invariant\<close> says that what puts and deletions keep, transactions and
    revocations keep; it is interpreted three times (the invariant, growth of the history, and
    attachment of keys to leases).
  \<^item> \<open>Etcd_Store_Spec\<close>: the abstract store (a partial map and a revision), the refinement lemmas,
    the step relation \<open>store_step\<close> over all mutating requests, reachability, and runs.
  \<^item> \<open>Etcd_Store_Props\<close>, \<open>Etcd_Txn\<close>: listing and paging, guarded transactions.
  \<^item> \<open>Etcd_Lease\<close>, \<open>Etcd_Lease_Props\<close>: revocation, lifetimes, the expiry task.
  \<^item> \<open>Etcd_Watch\<close>, \<open>Etcd_Watch_Delivery\<close>, \<open>Etcd_Watch_Props\<close>: the watch task, and its system with
    the store, in which the broadcast receiver is a position into \<open>sent\<close>.
  \<^item> \<open>Etcd_Svc\<close>: the unary handlers, the service as a whole, the command line. \<open>Etcd_Service_Spec\<close>: the abstract
    service (a partial map, a revision, a table of leases with their keys and deadlines) with one abstract
    operation per request, and that every request implements its own. \<open>Etcd_Process\<close>: start-up and
    shutdown as ordered effects on the host, and the server in which requests interleave with both halves of
    an expiry tick; its labelled steps refine those of the abstract server.
  \<^item> \<open>Dispatch\<close>: \<open>main.rs\<close>. \<open>Clockstep\<close>: \<open>kubenyx-clockstep\<close> with the sender of
    \<open>kubenyx-snap\<close>, and the guest's clock under the pokes of a resume.
  \<^item> \<open>Lb\<close>: the sequential parts of \<open>kubenyx-lb\<close> (configuration, dial order, health, pump, drain condition).
    \<open>Lb_Run\<close>: probes and the process, a step relation over the accept loop, the health thread, one thread
    per connection, the clock and the drain signal.
  \<^item> \<open>Snap_Identity\<close>, \<open>Snap_Mesh\<close>: identity, gate, manifests and node selection of \<open>kubenyx-snap\<close>.
    \<open>Snap_Vmm\<close>: the sixteen-slot table of owned VMMs, sequentially and under concurrent claims.
    \<open>Snap_Api\<close>: the HTTP client of the firecracker socket, the liveness and quorum-write probes.
    \<open>Snap_Cmd\<close>: all commands over a world of ordered effects; a command ends normally, in \<open>die\<close> or in a
    panic (also when a line cannot be printed), and threads are lists of actions interleaved by a schedule.
  \<^item> \<open>Snap_Trace\<close>: the framework for statements on the order of effects (what a command may emit, and
    after what). \<open>Snap_Demo\<close>: a concrete host and runs on it, for witnesses. \<open>Snap_Cmd_Props\<close>: order of the
    mesh and attached takes, and the gate. \<open>Snap_Life\<close>: which VMMs live at the end of a command.
  \<^item> \<open>Pki_Tar\<close>, \<open>Node_Ip\<close>, \<open>Pki\<close>, \<open>Pki_Props\<close>: \<open>kubenyx-pki\<close>. The archive writer and the accept loop; the
    detection of the node's address; all modes as
    actions on a \<open>World\<close> (a map of files and a count of random draws and clock readings) that end normally
    or in a message of \<open>die\<close> or a panic, keeping what was written before it, with every failure of a write
    as a branch; frames, total correctness triples and
    the properties. \<open>Kubeconfig\<close>: what \<open>kubenyx-pki\<close> writes and \<open>kubenyx-snap\<close> reads back.
  \<^item> \<open>Ready\<close>, \<open>Ready_Props\<close>: \<open>kubenyx-ready\<close> and the verifier of \<open>kubenyx-tls\<close>. Its two loops are partial
    functions; their common contract is the locale \<open>poll\<close>, interpreted on both.

  \<^bold>\<open>What is shown.\<close> For the store: in every reachable state the invariant holds, put and delete
  implement the abstract store, the history rebuilds every past map, ranges and pages are exact,
  guarded writes lose no update, leases delete exactly the keys they list (which are all that carry them unless
  a number is granted again while in use) and expire on time. For watches:
  each watch is sent exactly the matching events of its window, in order and once, under any
  interleaving of store operations and client messages. For the service: replies carry
  non-decreasing revisions, exactly which requests panic, and that every step of the process, a request or half of
  an expiry tick, is the abstract step of the same label. For the load balancer: dial order, round
  robin, hysteresis of the health state under any number of probes, an invariant of the process under every
  interleaving (with READY sent once if some probe succeeded and never otherwise), and an orderly drain. For snapshots: the gate's exact
  condition and that nothing is spawned without it, round trips of the manifests, a mesh take that
  snapshots only when every node is paused and kills only when everything is written, a table of VMMs that
  concurrent claims keep consistent, and that no VMM outlives a single-VM command unnoticed as long as it can
  print and start threads. For the
  clock: the wire round trip, idempotence, and that a resume's pokes settle it in at most one step. For
  readiness: READY is sent once and after a successful probe, both loops return exactly when they should,
  a probe is well formed, exit codes are in range. For the PKI: trust roots are never touched in the durable
  posture, a boot on a host that lets it write completes and leaves current kubeconfigs, leaves follow their CA and their renewal
  window, minting completes a bundle and then rests, the served archive reads back as the files on disk
  and is counted only when it landed. Some theorems state where the code falls short of
  its own comments or of what a client may expect (panics on inverted ranges, transactions that
  are neither one revision nor atomic under a panic, lease numbers granted twice, the expiry race,
  watches from a future revision, re-minting over a damaged bundle, a validity past the last date, VMMs left behind
  by an empty marker, a full table, a closed output, a signal before the table names them, a relative run directory
  or a race in the mesh resume).

  \<^bold>\<open>Bounds.\<close> Revisions are \<open>i64\<close> and wrap in the code's release profile. The steps of
  \<open>store_step\<close> carry the side condition that the operation does not run past the last value
  (\<open>txn_cost\<close>, \<open>lease_cost\<close>, \<open>rpc_cost\<close> bound what it spends); at a million writes a second the
  counter lasts for hundreds of thousands of years. Ranges assume that a store holds at most
  \<open>usize::MAX\<close> entries. No definition uses fuel: recursion is structural or has a measure, or is a partial
  function in the option monad (the two loops of \<open>Ready\<close>, with the exact condition for their return);
  waiting loops of \<open>Snap_Api\<close> run over the clock readings of their rounds. Threads are step relations or lists
  of actions under an arbitrary schedule.

  \<^bold>\<open>Parameters.\<close> The broadcast channel of tokio: a receiver yields the batches sent after its
  subscription in order, each once, or reports a lag. SHA-256. Key generation, X.509 and base64 (the
  record \<open>Env\<close> of \<open>Pki\<close>, with what is relied on as hypotheses: generated material is not empty,
  certificates report the expiry they were made with; also which writes fail, which dates are in range and whether
  the standard error can be written). TLS sessions, PEM parsing and the cryptography
  provider (\<open>TlsEnv\<close>, \<open>Net\<close>, \<open>TlsTry\<close>), what the host and firecracker answer to the snapshot commands
  (\<open>SnapEnv\<close>), the child and the sockets of the readiness wrapper (\<open>ReadyHost\<close>), the socket file and the gRPC
  server of \<open>etcd-mem\<close> (\<open>EtcdHost\<close>), the kernel's answers on addresses (\<open>HostNet\<close>). The contents of files, directory
  listings and \<open>/proc\<close>, name resolution, which backend accepts a connection, and clock readings
  are arguments.

  \<^bold>\<open>Not modelled.\<close> The wire encoding of gRPC and the generated message code, the internals of TLS and X.509,
  kernel sockets; file modes, and failures to read a file that exists; the printed text, logs and
  measured timings. Printing that fails is a panic in the snapshot commands and the PKI generator and is taken to
  succeed elsewhere; the random generator is taken to work. Signals are a function on the world of a
  snapshot command, not a step of it. Paths are compared as they are written. Memory orderings weaker than sequential consistency are left out. A dial, a turn of the health thread and
  a request under the store's lock are single steps. The tests in the sources and the NixOS modules around the
  tools are left out.
\<close>

end
